(* ===== verification/Prelude.thy ===== *)
theory Prelude
  imports Main "HOL-Library.Word" "HOL-Library.Sublist" "HOL-Library.AList"
begin

text \<open>
  The shared prelude of the clonebox development: the computations of the model (a state is
  passed through, and a computation either returns a value or stops), a small Hoare calculus for
  them, and the generic lemmas on strings, paths and association lists that the components use.

  A Rust function that performs effects is a computation \<open>('w, 'e, 'a) comp\<close>. It stops early
  in four ways, which the sources all have: \<open>Fail e\<close> is \<open>return Err(e)\<close> (or the \<open>?\<close>
  operator), \<open>Panicked\<close> is a Rust panic, \<open>Exited n\<close> is \<open>libc::_exit(n)\<close> in the child
  process, and \<open>Replaced\<close> is a successful \<open>execve\<close>, which never returns.
\<close>

named_theorems comp_simps \<open>how the combinators run\<close>
named_theorems wp \<open>rules of the Hoare calculus\<close>
named_theorems frames \<open>which part of the state an operation leaves alone\<close>

section \<open>Computations\<close>

text \<open>Pids, descriptors and exit codes are \<open>i32\<close>; \<open>sint\<close> reads their value.\<close>

type_synonym i32 = "32 word"

datatype 'e stop = Fail 'e | Panicked | Exited i32 | Replaced

type_synonym ('w, 'e, 'a) comp = "'w \<Rightarrow> ('e stop + 'a) \<times> 'w"

definition ret :: "'a \<Rightarrow> ('w, 'e, 'a) comp" where
  "ret x w = (Inr x, w)"

definition stop_with :: "'e stop \<Rightarrow> ('w, 'e, 'a) comp" where
  "stop_with e w = (Inl e, w)"

definition throw :: "'e \<Rightarrow> ('w, 'e, 'a) comp" where
  "throw e = stop_with (Fail e)"

definition bindE :: "('w, 'e, 'a) comp \<Rightarrow> ('a \<Rightarrow> ('w, 'e, 'b) comp) \<Rightarrow> ('w, 'e, 'b) comp" where
  "bindE m f w = (case m w of (Inl e, w') \<Rightarrow> (Inl e, w') | (Inr x, w') \<Rightarrow> f x w')"

definition thenE :: "('w, 'e, 'a) comp \<Rightarrow> ('w, 'e, 'b) comp \<Rightarrow> ('w, 'e, 'b) comp" where
  "thenE m m' = bindE m (\<lambda>_. m')"

text \<open>\<open>.map_err(f)\<close>; the datatype's own \<open>map_stop\<close> maps the error.\<close>

definition map_err :: "('e \<Rightarrow> 'f) \<Rightarrow> ('w, 'e, 'a) comp \<Rightarrow> ('w, 'f, 'a) comp" where
  "map_err f m w = (case m w of (Inl e, w') \<Rightarrow> (Inl (map_stop f e), w') | (Inr x, w') \<Rightarrow> (Inr x, w'))"

text \<open>Matching on the \<open>Result\<close> of a call: \<open>Ok\<close> and \<open>Err\<close> become a value, the other stops go on.\<close>

definition attempt :: "('w, 'e, 'a) comp \<Rightarrow> ('w, 'f, 'e + 'a) comp" where
  "attempt m w = (case m w of
       (Inl (Fail e), w') \<Rightarrow> (Inr (Inl e), w')
     | (Inl Panicked, w') \<Rightarrow> (Inl Panicked, w')
     | (Inl (Exited n), w') \<Rightarrow> (Inl (Exited n), w')
     | (Inl Replaced, w') \<Rightarrow> (Inl Replaced, w')
     | (Inr x, w') \<Rightarrow> (Inr (Inr x), w'))"

text \<open>A \<open>Result\<close> value returned to the caller with \<open>?\<close>.\<close>

definition lift_result :: "'e + 'a \<Rightarrow> ('w, 'e, 'a) comp" where
  "lift_result r = (case r of Inl e \<Rightarrow> throw e | Inr x \<Rightarrow> ret x)"

text \<open>A \<open>for\<close> loop whose body returns \<open>()\<close>; the first stop ends it.\<close>

primrec for_each :: "'a list \<Rightarrow> ('a \<Rightarrow> ('w, 'e, unit) comp) \<Rightarrow> ('w, 'e, unit) comp" where
  "for_each [] f = ret ()"
| "for_each (x # xs) f = thenE (f x) (for_each xs f)"

lemma ret_run [comp_simps]: "ret x w = (Inr x, w)"
  by (simp add: ret_def)

lemma stop_with_run [comp_simps]: "stop_with e w = (Inl e, w)"
  by (simp add: stop_with_def)

lemma throw_run [comp_simps]: "throw e w = (Inl (Fail e), w)"
  by (simp add: throw_def stop_with_def)

lemma bindE_run [comp_simps]:
  "m w = (Inr x, w') \<Longrightarrow> bindE m f w = f x w'"
  "m w = (Inl e, w') \<Longrightarrow> bindE m f w = (Inl e, w')"
  by (simp_all add: bindE_def)

lemma thenE_run [comp_simps]:
  "m w = (Inr x, w') \<Longrightarrow> thenE m m' w = m' w'"
  "m w = (Inl e, w') \<Longrightarrow> thenE m m' w = (Inl e, w')"
  by (simp_all add: thenE_def bindE_def)

lemma map_err_run [comp_simps]:
  "m w = (Inr x, w') \<Longrightarrow> map_err f m w = (Inr x, w')"
  "m w = (Inl e, w') \<Longrightarrow> map_err f m w = (Inl (map_stop f e), w')"
  by (simp_all add: map_err_def)

lemma attempt_run [comp_simps]:
  "m w = (Inr x, w') \<Longrightarrow> attempt m w = (Inr (Inr x), w')"
  "m w = (Inl (Fail e), w') \<Longrightarrow> attempt m w = (Inr (Inl e), w')"
  by (simp_all add: attempt_def)

lemma lift_result_run [comp_simps]:
  "lift_result (Inr x) w = (Inr x, w)"
  "lift_result (Inl e) w = (Inl (Fail e), w)"
  by (simp_all add: lift_result_def comp_simps)

lemma bindE_ok: "bindE m f w = (Inr y, w'') \<longleftrightarrow> (\<exists>x w'. m w = (Inr x, w') \<and> f x w' = (Inr y, w''))"
  by (auto simp: bindE_def split: prod.splits sum.splits)

lemma bindE_stop:
  "bindE m f w = (Inl e, w'') \<longleftrightarrow>
     m w = (Inl e, w'') \<or> (\<exists>x w'. m w = (Inr x, w') \<and> f x w' = (Inl e, w''))"
  by (auto simp: bindE_def split: prod.splits sum.splits)

lemma thenE_ok: "thenE m m' w = (Inr y, w'') \<longleftrightarrow> (\<exists>x w'. m w = (Inr x, w') \<and> m' w' = (Inr y, w''))"
  by (simp add: thenE_def bindE_ok)

lemma thenE_stop:
  "thenE m m' w = (Inl e, w'') \<longleftrightarrow>
     m w = (Inl e, w'') \<or> (\<exists>x w'. m w = (Inr x, w') \<and> m' w' = (Inl e, w''))"
  by (simp add: thenE_def bindE_stop)

lemma map_err_ok: "map_err f m w = (Inr x, w') \<longleftrightarrow> m w = (Inr x, w')"
  by (auto simp: map_err_def split: prod.splits sum.splits)

lemma map_err_stop: "map_err f m w = (Inl e, w') \<longleftrightarrow> (\<exists>e'. m w = (Inl e', w') \<and> e = map_stop f e')"
  by (auto simp: map_err_def split: prod.splits sum.splits)

lemma attempt_ok:
  "attempt m w = (Inr r, w') \<longleftrightarrow>
     (\<exists>x. m w = (Inr x, w') \<and> r = Inr x) \<or> (\<exists>e. m w = (Inl (Fail e), w') \<and> r = Inl e)"
  by (auto simp: attempt_def split: prod.splits sum.splits stop.splits)

lemma lift_result_ok: "lift_result r w = (Inr x, w') \<longleftrightarrow> r = Inr x \<and> w' = w"
  by (auto simp: lift_result_def comp_simps split: sum.splits)

lemma map_sum_Inr: "map_sum f g r = Inr y \<longleftrightarrow> (\<exists>x. r = Inr x \<and> y = g x)"
  by (cases r) auto

lemma bindE_assoc: "bindE (bindE m f) g = bindE m (\<lambda>x. bindE (f x) g)"
  by (auto simp: bindE_def fun_eq_iff split: prod.splits sum.splits)

lemma bindE_ret [simp]: "bindE (ret x) f = f x"
  by (simp add: fun_eq_iff bindE_def ret_def)

lemma thenE_ret [simp]: "thenE (ret x) m = m"
  by (simp add: thenE_def)

lemmas comp_ok = bindE_ok thenE_ok map_err_ok

section \<open>A Hoare calculus with a stop postcondition\<close>

definition valid ::
    "('w \<Rightarrow> bool) \<Rightarrow> ('w, 'e, 'a) comp \<Rightarrow> ('a \<Rightarrow> 'w \<Rightarrow> bool) \<Rightarrow> ('e stop \<Rightarrow> 'w \<Rightarrow> bool) \<Rightarrow> bool" where
  "valid P m Q E \<longleftrightarrow>
     (\<forall>w. P w \<longrightarrow> (case m w of (Inr x, w') \<Rightarrow> Q x w' | (Inl e, w') \<Rightarrow> E e w'))"

lemma validI:
  assumes "\<And>w x w'. P w \<Longrightarrow> m w = (Inr x, w') \<Longrightarrow> Q x w'"
    and "\<And>w e w'. P w \<Longrightarrow> m w = (Inl e, w') \<Longrightarrow> E e w'"
  shows "valid P m Q E"
  using assms by (auto simp: valid_def split: prod.splits sum.splits)

lemma valid_ok: "valid P m Q E \<Longrightarrow> P w \<Longrightarrow> m w = (Inr x, w') \<Longrightarrow> Q x w'"
  by (auto simp: valid_def split: prod.splits sum.splits)

lemma valid_stop: "valid P m Q E \<Longrightarrow> P w \<Longrightarrow> m w = (Inl e, w') \<Longrightarrow> E e w'"
  by (auto simp: valid_def split: prod.splits sum.splits)

lemma valid_ret [wp]: "(\<And>w. P w \<Longrightarrow> Q x w) \<Longrightarrow> valid P (ret x) Q E"
  by (simp add: valid_def ret_def)

lemma valid_stop_with [wp]: "(\<And>w. P w \<Longrightarrow> E e w) \<Longrightarrow> valid P (stop_with e) Q E"
  by (simp add: valid_def stop_with_def)

lemma valid_throw [wp]: "(\<And>w. P w \<Longrightarrow> E (Fail e) w) \<Longrightarrow> valid P (throw e) Q E"
  by (simp add: throw_def valid_stop_with)

lemma valid_bind [wp]:
  "valid P m R E \<Longrightarrow> (\<And>x. valid (R x) (f x) Q E) \<Longrightarrow> valid P (bindE m f) Q E"
  by (rule validI) (auto simp: bindE_ok bindE_stop dest: valid_ok valid_stop)

lemma valid_then [wp]:
  "valid P m (\<lambda>_. R) E \<Longrightarrow> valid R m' Q E \<Longrightarrow> valid P (thenE m m') Q E"
  unfolding thenE_def by (rule valid_bind)

lemma valid_map_err [wp]:
  "valid P m Q (\<lambda>e. E (map_stop f e)) \<Longrightarrow> valid P (map_err f m) Q E"
  by (auto simp: valid_def map_err_def split: prod.splits sum.splits)

lemma valid_weaken:
  "valid P' m Q' E' \<Longrightarrow> (\<And>w. P w \<Longrightarrow> P' w) \<Longrightarrow> (\<And>x w. Q' x w \<Longrightarrow> Q x w) \<Longrightarrow>
   (\<And>e w. E' e w \<Longrightarrow> E e w) \<Longrightarrow> valid P m Q E"
  by (fastforce simp: valid_def split: prod.splits sum.splits)

section \<open>Decimal numbers, as \<open>format!("{}", n)\<close> prints them\<close>

definition digit_char :: "nat \<Rightarrow> char" where
  "digit_char d = char_of (48 + d)"

fun show_nat :: "nat \<Rightarrow> string" where
  "show_nat n = (if n < 10 then [digit_char n] else show_nat (n div 10) @ [digit_char (n mod 10)])"

declare show_nat.simps [simp del]

definition show_int :: "int \<Rightarrow> string" where
  "show_int i = (if i < 0 then CHR ''-'' # show_nat (nat (- i)) else show_nat (nat i))"

text \<open>Reading the digits back shows that printing loses nothing.\<close>

definition digits_value :: "string \<Rightarrow> nat" where
  "digits_value s = foldl (\<lambda>acc c. 10 * acc + (of_char c - 48)) 0 s"

lemma of_digit_char: "d < 10 \<Longrightarrow> of_char (digit_char d) - 48 = (d :: nat)"
  by (simp add: digit_char_def)

lemma digits_value_show_nat: "digits_value (show_nat n) = n"
proof (induction n rule: show_nat.induct)
  case (1 n)
  show ?case
  proof (cases "n < 10")
    case True
    then show ?thesis by (simp add: show_nat.simps [of n] digits_value_def of_digit_char)
  next
    case False
    with 1 have "digits_value (show_nat (n div 10)) = n div 10" by simp
    with False show ?thesis
      by (simp add: show_nat.simps [of n] digits_value_def of_digit_char)
  qed
qed

lemma show_nat_nonempty: "show_nat n \<noteq> []"
  by (subst show_nat.simps) simp

lemma digit_char_range: "d < 10 \<Longrightarrow> of_char (digit_char d) \<in> {48..(57::nat)}"
  by (simp add: digit_char_def)

lemma show_nat_digits: "c \<in> set (show_nat n) \<Longrightarrow> of_char c \<in> {48..(57::nat)}"
proof (induction n rule: show_nat.induct)
  case (1 n)
  show ?case
  proof (cases "n < 10")
    case True
    with 1 show ?thesis
      using digit_char_range [of n] by (simp add: show_nat.simps [of n])
  next
    case False
    with 1 show ?thesis
      using digit_char_range [of "n mod 10"] by (auto simp: show_nat.simps [of n])
  qed
qed

lemma show_nat_inject: "show_nat m = show_nat n \<longleftrightarrow> m = n"
  by (metis digits_value_show_nat)

lemma minus_not_digit: "CHR ''-'' \<notin> set (show_nat n)"
  using show_nat_digits [of "CHR ''-''" n] by auto

lemma show_int_inject: "show_int i = show_int j \<longleftrightarrow> i = j"
proof -
  have "CHR ''-'' # s \<noteq> show_nat n" for s n
    using minus_not_digit [of n] by (metis list.set_intros(1))
  then show ?thesis
    by (auto simp: show_int_def show_nat_inject)
       (metis list.set_intros(1) minus_not_digit)+
qed

lemma slash_not_in_show_int: "CHR ''/'' \<notin> set (show_int i)"
  using show_nat_digits [of "CHR ''/''"] by (auto simp: show_int_def)

end
