(* ===== verification/Errors.thy ===== *)
theory Errors
  imports Prelude
begin

text \<open>
  The error enumerations of \<open>clonebox-core/src/error.rs\<close>, one datatype per enum with the
  source's constructors, the \<open>From\<close> conversions into \<open>CoreError\<close>, and the \<open>Display\<close>
  texts that the \<open>#[error(...)]\<close> attributes declare. Several enums share a variant name
  (\<open>Io\<close>, \<open>WriteFailure\<close>, ...), so those constructors are always written qualified.

  A \<open>nix::errno::Errno\<close> is its number; a \<open>std::io::Error\<close> is an OS error number or the
  error that \<open>read_to_string\<close> gives on bytes that are not UTF-8. Their printed texts come from
  the C library, so the functions that print an error take them as arguments.
\<close>

type_synonym errno = int

datatype io_error = Os errno | Invalid_data

definition ENOENT :: errno where "ENOENT = 2"
definition ESRCH :: errno where "ESRCH = 3"
definition EEXIST :: errno where "EEXIST = 17"
definition ENOTDIR :: errno where "ENOTDIR = 20"
definition EISDIR :: errno where "EISDIR = 21"
definition ENXIO :: errno where "ENXIO = 6"
definition ENOTEMPTY :: errno where "ENOTEMPTY = 39"
definition EADDRINUSE :: errno where "EADDRINUSE = 98"
definition ECONNREFUSED :: errno where "ECONNREFUSED = 111"

lemmas errno_defs = ENOENT_def ESRCH_def EEXIST_def ENOTDIR_def EISDIR_def ENXIO_def
  ENOTEMPTY_def EADDRINUSE_def ECONNREFUSED_def

text \<open>\<open>e.kind() == ErrorKind::NotFound\<close>\<close>

definition is_not_found :: "io_error \<Rightarrow> bool" where
  "is_not_found e \<longleftrightarrow> e = Os ENOENT"

datatype json_error = Json_error string

text \<open>An \<open>anyhow::Error\<close> built by \<open>anyhow!\<close> from an \<open>Errno\<close> or from a message.\<close>

datatype anyhow = Any_errno errno | Any_msg string

datatype (plugins only: code) config_error =
    MissingRootPath
  | MissingProcessArgs
  | Io io_error
  | Json json_error

datatype state_error = Io io_error | Json json_error

datatype (plugins only: code) runtime_error =
    Accept4Failure errno
  | BacklogFailure errno
  | BindFailure errno
  | CreateSocketFailure errno
  | ConnectFailure errno
  | ListenFailure errno
  | Pipe2Failure errno
  | ToUnixAddrFailure errno
  | Io io_error
  | Read errno
  | Write errno

datatype (plugins only: code) clone_error =
    NoPidFd
  | NoChildTid
  | NoParentTid
  | NoTls
  | NoCgroup
  | Clone3Failure io_error

datatype (plugins only: code) network_error =
    CreateSocketFailure errno
  | BindFailure errno
  | ReadOutOfRange
  | ReadFailure string
  | SendFailure errno
  | RecvFailure errno
  | NetlinkFailure string
  | OpenFailure io_error
  | WriteFailure io_error
  | CommandFailure io_error

datatype (plugins only: code) cgroup_error =
    CreateCgroupDirFailure io_error string
  | OpenFailure io_error string
  | ReadToStringFailure io_error string string
  | ResourceNotAvailable string string
  | WriteFailure io_error string

datatype namespace_error = FailedToEnterNamespace string

datatype log_error = Io io_error

datatype (plugins only: code) event_error =
    WriteFailure io_error
  | ConnectFailure io_error string
  | Json json_error

datatype (plugins only: code) system_error =
    RuntimeError runtime_error
  | CloneError clone_error
  | NetworkError network_error
  | CgroupError cgroup_error
  | NamespaceError namespace_error
  | LogError log_error
  | EventError event_error
  | Wait errno
  | Io io_error string

datatype (plugins only: code) core_error =
    ContainerAlreadyExists string
  | ContainerAlreadyStopped string
  | ContainerNotFound string
  | ContainerNotCreated string
  | ContainerNotRunning string
  | ContainerNotPaused string
  | ContainerNotStopped string
  | CleanupFailure io_error string
  | ConfigError config_error
  | StateError state_error
  | SystemError system_error
  | Other anyhow

section \<open>Conversions into CoreError\<close>

definition from_runtime :: "runtime_error \<Rightarrow> core_error" where
  "from_runtime e = SystemError (RuntimeError e)"

definition from_clone :: "clone_error \<Rightarrow> core_error" where
  "from_clone e = SystemError (CloneError e)"

definition from_network :: "network_error \<Rightarrow> core_error" where
  "from_network e = SystemError (NetworkError e)"

definition from_cgroup :: "cgroup_error \<Rightarrow> core_error" where
  "from_cgroup e = SystemError (CgroupError e)"

definition from_namespace :: "namespace_error \<Rightarrow> core_error" where
  "from_namespace e = SystemError (NamespaceError e)"

definition from_log :: "log_error \<Rightarrow> core_error" where
  "from_log e = SystemError (LogError e)"

definition from_event :: "event_error \<Rightarrow> core_error" where
  "from_event e = SystemError (EventError e)"

lemmas from_defs = from_runtime_def from_clone_def from_network_def from_cgroup_def
  from_namespace_def from_log_def from_event_def

section \<open>Display\<close>

fun display_config_error :: "config_error \<Rightarrow> string" where
  "display_config_error MissingRootPath = ''config.json: root.path is required''"
| "display_config_error MissingProcessArgs = ''config.json: process.args is required''"
| "display_config_error (config_error.Io _) = ''io error''"
| "display_config_error (config_error.Json _) = ''json error''"

fun display_state_error :: "state_error \<Rightarrow> string" where
  "display_state_error (state_error.Io _) = ''io error''"
| "display_state_error (state_error.Json _) = ''json error''"

fun display_runtime_error :: "runtime_error \<Rightarrow> string" where
  "display_runtime_error (Accept4Failure _) = ''failed to accept''"
| "display_runtime_error (BacklogFailure _) = ''failed to create backlog''"
| "display_runtime_error (runtime_error.BindFailure _) = ''failed to bind''"
| "display_runtime_error (runtime_error.CreateSocketFailure _) = ''failed to create socket''"
| "display_runtime_error (runtime_error.ConnectFailure _) = ''failed to connect''"
| "display_runtime_error (ListenFailure _) = ''failed to listen''"
| "display_runtime_error (Pipe2Failure _) = ''failed to pipe''"
| "display_runtime_error (ToUnixAddrFailure _) = ''failed to create UnixAddr''"
| "display_runtime_error (runtime_error.Io _) = ''io error''"
| "display_runtime_error (Read _) = ''pipe read failed''"
| "display_runtime_error (Write _) = ''pipe write failed''"

fun display_clone_error :: "clone_error \<Rightarrow> string" where
  "display_clone_error NoPidFd = ''CLONE_PIDFD set but no pid_fd provided''"
| "display_clone_error NoChildTid = ''CLONE_CHILD_SETTID set but no child_tid provided''"
| "display_clone_error NoParentTid = ''CLONE_PARENT_SETTID set but no parent_tid provided''"
| "display_clone_error NoTls = ''CLONE_SETTLS set but no tls provided''"
| "display_clone_error NoCgroup = ''CLONE_INTO_CGROUP set but no cgroup fd provided''"
| "display_clone_error (Clone3Failure _) = ''clone3 failed''"

fun display_network_error :: "(io_error \<Rightarrow> string) \<Rightarrow> network_error \<Rightarrow> string" where
  "display_network_error _ (network_error.CreateSocketFailure _) = ''failed to create socket''"
| "display_network_error _ (network_error.BindFailure _) = ''failed to bind''"
| "display_network_error _ ReadOutOfRange = ''read out of range''"
| "display_network_error _ (ReadFailure s) = ''failed to read '' @ s"
| "display_network_error _ (SendFailure _) = ''fail to send bytes''"
| "display_network_error _ (RecvFailure _) = ''failed to receive bytes''"
| "display_network_error _ (NetlinkFailure s) = ''netlink: '' @ s"
| "display_network_error _ (network_error.OpenFailure _) = ''failed to open''"
| "display_network_error _ (network_error.WriteFailure _) = ''failed to write''"
| "display_network_error txt (CommandFailure e) = ''command failed wth '' @ txt e"

fun display_cgroup_error :: "cgroup_error \<Rightarrow> string" where
  "display_cgroup_error (CreateCgroupDirFailure _ s) = ''failed to create '' @ s @ '' cgroup''"
| "display_cgroup_error (cgroup_error.OpenFailure _ s) = ''failed to open '' @ s @ '' cgroup''"
| "display_cgroup_error (ReadToStringFailure _ s r) = ''failed to read '' @ s @ '': '' @ r"
| "display_cgroup_error (ResourceNotAvailable s r) = s @ '': '' @ r @ '' not available on this system''"
| "display_cgroup_error (cgroup_error.WriteFailure _ s) = ''failed to write into '' @ s @ '' cgroup''"

fun display_namespace_error :: "namespace_error \<Rightarrow> string" where
  "display_namespace_error (FailedToEnterNamespace s) = ''failed to enter '' @ s @ '' namespace''"

fun display_log_error :: "log_error \<Rightarrow> string" where
  "display_log_error (log_error.Io _) = ''io error''"

fun display_event_error :: "event_error \<Rightarrow> string" where
  "display_event_error (event_error.WriteFailure _) = ''failed to send status message''"
| "display_event_error (event_error.ConnectFailure _ s) = ''failed to connect to socket '' @ s"
| "display_event_error (event_error.Json _) = ''json error''"

fun display_system_error :: "(io_error \<Rightarrow> string) \<Rightarrow> system_error \<Rightarrow> string" where
  "display_system_error _ (RuntimeError e) = display_runtime_error e"
| "display_system_error _ (CloneError e) = display_clone_error e"
| "display_system_error txt (NetworkError e) = display_network_error txt e"
| "display_system_error _ (CgroupError e) = display_cgroup_error e"
| "display_system_error _ (NamespaceError e) = display_namespace_error e"
| "display_system_error _ (LogError e) = display_log_error e"
| "display_system_error _ (EventError e) = display_event_error e"
| "display_system_error _ (Wait _) = ''waitpid failed''"
| "display_system_error _ (system_error.Io _ s) = ''io error: '' @ s"

fun display_anyhow :: "(errno \<Rightarrow> string) \<Rightarrow> anyhow \<Rightarrow> string" where
  "display_anyhow etxt (Any_errno e) = etxt e"
| "display_anyhow _ (Any_msg s) = s"

fun display_core_error :: "(io_error \<Rightarrow> string) \<Rightarrow> (errno \<Rightarrow> string) \<Rightarrow> core_error \<Rightarrow> string" where
  "display_core_error _ _ (ContainerAlreadyExists s) = s @ '' already exists''"
| "display_core_error _ _ (ContainerAlreadyStopped s) = s @ '' already stopped''"
| "display_core_error _ _ (ContainerNotFound s) = s @ '' doesn't exists''"
| "display_core_error _ _ (ContainerNotCreated s) = s @ '' not created or already running''"
| "display_core_error _ _ (ContainerNotRunning s) = s @ '' not running''"
| "display_core_error _ _ (ContainerNotPaused s) = s @ '' not paused''"
| "display_core_error _ _ (ContainerNotStopped s) = s @ '' not stopped''"
| "display_core_error txt _ (CleanupFailure e _) = ''failed to clean '' @ txt e"
| "display_core_error _ _ (ConfigError e) = display_config_error e"
| "display_core_error _ _ (StateError e) = display_state_error e"
| "display_core_error txt _ (SystemError e) = display_system_error txt e"
| "display_core_error _ etxt (Other e) = display_anyhow etxt e"

end
