(* ===== verification/Os.thy ===== *)
theory Os
  imports Errors
begin

text \<open>
  The machine under the program: what \<open>std::fs\<close>, \<open>std::net\<close>, \<open>nix\<close> and \<open>libc\<close> do for
  clonebox.

  The world holds the regular files (an association list from normalised paths to nodes) and the
  history of the system calls made so far, each with whether the kernel made it fail. What the kernel decides
  is a parameter, the record \<open>kernel\<close>: which call fails and with which error, the pids,
  descriptors, wait statuses and received datagrams, the contents of \<open>/proc\<close> and
  \<open>/sys\<close>, and how other processes changed the files while a call was blocked. Every answer
  may depend on the whole world, so on every call made before it: a theorem for all kernels
  covers every pattern of failures.

  Operations of \<open>std::fs\<close> on regular files have their usual meaning when the kernel does not
  make them fail; on the pseudo file systems \<open>/proc\<close> and \<open>/sys\<close> only the kernel decides.
\<close>

section \<open>Paths\<close>

fun split_on :: "char \<Rightarrow> string \<Rightarrow> string list" where
  "split_on c [] = [[]]"
| "split_on c (x # xs) =
     (if x = c then [] # split_on c xs
      else (case split_on c xs of [] \<Rightarrow> [[x]] | y # ys \<Rightarrow> (x # y) # ys))"

text \<open>Resolution of \<open>.\<close>, \<open>..\<close> and repeated slashes; the accumulator is reversed.\<close>

fun resolve :: "string list \<Rightarrow> string list \<Rightarrow> string list" where
  "resolve acc [] = rev acc"
| "resolve acc (c # cs) =
     (if c = '''' \<or> c = ''.'' then resolve acc cs
      else if c = ''..'' then resolve (tl acc) cs
      else resolve (c # acc) cs)"

definition norm_path :: "string list \<Rightarrow> string \<Rightarrow> string list" where
  "norm_path cwd p =
     (case p of
        [] \<Rightarrow> cwd
      | c # _ \<Rightarrow> resolve (if c = CHR ''/'' then [] else rev cwd) (split_on (CHR ''/'') p))"

lemma split_on_no_sep: "c \<notin> set s \<Longrightarrow> split_on c s = [s]"
  by (induction s) auto

lemma split_on_append: "c \<notin> set s \<Longrightarrow> split_on c (s @ c # t) = s # split_on c t"
  by (induction s) auto

text \<open>A container id that names one directory entry.\<close>

definition plain_id :: "string \<Rightarrow> bool" where
  "plain_id s \<longleftrightarrow> s \<noteq> '''' \<and> s \<noteq> ''.'' \<and> s \<noteq> ''..'' \<and> CHR ''/'' \<notin> set s"

lemma resolve_plain: "plain_id s \<Longrightarrow> resolve acc (s # cs) = resolve (s # acc) cs"
  by (simp add: plain_id_def)

section \<open>The world\<close>

datatype node = Dir | File string | Sock

datatype wait_status =
    WExited i32 i32
  | WSignaled i32 i32 bool
  | WStopped i32 i32
  | WPtraceEvent i32 i32 i32
  | WPtraceSyscall i32
  | WContinued i32
  | WStillAlive

datatype (plugins only: code) sysop =
    Op_exists string
  | Op_read string
  | Op_create string
  | Op_write string string
  | Op_mkdir_all string
  | Op_chmod string nat
  | Op_open string
  | Op_open_append string
  | Op_append string string
  | Op_rmdir string
  | Op_rmtree string
  | Op_rmfile string
  | Op_read_dir string
  | Op_stream_connect string
  | Op_stream_write string string
  | Op_clone3 "64 word list"
  | Op_pipe2
  | Op_pipe_read
  | Op_pipe_write
  | Op_socket_unix
  | Op_unix_addr string
  | Op_backlog i32
  | Op_bind string
  | Op_listen
  | Op_accept
  | Op_connect string
  | Op_waitpid i32
  | Op_kill i32 i32
  | Op_getpid
  | Op_fork
  | Op_setns string string
  | Op_mount "string option" string "string option" "64 word" "string option"
  | Op_sethostname string
  | Op_pivot_root string string
  | Op_chdir string
  | Op_umount2 string i32
  | Op_execve string "string list" "string list"
  | Op_stderr string
  | Op_socket_netlink
  | Op_bind_netlink
  | Op_nl_send "8 word list"
  | Op_nl_recv
  | Op_command string "string list"

type_synonym files = "(string list \<times> node) list"

record world =
  files :: files
  hist :: "(sysop \<times> bool) list"

record kernel =
  k_cwd :: "string list"
  k_io :: "sysop \<Rightarrow> world \<Rightarrow> io_error option"
  k_errno :: "sysop \<Rightarrow> world \<Rightarrow> errno option"
  k_pseudo_read :: "string list \<Rightarrow> world \<Rightarrow> string"
  k_pseudo_exists :: "string list \<Rightarrow> world \<Rightarrow> bool"
  k_int :: "sysop \<Rightarrow> world \<Rightarrow> i32"
  k_wait :: "i32 \<Rightarrow> world \<Rightarrow> wait_status"
  k_recv :: "world \<Rightarrow> 8 word list"
  k_others :: "sysop \<Rightarrow> world \<Rightarrow> files"
  k_io_text :: "io_error \<Rightarrow> string"
  k_errno_text :: "errno \<Rightarrow> string"
  k_debug_wait :: "wait_status \<Rightarrow> string"
  k_order :: "string list \<Rightarrow> world \<Rightarrow> string list"

type_synonym 'a io = "(world, io_error, 'a) comp"
type_synonym 'a nix = "(world, errno, 'a) comp"
type_synonym 'a core = "(world, core_error, 'a) comp"

definition node_at :: "world \<Rightarrow> string list \<Rightarrow> node option" where
  "node_at w p = map_of (files w) p"

definition put_node :: "string list \<Rightarrow> node \<Rightarrow> world \<Rightarrow> world" where
  "put_node p n w = w\<lparr>files := AList.update p n (files w)\<rparr>"

definition remove_tree :: "string list \<Rightarrow> world \<Rightarrow> world" where
  "remove_tree p w = w\<lparr>files := filter (\<lambda>(q, _). \<not> prefix p q) (files w)\<rparr>"

definition log_op :: "sysop \<Rightarrow> bool \<Rightarrow> world \<Rightarrow> world" where
  "log_op op ok w = w\<lparr>hist := hist w @ [(op, ok)]\<rparr>"

definition is_dir :: "world \<Rightarrow> string list \<Rightarrow> bool" where
  "is_dir w p \<longleftrightarrow> p = [] \<or> node_at w p = Some Dir"

definition is_pseudo :: "string list \<Rightarrow> bool" where
  "is_pseudo p \<longleftrightarrow> (case p of [] \<Rightarrow> False | c # _ \<Rightarrow> c = ''proc'' \<or> c = ''sys'')"

lemma node_at_put [simp]: "node_at (put_node p n w) q = (if q = p then Some n else node_at w q)"
  by (simp add: node_at_def put_node_def update_conv')

lemma map_of_filter_key: "map_of (filter (\<lambda>(k, _). P k) xs) q = (if P q then map_of xs q else None)"
  by (induction xs) auto

lemma node_at_remove_tree [simp]:
  "node_at (remove_tree p w) q = (if prefix p q then None else node_at w q)"
  by (simp add: node_at_def remove_tree_def map_of_filter_key)

lemma node_at_log [simp]: "node_at (log_op op ok w) = node_at w"
  by (simp add: node_at_def log_op_def fun_eq_iff)

lemma is_dir_log [simp]: "is_dir (log_op op ok w) = is_dir w"
  by (simp add: is_dir_def fun_eq_iff)

lemma files_log [simp]: "files (log_op op ok w) = files w"
  by (simp add: log_op_def)

lemma hist_log [simp]: "hist (log_op op ok w) = hist w @ [(op, ok)]"
  by (simp add: log_op_def)

lemma hist_put [simp]: "hist (put_node p n w) = hist w"
  by (simp add: put_node_def)

lemma hist_remove_tree [simp]: "hist (remove_tree p w) = hist w"
  by (simp add: remove_tree_def)

section \<open>System calls\<close>

text \<open>A call whose only effect in the model is its place in the history.\<close>

definition io_call :: "('k) kernel_scheme \<Rightarrow> sysop \<Rightarrow> unit io" where
  "io_call K op w =
     (case k_io K op w of
        Some e \<Rightarrow> (Inl (Fail e), log_op op False w)
      | None \<Rightarrow> (Inr (), log_op op True w))"

definition nix_call :: "('k) kernel_scheme \<Rightarrow> sysop \<Rightarrow> unit nix" where
  "nix_call K op w =
     (case k_errno K op w of
        Some e \<Rightarrow> (Inl (Fail e), log_op op False w)
      | None \<Rightarrow> (Inr (), log_op op True w))"

text \<open>A call that returns a number: a pid or a descriptor.\<close>

definition nix_int :: "('k) kernel_scheme \<Rightarrow> sysop \<Rightarrow> i32 nix" where
  "nix_int K op w = bindE (nix_call K op) (\<lambda>_. ret (k_int K op w)) w"

text \<open>A call that may block: when it returns, other processes have left the files as the kernel says.\<close>

definition nix_blocking :: "('k) kernel_scheme \<Rightarrow> sysop \<Rightarrow> unit nix" where
  "nix_blocking K op w = nix_call K op (w\<lparr>files := k_others K op w\<rparr>)"

definition nix_waitpid :: "('k) kernel_scheme \<Rightarrow> i32 \<Rightarrow> wait_status nix" where
  "nix_waitpid K p w = bindE (nix_blocking K (Op_waitpid p)) (\<lambda>_. ret (k_wait K p w)) w"

section \<open>std::fs\<close>

definition fs_exists :: "('k) kernel_scheme \<Rightarrow> string \<Rightarrow> world \<Rightarrow> (bool \<times> world)" where
  "fs_exists K p w =
     (let q = norm_path (k_cwd K) p in
      (k_io K (Op_exists p) w = None \<and>
         (if is_pseudo q then k_pseudo_exists K q w else q = [] \<or> node_at w q \<noteq> None),
       log_op (Op_exists p) (k_io K (Op_exists p) w = None) w))"

definition fs_read_to_string :: "('k) kernel_scheme \<Rightarrow> string \<Rightarrow> string io" where
  "fs_read_to_string K p w =
     (let q = norm_path (k_cwd K) p in
      bindE (io_call K (Op_read p))
        (\<lambda>_. if is_pseudo q then ret (k_pseudo_read K q w)
             else (case node_at w q of
                     Some (File s) \<Rightarrow> ret s
                   | Some Dir \<Rightarrow> throw (Os EISDIR)
                   | Some Sock \<Rightarrow> throw (Os ENXIO)
                   | None \<Rightarrow> throw (Os ENOENT))) w)"

text \<open>
  \<open>fs::write\<close> is two calls: \<open>File::create\<close>, which truncates the file, and \<open>write_all\<close>, which
  writes from the start. Another process can see the file in between. When the second call
  fails, a prefix of the new contents is left; a file removed meanwhile stays removed.
\<close>

definition overwrite :: "string \<Rightarrow> string \<Rightarrow> string" where
  "overwrite s t = s @ drop (length s) t"

definition fs_create :: "('k) kernel_scheme \<Rightarrow> string \<Rightarrow> unit io" where
  "fs_create K p w =
     (let q = norm_path (k_cwd K) p in
      bindE (io_call K (Op_create p))
        (\<lambda>_ w'. if is_pseudo q then (Inr (), w')
             else if \<not> is_dir w (butlast q) then (Inl (Fail (Os ENOENT)), w')
             else (case if q = [] then Some Dir else node_at w q of
                     Some Dir \<Rightarrow> (Inl (Fail (Os EISDIR)), w')
                   | Some Sock \<Rightarrow> (Inl (Fail (Os ENXIO)), w')
                   | _ \<Rightarrow> (Inr (), put_node q (File []) w'))) w)"

definition put_text :: "string list \<Rightarrow> string \<Rightarrow> world \<Rightarrow> world" where
  "put_text q s w =
     (if is_pseudo q then w
      else (case node_at w q of Some (File t) \<Rightarrow> put_node q (File (overwrite s t)) w | _ \<Rightarrow> w))"

definition fs_write_all :: "('k) kernel_scheme \<Rightarrow> string \<Rightarrow> string \<Rightarrow> unit io" where
  "fs_write_all K p s w =
     (let q = norm_path (k_cwd K) p in
      (case io_call K (Op_write p s) w of
         (Inr u, w') \<Rightarrow> (Inr u, put_text q s w')
       | (Inl e, w') \<Rightarrow> (Inl e, put_text q (take (unat (k_int K (Op_write p s) w)) s) w')))"

definition fs_write :: "('k) kernel_scheme \<Rightarrow> string \<Rightarrow> string \<Rightarrow> unit io" where
  "fs_write K p s = thenE (fs_create K p) (fs_write_all K p s)"

definition fs_create_dir_all :: "('k) kernel_scheme \<Rightarrow> string \<Rightarrow> unit io" where
  "fs_create_dir_all K p w =
     (let q = norm_path (k_cwd K) p in
      bindE (io_call K (Op_mkdir_all p))
        (\<lambda>_ w'. if is_pseudo q then (Inr (), w')
             else if \<exists>d \<in> set (prefixes (butlast q)). d \<noteq> [] \<and> node_at w d \<noteq> None \<and> node_at w d \<noteq> Some Dir
             then (Inl (Fail (Os ENOTDIR)), w')
             else if q \<noteq> [] \<and> node_at w q \<noteq> None \<and> node_at w q \<noteq> Some Dir
             then (Inl (Fail (Os EEXIST)), w')
             else (Inr (), fold (\<lambda>d. put_node d Dir) (filter (\<lambda>d. d \<noteq> []) (prefixes q)) w')) w)"

definition fs_set_permissions :: "('k) kernel_scheme \<Rightarrow> string \<Rightarrow> nat \<Rightarrow> unit io" where
  "fs_set_permissions K p mode w =
     (let q = norm_path (k_cwd K) p in
      bindE (io_call K (Op_chmod p mode))
        (\<lambda>_. if is_pseudo q \<or> q = [] \<or> node_at w q \<noteq> None then ret () else throw (Os ENOENT)) w)"

text \<open>\<open>File::open\<close>; the descriptor is the kernel's.\<close>

definition fs_open :: "('k) kernel_scheme \<Rightarrow> string \<Rightarrow> i32 io" where
  "fs_open K p w =
     (let q = norm_path (k_cwd K) p in
      bindE (io_call K (Op_open p))
        (\<lambda>_. if is_pseudo q \<or> q = [] then ret (k_int K (Op_open p) w)
             else (case node_at w q of
                     None \<Rightarrow> throw (Os ENOENT)
                   | Some Sock \<Rightarrow> throw (Os ENXIO)
                   | _ \<Rightarrow> ret (k_int K (Op_open p) w))) w)"

text \<open>
  \<open>OpenOptions::new().create(true).append(true).open(path)\<close>; the handle is the path, and
  appending to a file that was removed meanwhile changes no visible file.
\<close>

definition fs_open_append :: "('k) kernel_scheme \<Rightarrow> string \<Rightarrow> string io" where
  "fs_open_append K p w =
     (let q = norm_path (k_cwd K) p in
      bindE (io_call K (Op_open_append p))
        (\<lambda>_ w'. if is_pseudo q then (Inr p, w')
             else if \<not> is_dir w (butlast q) then (Inl (Fail (Os ENOENT)), w')
             else (case if q = [] then Some Dir else node_at w q of
                     Some Dir \<Rightarrow> (Inl (Fail (Os EISDIR)), w')
                   | Some Sock \<Rightarrow> (Inl (Fail (Os ENXIO)), w')
                   | Some (File _) \<Rightarrow> (Inr p, w')
                   | None \<Rightarrow> (Inr p, put_node q (File []) w'))) w)"

definition fs_append :: "('k) kernel_scheme \<Rightarrow> string \<Rightarrow> string \<Rightarrow> unit io" where
  "fs_append K p s w =
     (let q = norm_path (k_cwd K) p in
      bindE (io_call K (Op_append p s))
        (\<lambda>_ w'. (Inr (), case node_at w q of Some (File t) \<Rightarrow> put_node q (File (t @ s)) w' | _ \<Rightarrow> w')) w)"

definition fs_remove_dir :: "('k) kernel_scheme \<Rightarrow> string \<Rightarrow> unit io" where
  "fs_remove_dir K p w =
     (let q = norm_path (k_cwd K) p in
      bindE (io_call K (Op_rmdir p))
        (\<lambda>_ w'. if is_pseudo q then (Inr (), w')
             else (case node_at w q of
                     None \<Rightarrow> (Inl (Fail (Os ENOENT)), w')
                   | Some Dir \<Rightarrow>
                       if \<exists>f \<in> set (files w). strict_prefix q (fst f)
                       then (Inl (Fail (Os ENOTEMPTY)), w') else (Inr (), remove_tree q w')
                   | _ \<Rightarrow> (Inl (Fail (Os ENOTDIR)), w'))) w)"

definition fs_remove_dir_all :: "('k) kernel_scheme \<Rightarrow> string \<Rightarrow> unit io" where
  "fs_remove_dir_all K p w =
     (let q = norm_path (k_cwd K) p in
      bindE (io_call K (Op_rmtree p))
        (\<lambda>_ w'. if is_pseudo q then (Inr (), w')
             else (case node_at w q of
                     None \<Rightarrow> (Inl (Fail (Os ENOENT)), w')
                   | Some Dir \<Rightarrow> (Inr (), remove_tree q w')
                   | _ \<Rightarrow> (Inl (Fail (Os ENOTDIR)), w'))) w)"

definition fs_remove_file :: "('k) kernel_scheme \<Rightarrow> string \<Rightarrow> unit io" where
  "fs_remove_file K p w =
     (let q = norm_path (k_cwd K) p in
      bindE (io_call K (Op_rmfile p))
        (\<lambda>_ w'. if is_pseudo q then (Inr (), w')
             else (case node_at w q of
                     None \<Rightarrow> (Inl (Fail (Os ENOENT)), w')
                   | Some Dir \<Rightarrow> (Inl (Fail (Os EISDIR)), w')
                   | _ \<Rightarrow> (Inr (), remove_tree q w'))) w)"

section \<open>Unix sockets in the file system\<close>

text \<open>The history says of these two calls whether they succeeded, so it shows who has connected.\<close>

definition bind_errno :: "('k) kernel_scheme \<Rightarrow> string \<Rightarrow> world \<Rightarrow> errno option" where
  "bind_errno K p w =
     (let q = norm_path (k_cwd K) p in
      (case k_errno K (Op_bind p) w of
         Some e \<Rightarrow> Some e
       | None \<Rightarrow>
           if is_pseudo q \<or> \<not> is_dir w (butlast q) then Some ENOENT
           else if q = [] \<or> node_at w q \<noteq> None then Some EADDRINUSE else None))"

definition nix_bind :: "('k) kernel_scheme \<Rightarrow> string \<Rightarrow> unit nix" where
  "nix_bind K p w =
     (case bind_errno K p w of
        Some e \<Rightarrow> (Inl (Fail e), log_op (Op_bind p) False w)
      | None \<Rightarrow> (Inr (), put_node (norm_path (k_cwd K) p) Sock (log_op (Op_bind p) True w)))"

definition connect_errno :: "('k) kernel_scheme \<Rightarrow> string \<Rightarrow> world \<Rightarrow> errno option" where
  "connect_errno K p w =
     (let q = norm_path (k_cwd K) p in
      (case k_errno K (Op_connect p) w of
         Some e \<Rightarrow> Some e
       | None \<Rightarrow>
           if is_pseudo q then Some ECONNREFUSED
           else (case node_at w q of Some Sock \<Rightarrow> None | None \<Rightarrow> Some ENOENT | _ \<Rightarrow> Some ECONNREFUSED)))"

definition nix_connect :: "('k) kernel_scheme \<Rightarrow> string \<Rightarrow> unit nix" where
  "nix_connect K p w =
     (case connect_errno K p w of
        Some e \<Rightarrow> (Inl (Fail e), log_op (Op_connect p) False w)
      | None \<Rightarrow> (Inr (), log_op (Op_connect p) True w))"

section \<open>How the calls run\<close>

lemma io_call_run [comp_simps]:
  "k_io K op w = None \<Longrightarrow> io_call K op w = (Inr (), log_op op True w)"
  "k_io K op w = Some e \<Longrightarrow> io_call K op w = (Inl (Fail e), log_op op False w)"
  by (simp_all add: io_call_def)

lemma nix_call_run [comp_simps]:
  "k_errno K op w = None \<Longrightarrow> nix_call K op w = (Inr (), log_op op True w)"
  "k_errno K op w = Some e \<Longrightarrow> nix_call K op w = (Inl (Fail e), log_op op False w)"
  by (simp_all add: nix_call_def)

lemma io_call_ok: "io_call K op w = (Inr u, w') \<longleftrightarrow> k_io K op w = None \<and> w' = log_op op True w"
  by (auto simp: io_call_def split: option.splits)

lemma io_call_stop:
  "io_call K op w = (Inl s, w') \<longleftrightarrow> (\<exists>e. k_io K op w = Some e \<and> s = Fail e) \<and> w' = log_op op False w"
  by (auto simp: io_call_def split: option.splits)

lemma nix_call_ok: "nix_call K op w = (Inr u, w') \<longleftrightarrow> k_errno K op w = None \<and> w' = log_op op True w"
  by (auto simp: nix_call_def split: option.splits)

lemma nix_call_stop:
  "nix_call K op w = (Inl s, w') \<longleftrightarrow> (\<exists>e. k_errno K op w = Some e \<and> s = Fail e) \<and> w' = log_op op False w"
  by (auto simp: nix_call_def split: option.splits)

lemma nix_int_run [comp_simps]:
  "k_errno K op w = None \<Longrightarrow> nix_int K op w = (Inr (k_int K op w), log_op op True w)"
  "k_errno K op w = Some e \<Longrightarrow> nix_int K op w = (Inl (Fail e), log_op op False w)"
  by (simp_all add: nix_int_def comp_simps)

lemma nix_blocking_run [comp_simps]:
  "k_errno K op (w\<lparr>files := k_others K op w\<rparr>) = None \<Longrightarrow>
     nix_blocking K op w = (Inr (), log_op op True (w\<lparr>files := k_others K op w\<rparr>))"
  "k_errno K op (w\<lparr>files := k_others K op w\<rparr>) = Some e \<Longrightarrow>
     nix_blocking K op w = (Inl (Fail e), log_op op False (w\<lparr>files := k_others K op w\<rparr>))"
  by (simp_all add: nix_blocking_def comp_simps)

lemmas call_ok = io_call_ok nix_call_ok comp_ok

lemma fs_read_to_string_ok:
  "fs_read_to_string K p w = (Inr s, w') \<Longrightarrow> \<not> is_pseudo (norm_path (k_cwd K) p) \<Longrightarrow>
   node_at w (norm_path (k_cwd K) p) = Some (File s) \<and> w' = log_op (Op_read p) True w"
  by (auto simp: fs_read_to_string_def Let_def bindE_ok io_call_ok comp_simps
      split: option.splits node.splits if_splits)

lemma update_twice: "AList.update k v (AList.update k v' al) = AList.update k v al"
  by (induction al) auto

lemma put_node_twice [simp]: "put_node q n (log_op op ok (put_node q n' w)) = put_node q n (log_op op ok w)"
  by (simp add: put_node_def log_op_def update_twice)

lemma overwrite_empty [simp]: "overwrite s [] = s" "overwrite [] s = s"
  by (simp_all add: overwrite_def)

lemma fs_create_ok:
  "fs_create K p w = (Inr u, w') \<Longrightarrow> \<not> is_pseudo (norm_path (k_cwd K) p) \<Longrightarrow>
   is_dir w (butlast (norm_path (k_cwd K) p)) \<and>
   w' = put_node (norm_path (k_cwd K) p) (File []) (log_op (Op_create p) True w)"
  by (auto simp: fs_create_def Let_def bindE_ok io_call_ok split: option.splits node.splits if_splits)

lemma fs_create_run:
  assumes "q = norm_path (k_cwd K) p" "\<not> is_pseudo q" "q \<noteq> []" "is_dir w (butlast q)"
    and "node_at w q \<noteq> Some Dir" "node_at w q \<noteq> Some Sock" "k_io K (Op_create p) w = None"
  shows "fs_create K p w = (Inr (), put_node q (File []) (log_op (Op_create p) True w))"
  using assms by (auto simp: fs_create_def Let_def comp_simps split: option.splits node.splits)

lemma fs_write_all_run:
  assumes "q = norm_path (k_cwd K) p" "k_io K (Op_write p s) w = None"
  shows "fs_write_all K p s w = (Inr (), put_text q s (log_op (Op_write p s) True w))"
  using assms by (simp add: fs_write_all_def Let_def comp_simps)

lemma fs_write_all_ok:
  "fs_write_all K p s w = (Inr u, w') \<longleftrightarrow>
     k_io K (Op_write p s) w = None \<and> w' = put_text (norm_path (k_cwd K) p) s (log_op (Op_write p s) True w)"
  by (auto simp: fs_write_all_def Let_def io_call_def split: option.splits)

lemma put_text_file:
  "\<not> is_pseudo q \<Longrightarrow> node_at w q = Some (File t) \<Longrightarrow> put_text q s w = put_node q (File (overwrite s t)) w"
  by (simp add: put_text_def)

lemma put_text_pseudo [simp]: "is_pseudo q \<Longrightarrow> put_text q s w = w"
  by (simp add: put_text_def)

lemma node_at_put_text: "q' \<noteq> q \<or> is_pseudo q \<Longrightarrow> node_at (put_text q s w) q' = node_at w q'"
  by (auto simp: put_text_def split: option.splits node.splits)

lemma hist_put_text [simp]: "hist (put_text q s w) = hist w"
  by (simp add: put_text_def split: option.splits node.splits)

lemma fs_write_ok:
  "fs_write K p s w = (Inr u, w') \<Longrightarrow> \<not> is_pseudo (norm_path (k_cwd K) p) \<Longrightarrow>
   is_dir w (butlast (norm_path (k_cwd K) p)) \<and>
   w' = put_node (norm_path (k_cwd K) p) (File s) (log_op (Op_write p s) True (log_op (Op_create p) True w))"
  by (auto simp: fs_write_def thenE_ok fs_write_all_ok put_text_file dest!: fs_create_ok)

lemma fs_write_run:
  assumes "q = norm_path (k_cwd K) p" "\<not> is_pseudo q" "q \<noteq> []" "is_dir w (butlast q)"
    and "node_at w q \<noteq> Some Dir" "node_at w q \<noteq> Some Sock"
    and "k_io K (Op_create p) w = None"
    and "k_io K (Op_write p s) (put_node q (File []) (log_op (Op_create p) True w)) = None"
  shows "fs_write K p s w =
    (Inr (), put_node q (File s) (log_op (Op_write p s) True (log_op (Op_create p) True w)))"
  using fs_create_run [OF assms(1-7)] fs_write_all_run [OF assms(1,8)] assms(2)
  by (simp add: fs_write_def thenE_def bindE_def put_text_file)

lemma fs_write_pseudo:
  assumes "is_pseudo (norm_path (k_cwd K) p)" "k_io K (Op_create p) w = None"
    "k_io K (Op_write p s) (log_op (Op_create p) True w) = None"
  shows "fs_write K p s w = (Inr (), log_op (Op_write p s) True (log_op (Op_create p) True w))"
  using assms by (simp add: fs_write_def fs_create_def fs_write_all_def Let_def thenE_def bindE_def comp_simps)

lemma fs_read_run:
  assumes "\<not> is_pseudo (norm_path (k_cwd K) p)" "node_at w (norm_path (k_cwd K) p) = Some (File s)"
    and "k_io K (Op_read p) w = None"
  shows "fs_read_to_string K p w = (Inr s, log_op (Op_read p) True w)"
  using assms by (simp add: fs_read_to_string_def Let_def comp_simps)

section \<open>Framing\<close>

text \<open>
  \<open>keeps S m\<close>: whatever happens, \<open>m\<close> leaves every node at a path in \<open>S\<close> as it was.
  The rules follow the shape of a computation, so \<open>intro frames\<close> proves such a fact for a
  whole operation from its calls.
\<close>

definition keeps :: "string list set \<Rightarrow> (world, 'e, 'a) comp \<Rightarrow> bool" where
  "keeps S m \<longleftrightarrow> (\<forall>w. \<forall>p \<in> S. node_at (snd (m w)) p = node_at w p)"

lemma keepsI: "(\<And>w p. p \<in> S \<Longrightarrow> node_at (snd (m w)) p = node_at w p) \<Longrightarrow> keeps S m"
  by (simp add: keeps_def)

lemma keepsD: "keeps S m \<Longrightarrow> m w = (r, w') \<Longrightarrow> p \<in> S \<Longrightarrow> node_at w' p = node_at w p"
  by (metis keeps_def snd_conv)

lemma keeps_pure [frames]: "keeps S (ret x)" "keeps S (stop_with e)" "keeps S (throw e')"
  "keeps S (lift_result r)"
  by (auto simp: keeps_def comp_simps lift_result_def split: sum.splits)

lemma keeps_bind [frames]: "keeps S m \<Longrightarrow> (\<And>x. keeps S (f x)) \<Longrightarrow> keeps S (bindE m f)"
  unfolding keeps_def bindE_def by (auto split: prod.splits sum.splits) (metis snd_conv)+

lemma keeps_then [frames]: "keeps S m \<Longrightarrow> keeps S m' \<Longrightarrow> keeps S (thenE m m')"
  unfolding thenE_def by (rule keeps_bind)

lemma keeps_map_err [frames]: "keeps S m \<Longrightarrow> keeps S (map_err f m)"
  unfolding keeps_def map_err_def by (auto split: prod.splits sum.splits) (metis snd_conv)+

lemma keeps_attempt [frames]: "keeps S m \<Longrightarrow> keeps S (attempt m)"
  unfolding keeps_def attempt_def by (auto split: prod.splits sum.splits stop.splits) (metis snd_conv)+

lemma keeps_for_each [frames]: "(\<And>x. keeps S (f x)) \<Longrightarrow> keeps S (for_each xs f)"
  by (induction xs) (auto intro: frames)

lemma keeps_if [frames]: "(b \<Longrightarrow> keeps S m) \<Longrightarrow> (\<not> b \<Longrightarrow> keeps S m') \<Longrightarrow> keeps S (if b then m else m')"
  by simp

lemma keeps_case_sum [frames]:
  "(\<And>e. r = Inl e \<Longrightarrow> keeps S (f e)) \<Longrightarrow> (\<And>x. r = Inr x \<Longrightarrow> keeps S (g x)) \<Longrightarrow>
   keeps S (case r of Inl e \<Rightarrow> f e | Inr x \<Rightarrow> g x)"
  by (auto split: sum.splits)

lemma keeps_case_option [frames]:
  "(r = None \<Longrightarrow> keeps S f) \<Longrightarrow> (\<And>x. r = Some x \<Longrightarrow> keeps S (g x)) \<Longrightarrow>
   keeps S (case r of None \<Rightarrow> f | Some x \<Rightarrow> g x)"
  by (auto split: option.splits)

lemma keeps_calls [frames]: "keeps S (io_call K op)" "keeps S (nix_call K op')" "keeps S (nix_int K op'')"
  by (auto simp: keeps_def io_call_def nix_call_def nix_int_def bindE_def comp_simps split: option.splits)

lemma keeps_reads [frames]: "keeps S (fs_read_to_string K p)" "keeps S (fs_set_permissions K p mode)"
  "keeps S (fs_open K p)"
  unfolding keeps_def fs_read_to_string_def fs_set_permissions_def fs_open_def
  by (auto simp: Let_def bindE_def io_call_def comp_simps split: option.splits node.splits)

lemma keeps_write [frames]:
  assumes "norm_path (k_cwd K) p \<notin> S \<or> is_pseudo (norm_path (k_cwd K) p)"
  shows "keeps S (fs_create K p)" "keeps S (fs_write_all K p s)" "keeps S (fs_write K p s)"
proof -
  show 1: "keeps S (fs_create K p)"
    using assms by (auto simp: keeps_def fs_create_def Let_def bindE_def io_call_def split: option.splits node.splits)
  show 2: "keeps S (fs_write_all K p s)"
  proof (rule keepsI)
    fix w q
    assume "q \<in> S"
    with assms have "q \<noteq> norm_path (k_cwd K) p \<or> is_pseudo (norm_path (k_cwd K) p)" by auto
    then show "node_at (snd (fs_write_all K p s w)) q = node_at w q"
      by (auto simp: fs_write_all_def Let_def io_call_def node_at_put_text split: option.splits)
  qed
  show "keeps S (fs_write K p s)"
    unfolding fs_write_def by (rule keeps_then [OF 1 2])
qed

lemma keeps_append [frames]:
  "norm_path (k_cwd K) p \<notin> S \<Longrightarrow> keeps S (fs_append K p s)"
  by (auto simp: keeps_def fs_append_def Let_def bindE_def io_call_def split: option.splits node.splits)

lemma keeps_open_append [frames]:
  "norm_path (k_cwd K) p \<notin> S \<Longrightarrow> keeps S (fs_open_append K p)"
  by (auto simp: keeps_def fs_open_append_def Let_def bindE_def io_call_def split: option.splits node.splits)

lemma keeps_removes [frames]:
  assumes "is_pseudo (norm_path (k_cwd K) p) \<or> (\<forall>q \<in> S. \<not> prefix (norm_path (k_cwd K) p) q)"
  shows "keeps S (fs_remove_dir K p)" "keeps S (fs_remove_dir_all K p)" "keeps S (fs_remove_file K p)"
  using assms
  by (auto simp: keeps_def fs_remove_dir_def fs_remove_dir_all_def fs_remove_file_def Let_def bindE_def
      io_call_def split: option.splits node.splits)

lemma node_at_fold_put:
  "node_at (fold (\<lambda>d. put_node d Dir) ds w) q = (if q \<in> set ds then Some Dir else node_at w q)"
  by (induction ds arbitrary: w) auto

lemma keeps_create_dir_all [frames]:
  assumes "is_pseudo (norm_path (k_cwd K) p) \<or> (\<forall>q \<in> S. \<not> prefix q (norm_path (k_cwd K) p))"
  shows "keeps S (fs_create_dir_all K p)"
  using assms
  by (auto simp: keeps_def fs_create_dir_all_def Let_def bindE_def io_call_def node_at_fold_put
      split: option.splits node.splits)

lemma keeps_bind_socket [frames]: "norm_path (k_cwd K) p \<notin> S \<Longrightarrow> keeps S (nix_bind K p)"
  by (auto simp: keeps_def nix_bind_def split: option.splits)

lemma keeps_connect [frames]: "keeps S (nix_connect K p)"
  by (auto simp: keeps_def nix_connect_def split: option.splits)

section \<open>History\<close>

text \<open>\<open>emits A m\<close>: \<open>m\<close> only appends to the history, and only calls that satisfy \<open>A\<close>.\<close>

definition emits :: "(sysop \<Rightarrow> bool) \<Rightarrow> (world, 'e, 'a) comp \<Rightarrow> bool" where
  "emits A m \<longleftrightarrow> (\<forall>w. \<exists>h. hist (snd (m w)) = hist w @ h \<and> (\<forall>e \<in> set h. A (fst e)))"

lemma emitsD: "emits A m \<Longrightarrow> m w = (r, w') \<Longrightarrow> \<exists>h. hist w' = hist w @ h \<and> (\<forall>e \<in> set h. A (fst e))"
  by (metis emits_def snd_conv)

lemma emits_pure [frames]: "emits A (ret x)" "emits A (stop_with e)" "emits A (throw e')"
  "emits A (lift_result r)"
  by (auto simp: emits_def comp_simps lift_result_def split: sum.splits)

lemma emits_bind [frames]:
  assumes "emits A m" "\<And>x. emits A (f x)"
  shows "emits A (bindE m f)"
  unfolding emits_def
proof
  fix w
  obtain r w' where m: "m w = (r, w')" by fastforce
  obtain h where h: "hist w' = hist w @ h" "\<forall>e \<in> set h. A (fst e)"
    using emitsD [OF assms(1) m] by blast
  show "\<exists>h. hist (snd (bindE m f w)) = hist w @ h \<and> (\<forall>e \<in> set h. A (fst e))"
  proof (cases r)
    case (Inl e)
    with m h show ?thesis by (simp add: comp_simps)
  next
    case (Inr x)
    obtain h' where "hist (snd (f x w')) = hist w' @ h'" "\<forall>e \<in> set h'. A (fst e)"
      using assms(2) [of x] unfolding emits_def by blast
    with m h Inr show ?thesis by (intro exI [of _ "h @ h'"]) (auto simp: bindE_def)
  qed
qed

lemma emits_then [frames]: "emits A m \<Longrightarrow> emits A m' \<Longrightarrow> emits A (thenE m m')"
  unfolding thenE_def by (rule emits_bind)

lemma emits_map_err [frames]: "emits A m \<Longrightarrow> emits A (map_err f m)"
  unfolding emits_def map_err_def by (auto split: prod.splits sum.splits) (metis snd_conv)+

lemma emits_attempt [frames]: "emits A m \<Longrightarrow> emits A (attempt m)"
  unfolding emits_def attempt_def by (auto split: prod.splits sum.splits stop.splits) (metis snd_conv)+

lemma emits_for_each [frames]: "(\<And>x. emits A (f x)) \<Longrightarrow> emits A (for_each xs f)"
  by (induction xs) (auto intro: frames)

lemma emits_if [frames]: "(b \<Longrightarrow> emits A m) \<Longrightarrow> (\<not> b \<Longrightarrow> emits A m') \<Longrightarrow> emits A (if b then m else m')"
  by simp

lemma emits_case_sum [frames]:
  "(\<And>e. r = Inl e \<Longrightarrow> emits A (f e)) \<Longrightarrow> (\<And>x. r = Inr x \<Longrightarrow> emits A (g x)) \<Longrightarrow>
   emits A (case r of Inl e \<Rightarrow> f e | Inr x \<Rightarrow> g x)"
  by (auto split: sum.splits)

lemma emits_case_option [frames]:
  "(r = None \<Longrightarrow> emits A f) \<Longrightarrow> (\<And>x. r = Some x \<Longrightarrow> emits A (g x)) \<Longrightarrow>
   emits A (case r of None \<Rightarrow> f | Some x \<Rightarrow> g x)"
  by (auto split: option.splits)

lemma emits_calls [frames]: "A op \<Longrightarrow> emits A (io_call K op)" "A op \<Longrightarrow> emits A (nix_call K op)"
  "A op \<Longrightarrow> emits A (nix_int K op)" "A op \<Longrightarrow> emits A (nix_blocking K op)"
  by (auto simp: emits_def io_call_def nix_call_def nix_int_def nix_blocking_def bindE_def comp_simps
      split: option.splits)

lemma emits_waitpid [frames]: "A (Op_waitpid p) \<Longrightarrow> emits A (nix_waitpid K p)"
  unfolding emits_def nix_waitpid_def nix_blocking_def nix_call_def bindE_def
  by (auto simp: comp_simps split: option.splits)

lemma hist_fold_put [simp]: "hist (fold (\<lambda>d. put_node d Dir) ds w) = hist w"
  by (induction ds arbitrary: w) auto

lemma emits_fs [frames]:
  "A (Op_read p) \<Longrightarrow> emits A (fs_read_to_string K p)"
  "A (Op_chmod p mode) \<Longrightarrow> emits A (fs_set_permissions K p mode)"
  "A (Op_open p) \<Longrightarrow> emits A (fs_open K p)"
  "A (Op_append p s) \<Longrightarrow> emits A (fs_append K p s)"
  "A (Op_open_append p) \<Longrightarrow> emits A (fs_open_append K p)"
  "A (Op_rmdir p) \<Longrightarrow> emits A (fs_remove_dir K p)"
  "A (Op_rmtree p) \<Longrightarrow> emits A (fs_remove_dir_all K p)"
  "A (Op_rmfile p) \<Longrightarrow> emits A (fs_remove_file K p)"
  "A (Op_mkdir_all p) \<Longrightarrow> emits A (fs_create_dir_all K p)"
  unfolding emits_def fs_read_to_string_def fs_set_permissions_def fs_open_def fs_append_def
    fs_open_append_def fs_remove_dir_def fs_remove_dir_all_def fs_remove_file_def fs_create_dir_all_def
  by (auto simp: Let_def bindE_def io_call_def comp_simps split: option.splits node.splits)

lemma emits_sockets [frames]:
  "A (Op_bind p) \<Longrightarrow> emits A (nix_bind K p)" "A (Op_connect p) \<Longrightarrow> emits A (nix_connect K p)"
  unfolding emits_def nix_bind_def nix_connect_def
  by (auto simp: Let_def bindE_def nix_call_def comp_simps split: option.splits node.splits)

lemma emits_write [frames]:
  "A (Op_create p) \<Longrightarrow> emits A (fs_create K p)" "A (Op_write p s) \<Longrightarrow> emits A (fs_write_all K p s)"
  unfolding emits_def fs_create_def fs_write_all_def
  by (auto simp: Let_def bindE_def io_call_def split: option.splits node.splits)

lemma emits_fs_write [frames]: "A (Op_create p) \<Longrightarrow> A (Op_write p s) \<Longrightarrow> emits A (fs_write K p s)"
  unfolding fs_write_def by (intro frames)

end
