(* ===== verification/StateFile.thy ===== *)
theory StateFile
  imports Os "HOL-Library.Finite_Map"
begin

text \<open>
  \<open>clonebox-core/src/state.rs\<close>: the container state, its \<open>Display\<close>, and the file
  \<open>/run/clonebox/<id>/state.json\<close> that holds it. \<open>serde_json\<close> is not part of the
  repository: the two functions the code calls are fields of the kernel record extended here, and
  what the code relies on, that reading back what was written gives the same state, is the
  hypothesis \<open>state_codec\<close>.
\<close>

section \<open>The state\<close>

datatype container_state = Creating | Created | Running | Stopped | Paused

instantiation container_state :: enum
begin

definition "enum_container_state = [Creating, Created, Running, Stopped, Paused]"

definition "enum_all_container_state P \<longleftrightarrow> P Creating \<and> P Created \<and> P Running \<and> P Stopped \<and> P Paused"

definition "enum_ex_container_state P \<longleftrightarrow> P Creating \<or> P Created \<or> P Running \<or> P Stopped \<or> P Paused"

instance
proof
  show "(UNIV :: container_state set) = set enum_class.enum"
    unfolding enum_container_state_def by (auto intro: container_state.exhaust)
qed (auto simp: enum_container_state_def enum_all_container_state_def enum_ex_container_state_def
       intro: container_state.exhaust, (metis container_state.exhaust)+)

end

fun display_container_state :: "container_state \<Rightarrow> string" where
  "display_container_state Creating = ''creating''"
| "display_container_state Created = ''created''"
| "display_container_state Running = ''running''"
| "display_container_state Stopped = ''stopped''"
| "display_container_state Paused = ''paused''"

text \<open>The \<open>HashMap\<close> of annotations is a finite map: its iteration order is not part of the state.\<close>

record State =
  s_oci_version :: string
  s_id :: string
  s_status :: container_state
  s_pid :: "i32 option"
  s_bundle :: string
  s_annotations :: "(string, string) fmap option"

definition State_new ::
    "string \<Rightarrow> string \<Rightarrow> container_state \<Rightarrow> i32 option \<Rightarrow> string \<Rightarrow> (string, string) fmap option \<Rightarrow> State" where
  "State_new ver i st p b ann =
     \<lparr>s_oci_version = ver, s_id = i, s_status = st, s_pid = p, s_bundle = b, s_annotations = ann\<rparr>"

definition set_pid :: "i32 \<Rightarrow> State \<Rightarrow> State" where
  "set_pid p s = s\<lparr>s_pid := Some p\<rparr>"

definition set_state :: "container_state \<Rightarrow> State \<Rightarrow> State" where
  "set_state st s = s\<lparr>s_status := st\<rparr>"

definition set_running :: "State \<Rightarrow> State" where
  "set_running s = s\<lparr>s_status := Running\<rparr>"

definition set_created :: "i32 \<Rightarrow> State \<Rightarrow> State" where
  "set_created p s = s\<lparr>s_status := Created, s_pid := Some p\<rparr>"

definition set_stopped :: "State \<Rightarrow> State" where
  "set_stopped s = s\<lparr>s_status := Stopped, s_pid := None\<rparr>"

definition set_paused :: "State \<Rightarrow> State" where
  "set_paused s = s\<lparr>s_status := Paused\<rparr>"

lemmas set_state_defs = set_pid_def set_state_def set_running_def set_created_def set_stopped_def
  set_paused_def

abbreviation newline :: string where
  "newline \<equiv> [CHR 0x0A]"

text \<open>\<open>iter\<close> is the order in which the annotations are visited.\<close>

definition display_State :: "((string, string) fmap \<Rightarrow> (string \<times> string) list) \<Rightarrow> State \<Rightarrow> string" where
  "display_State iter s =
     ''oci-version: '' @ s_oci_version s @ '','' @ newline @ ''id: '' @ s_id s @ '','' @ newline @
     ''status: '' @ display_container_state (s_status s) @ '','' @ newline @
     (case s_pid s of
        Some p \<Rightarrow> ''pid: '' @ show_int (sint p) @ '','' @ newline
      | None \<Rightarrow> ''pid: null,'' @ newline) @
     ''bundle: '' @ s_bundle s @ '','' @ newline @
     (case s_annotations s of
        Some ann \<Rightarrow> ''annotations:'' @ newline @
          concat (map (\<lambda>(k, v). ''  '' @ k @ '': '' @ v @ newline) (iter ann))
      | None \<Rightarrow> ''annotations: null'' @ newline)"

section \<open>The state file\<close>

definition get_bundle_path :: "string \<Rightarrow> string" where
  "get_bundle_path cid = ''/run/clonebox/'' @ cid"

definition get_state_path :: "string \<Rightarrow> string" where
  "get_state_path cid = get_bundle_path cid @ ''/state.json''"

record state_kernel = kernel +
  j_state_to_string :: "State \<Rightarrow> json_error + string"
  j_state_from_str :: "string \<Rightarrow> json_error + State"

definition write_state_file :: "('k) state_kernel_scheme \<Rightarrow> string \<Rightarrow> State \<Rightarrow> unit core" where
  "write_state_file K cid st =
     bindE (lift_result (map_sum (\<lambda>e. StateError (state_error.Json e)) id (j_state_to_string K st)))
       (\<lambda>ser_json. map_err (\<lambda>e. StateError (state_error.Io e)) (fs_write K (get_state_path cid) ser_json))"

definition read_state_file :: "('k) state_kernel_scheme \<Rightarrow> string \<Rightarrow> State core" where
  "read_state_file K cid =
     bindE (attempt (fs_read_to_string K (get_state_path cid)))
       (\<lambda>r. case r of
          Inr buf \<Rightarrow>
            lift_result (map_sum (\<lambda>e. StateError (state_error.Json e)) id (j_state_from_str K buf))
        | Inl e \<Rightarrow>
            if is_not_found e then throw (ContainerNotFound cid)
            else throw (StateError (state_error.Io e)))"

definition update_state :: "('k) state_kernel_scheme \<Rightarrow> string \<Rightarrow> (State \<Rightarrow> State) \<Rightarrow> State core" where
  "update_state K cid f =
     bindE (read_state_file K cid)
       (\<lambda>st. thenE (write_state_file K cid (f st)) (ret (f st)))"

section \<open>Where the files are\<close>

definition bundle_comps :: "string \<Rightarrow> string list" where
  "bundle_comps cid = [''run'', ''clonebox'', cid]"

definition state_comps :: "string \<Rightarrow> string list" where
  "state_comps cid = bundle_comps cid @ [''state.json'']"

lemma norm_under_run:
  assumes "plain_id cid"
  shows "norm_path cwd (''/run/clonebox/'' @ cid) = bundle_comps cid"
    and "CHR ''/'' \<notin> set f \<Longrightarrow> plain_id f \<Longrightarrow>
      norm_path cwd (''/run/clonebox/'' @ cid @ CHR ''/'' # f) = bundle_comps cid @ [f]"
  using assms
  by (simp_all add: norm_path_def bundle_comps_def split_on_no_sep split_on_append plain_id_def)

lemma norm_bundle_path [simp]:
  "plain_id cid \<Longrightarrow> norm_path cwd (get_bundle_path cid) = bundle_comps cid"
  by (simp only: get_bundle_path_def norm_under_run(1))

lemma norm_state_path [simp]:
  "plain_id cid \<Longrightarrow> norm_path cwd (get_state_path cid) = state_comps cid"
  using norm_under_run(2) [of cid "''state.json''" cwd]
  by (simp add: get_state_path_def get_bundle_path_def state_comps_def plain_id_def)

lemma comps_regular [simp]: "\<not> is_pseudo (bundle_comps cid)" "\<not> is_pseudo (bundle_comps cid @ p)"
  by (simp_all add: bundle_comps_def is_pseudo_def)

lemma state_comps_regular [simp]: "\<not> is_pseudo (state_comps cid)"
  by (simp add: state_comps_def)

lemma state_comps_simps [simp]:
  "state_comps cid \<noteq> []" "butlast (state_comps cid) = bundle_comps cid"
  "state_comps a = state_comps b \<longleftrightarrow> a = b" "bundle_comps a = bundle_comps b \<longleftrightarrow> a = b"
  "bundle_comps cid \<noteq> []" "state_comps a \<noteq> bundle_comps b"
  by (simp_all add: state_comps_def bundle_comps_def)

lemma prefix_bundle_state [simp]: "prefix (bundle_comps a) (state_comps b) \<longleftrightarrow> a = b"
  by (auto simp: state_comps_def bundle_comps_def)

text \<open>What the state file of a container says, as seen in a world.\<close>

definition stored :: "('k) state_kernel_scheme \<Rightarrow> world \<Rightarrow> string \<Rightarrow> State option" where
  "stored K w cid =
     (case node_at w (state_comps cid) of
        Some (File t) \<Rightarrow> (case j_state_from_str K t of Inr s \<Rightarrow> Some s | Inl _ \<Rightarrow> None)
      | _ \<Rightarrow> None)"

definition state_codec :: "('k) state_kernel_scheme \<Rightarrow> bool" where
  "state_codec K \<longleftrightarrow>
     (\<forall>s. \<exists>t. j_state_to_string K s = Inr t \<and> j_state_from_str K t = Inr s)"

lemma stored_cong: "node_at w (state_comps cid) = node_at w' (state_comps cid) \<Longrightarrow> stored K w cid = stored K w' cid"
  by (simp add: stored_def)

lemma stored_log [simp]: "stored K (log_op op ok w) = stored K w"
  by (simp add: stored_def fun_eq_iff)

lemma read_state_file_ok:
  assumes "plain_id cid" "read_state_file K cid w = (Inr s, w')"
  shows "stored K w cid = Some s \<and> w' = log_op (Op_read (get_state_path cid)) True w"
proof -
  from assms(2) obtain buf where "fs_read_to_string K (get_state_path cid) w = (Inr buf, w')"
    and s: "j_state_from_str K buf = Inr s"
    by (auto simp: read_state_file_def bindE_ok attempt_ok lift_result_ok map_sum_Inr comp_simps
        split: if_splits)
  from fs_read_to_string_ok [OF this(1)] assms(1) s show ?thesis
    by (simp add: stored_def)
qed

lemma read_state_file_stored:
  assumes "plain_id cid" "stored K w cid = Some s" "k_io K (Op_read (get_state_path cid)) w = None"
  shows "read_state_file K cid w = (Inr s, log_op (Op_read (get_state_path cid)) True w)"
proof -
  from assms(2) obtain t where t: "node_at w (state_comps cid) = Some (File t)"
    and s: "j_state_from_str K t = Inr s"
    by (auto simp: stored_def split: option.splits node.splits sum.splits)
  have "fs_read_to_string K (get_state_path cid) w = (Inr t, log_op (Op_read (get_state_path cid)) True w)"
    using assms(1,3) t by (simp add: fs_read_to_string_def comp_simps)
  then show ?thesis
    using s by (simp add: read_state_file_def bindE_def attempt_def comp_simps)
qed

lemma read_state_file_not_found:
  assumes "plain_id cid" "node_at w (state_comps cid) = None"
    "k_io K (Op_read (get_state_path cid)) w = None"
  shows "read_state_file K cid w =
     (Inl (Fail (ContainerNotFound cid)), log_op (Op_read (get_state_path cid)) True w)"
proof -
  have "fs_read_to_string K (get_state_path cid) w =
      (Inl (Fail (Os ENOENT)), log_op (Op_read (get_state_path cid)) True w)"
    using assms by (simp add: fs_read_to_string_def comp_simps)
  then show ?thesis
    by (simp add: read_state_file_def bindE_def attempt_def comp_simps is_not_found_def)
qed

lemma keeps_read_state [frames]: "keeps S (read_state_file K cid)"
  unfolding read_state_file_def by (intro frames)

lemma keeps_write_state [frames]:
  "plain_id cid \<Longrightarrow> state_comps cid \<notin> S \<Longrightarrow> keeps S (write_state_file K cid s)"
  unfolding write_state_file_def by (intro frames) simp

lemma write_state_file_ok:
  assumes "plain_id cid" "state_codec K" "write_state_file K cid s w = (Inr u, w')"
  shows "stored K w' cid = Some s \<and> is_dir w (bundle_comps cid)"
proof -
  obtain t where t: "j_state_to_string K s = Inr t" "j_state_from_str K t = Inr s"
    using assms(2) by (auto simp: state_codec_def)
  then have "fs_write K (get_state_path cid) t w = (Inr u, w')"
    using assms(3) by (simp add: write_state_file_def map_err_ok comp_simps bindE_def)
  from fs_write_ok [OF this] assms(1) t(2) show ?thesis
    by (simp add: stored_def)
qed

lemma write_state_file_run:
  assumes "plain_id cid" "state_codec K" "is_dir w (bundle_comps cid)"
    and "node_at w (state_comps cid) \<noteq> Some Dir" "node_at w (state_comps cid) \<noteq> Some Sock"
    and "\<And>op w. k_io K op w = None"
  obtains w' where "write_state_file K cid s w = (Inr (), w')" "stored K w' cid = Some s"
    "\<And>q. q \<noteq> state_comps cid \<Longrightarrow> node_at w' q = node_at w q"
proof -
  obtain t where t: "j_state_to_string K s = Inr t" "j_state_from_str K t = Inr s"
    using assms(2) by (auto simp: state_codec_def)
  define w' where "w' = put_node (state_comps cid) (File t)
    (log_op (Op_write (get_state_path cid) t) True (log_op (Op_create (get_state_path cid)) True w))"
  have w': "fs_write K (get_state_path cid) t w = (Inr (), w')"
    unfolding w'_def using assms(1,3,4,5,6) by (intro fs_write_run) simp_all
  then have "write_state_file K cid s w = (Inr (), w')"
    using t by (simp add: write_state_file_def comp_simps bindE_def)
  then show ?thesis
    using that t by (simp add: stored_def w'_def)
qed

section \<open>The store as an interface\<close>

text \<open>
  What the lifecycle operations rely on: a successful read returns what the store holds, a
  successful write is what the store then holds, and neither touches another container's entry.
\<close>

locale state_store =
  fixes rd :: "'k \<Rightarrow> string \<Rightarrow> State core"
    and wr :: "'k \<Rightarrow> string \<Rightarrow> State \<Rightarrow> unit core"
    and view :: "'k \<Rightarrow> world \<Rightarrow> string \<Rightarrow> State option"
    and good :: "'k \<Rightarrow> string \<Rightarrow> bool"
  assumes rd_view: "good K c \<Longrightarrow> rd K c w = (Inr s, w') \<Longrightarrow> view K w c = Some s"
    and rd_frame: "view K (snd (rd K c w)) = view K w"
    and wr_view: "good K c \<Longrightarrow> wr K c s w = (Inr u, w') \<Longrightarrow> view K w' c = Some s"
    and wr_frame: "good K c \<Longrightarrow> c' \<noteq> c \<Longrightarrow> good K c' \<Longrightarrow> view K (snd (wr K c s w)) c' = view K w c'"
begin

lemma rd_keeps: "rd K c w = (r, w') \<Longrightarrow> view K w' = view K w"
  using rd_frame [of K c w] by simp

lemma rmw_view:
  assumes "good K c" "bindE (rd K c) (\<lambda>s. thenE (wr K c (f s)) (ret (f s))) w = (Inr s', w')"
  shows "\<exists>s. view K w c = Some s \<and> s' = f s \<and> view K w' c = Some (f s)"
proof -
  from assms(2) obtain s w1 where "rd K c w = (Inr s, w1)" and "wr K c (f s) w1 = (Inr (), w')"
    and "s' = f s"
    by (auto simp: bindE_ok thenE_ok comp_simps)
  with assms(1) show ?thesis by (auto dest: rd_view wr_view)
qed

lemma rmw_frame:
  assumes "good K c" "good K c'" "c' \<noteq> c"
    "bindE (rd K c) (\<lambda>s. thenE (wr K c (f s)) (ret (f s))) w = (r, w')"
  shows "view K w' c' = view K w c'"
proof -
  obtain rr w1 where rd: "rd K c w = (rr, w1)" by fastforce
  show ?thesis
  proof (cases rr)
    case (Inl e)
    with rd assms(4) have "w' = w1" by (simp add: comp_simps)
    with rd show ?thesis by (simp add: rd_keeps)
  next
    case (Inr s)
    obtain wrr w2 where wr: "wr K c (f s) w1 = (wrr, w2)" by fastforce
    with rd Inr assms(4) have "w' = w2"
      by (cases wrr) (auto simp: comp_simps)
    with wr wr_frame [OF assms(1,3,2), of "f s" w1] rd show ?thesis by (simp add: rd_keeps)
  qed
qed

end

lemma stored_keeps:
  assumes "keeps {state_comps cid} m" "m w = (r, w')"
  shows "stored K w' cid = stored K w cid"
  using keepsD [OF assms, of "state_comps cid"] by (intro stored_cong) simp

definition store_ok :: "('k) state_kernel_scheme \<Rightarrow> string \<Rightarrow> bool" where
  "store_ok K cid \<longleftrightarrow> plain_id cid \<and> state_codec K"

interpretation json_store: state_store read_state_file write_state_file stored store_ok
proof unfold_locales
  fix K :: "'a state_kernel_scheme" and c w s w'
  assume "store_ok K c" "read_state_file K c w = (Inr s, w')"
  then show "stored K w c = Some s"
    by (simp add: store_ok_def read_state_file_ok)
next
  fix K :: "'a state_kernel_scheme" and c w
  show "stored K (snd (read_state_file K c w)) = stored K w"
    by (rule ext) (metis keeps_read_state stored_keeps prod.collapse)
next
  fix K :: "'a state_kernel_scheme" and c s w u w'
  assume "store_ok K c" "write_state_file K c s w = (Inr u, w')"
  then show "stored K w' c = Some s"
    by (simp add: store_ok_def write_state_file_ok)
next
  fix K :: "'a state_kernel_scheme" and c c' s w
  assume "store_ok K c" "c' \<noteq> c" "store_ok K c'"
  then show "stored K (snd (write_state_file K c s w)) c' = stored K w c'"
    by (intro stored_keeps [of c' "write_state_file K c s" w "fst (write_state_file K c s w)"])
       (auto simp: store_ok_def intro: keeps_write_state)
qed

lemma update_state_ok:
  assumes "plain_id cid" "state_codec K" "update_state K cid f w = (Inr s', w')"
  shows "\<exists>s. stored K w cid = Some s \<and> s' = f s \<and> stored K w' cid = Some (f s)"
  using assms by (intro json_store.rmw_view) (simp_all add: store_ok_def update_state_def)

lemma keeps_update_state [frames]:
  "plain_id cid \<Longrightarrow> state_comps cid \<notin> S \<Longrightarrow> keeps S (update_state K cid f)"
  unfolding update_state_def by (intro frames)

lemma emits_state_ops [frames]:
  assumes "A (Op_read (get_state_path cid))" "A (Op_create (get_state_path cid))"
    "\<And>t. A (Op_write (get_state_path cid) t)"
  shows "emits A (read_state_file K cid)" "emits A (write_state_file K cid s)" "emits A (update_state K cid f)"
  unfolding read_state_file_def write_state_file_def update_state_def
  using assms by (intro frames; simp)+

section \<open>Properties\<close>

text \<open>
  Round trip of the state file: once \<open>write_state_file\<close> has succeeded, \<open>read_state_file\<close>
  for the same id returns exactly the state that was written, unless the read itself fails.
\<close>

theorem write_read_state:
  assumes "plain_id cid" "state_codec K"
    and "write_state_file K cid s w = (Inr u, w')"
    and "k_io K (Op_read (get_state_path cid)) w' = None"
  shows "read_state_file K cid w' = (Inr s, log_op (Op_read (get_state_path cid)) True w')"
  using assms write_state_file_ok [OF assms(1-3)] by (intro read_state_file_stored) simp_all

end
