(* ===== verification/Events.thy ===== *)
theory Events
  imports StateFile
begin

text \<open>
  \<open>clonebox-core/src/event.rs\<close> and \<open>clonebox-core/src/logger.rs\<close>: the lifecycle events a
  supervisor sends to the daemon, one connection and one line of JSON per event, and the
  container's log file.
\<close>

record Event =
  e_id :: string
  e_state :: container_state
  e_exit_code :: "i32 option"

definition Event_new :: "string \<Rightarrow> container_state \<Rightarrow> i32 option \<Rightarrow> Event" where
  "Event_new i st code = \<lparr>e_id = i, e_state = st, e_exit_code = code\<rparr>"

definition event_update_state :: "container_state \<Rightarrow> Event \<Rightarrow> Event" where
  "event_update_state st e = e\<lparr>e_state := st\<rparr>"

definition event_update_exit_code :: "i32 \<Rightarrow> Event \<Rightarrow> Event" where
  "event_update_exit_code code e = e\<lparr>e_exit_code := Some code\<rparr>"

lemmas event_defs = Event_new_def event_update_state_def event_update_exit_code_def

record event_kernel = state_kernel +
  j_event_to_string :: "Event \<Rightarrow> json_error + string"
  j_event_from_str :: "string \<Rightarrow> json_error + Event"

definition get_stream_sk :: "('k) kernel_scheme \<Rightarrow> string \<Rightarrow> unit core" where
  "get_stream_sk K path =
     map_err (\<lambda>e. from_event (event_error.ConnectFailure e path)) (io_call K (Op_stream_connect path))"

definition send_event :: "('k) event_kernel_scheme \<Rightarrow> string \<Rightarrow> Event \<Rightarrow> unit core" where
  "send_event K path ev =
     thenE (get_stream_sk K path)
       (bindE (lift_result (map_sum (\<lambda>e. from_event (event_error.Json e)) id (j_event_to_string K ev)))
          (\<lambda>json. map_err (\<lambda>e. from_event (event_error.WriteFailure e))
                    (io_call K (Op_stream_write path (json @ newline)))))"

text \<open>What the code relies on: an event line read back is the event, and it is one line.\<close>

definition event_codec :: "('k) event_kernel_scheme \<Rightarrow> bool" where
  "event_codec K \<longleftrightarrow>
     (\<forall>e. \<exists>t. j_event_to_string K e = Inr t \<and> j_event_from_str K t = Inr e \<and> CHR 0x0A \<notin> set t)"

lemma keeps_send_event [frames]: "keeps S (send_event K path ev)"
  unfolding send_event_def get_stream_sk_def by (intro frames)

lemma emits_send_event [frames]:
  assumes "A (Op_stream_connect path)" "\<And>t. A (Op_stream_write path t)"
  shows "emits A (send_event K path ev)"
  unfolding send_event_def get_stream_sk_def using assms by (intro frames; simp)

section \<open>The log file\<close>

definition open_log_file :: "('k) kernel_scheme \<Rightarrow> string \<Rightarrow> string core" where
  "open_log_file K bundle_path =
     map_err (\<lambda>e. from_log (log_error.Io e)) (fs_open_append K (bundle_path @ ''/container.log''))"

definition write_log_file :: "('k) kernel_scheme \<Rightarrow> string \<Rightarrow> string \<Rightarrow> unit core" where
  "write_log_file K fd message = map_err (\<lambda>e. from_log (log_error.Io e)) (fs_append K fd message)"

definition log_path :: "string \<Rightarrow> string" where
  "log_path cid = get_bundle_path cid @ ''/container.log''"

definition log_comps :: "string \<Rightarrow> string list" where
  "log_comps cid = bundle_comps cid @ [''container.log'']"

lemma norm_log_path [simp]: "plain_id cid \<Longrightarrow> norm_path cwd (log_path cid) = log_comps cid"
  using norm_under_run(2) [of cid "''container.log''" cwd]
  by (simp add: log_path_def get_bundle_path_def log_comps_def plain_id_def)

lemma log_comps_simps [simp]:
  "log_comps a \<noteq> state_comps b" "state_comps b \<noteq> log_comps a" "log_comps a \<noteq> bundle_comps b"
  "log_comps a = log_comps b \<longleftrightarrow> a = b" "\<not> is_pseudo (log_comps a)" "prefix (bundle_comps a) (log_comps b) \<longleftrightarrow> a = b"
  by (auto simp: log_comps_def state_comps_def bundle_comps_def is_pseudo_def)

lemma keeps_log [frames]:
  "plain_id cid \<Longrightarrow> log_comps cid \<notin> S \<Longrightarrow> keeps S (open_log_file K (get_bundle_path cid))"
  "plain_id cid \<Longrightarrow> log_comps cid \<notin> S \<Longrightarrow> keeps S (write_log_file K (log_path cid) s)"
  unfolding open_log_file_def write_log_file_def log_path_def [symmetric]
  by (intro frames; simp)+

lemma open_log_file_fd: "open_log_file K b w = (Inr fd, w') \<Longrightarrow> fd = b @ ''/container.log''"
  by (auto simp: open_log_file_def map_err_ok fs_open_append_def Let_def bindE_ok
      split: if_splits option.splits node.splits)

lemma emits_log [frames]:
  "A (Op_open_append (b @ ''/container.log'')) \<Longrightarrow> emits A (open_log_file K b)"
  "A (Op_append fd s) \<Longrightarrow> emits A (write_log_file K fd s)"
  unfolding open_log_file_def write_log_file_def by (intro frames; simp)+

lemma send_event_hist:
  assumes "event_codec K" and "send_event K path ev w = (Inr u, w')"
  shows "\<exists>t. hist w' = hist w @ [(Op_stream_connect path, True), (Op_stream_write path (t @ newline), True)] \<and>
             CHR 0x0A \<notin> set t \<and> j_event_from_str K t = Inr ev"
proof -
  obtain t where t: "j_event_to_string K ev = Inr t" "j_event_from_str K t = Inr ev" "CHR 0x0A \<notin> set t"
    using assms(1) by (auto simp: event_codec_def)
  then show ?thesis
    using assms(2) by (auto simp: send_event_def get_stream_sk_def call_ok lift_result_ok)
qed

text \<open>
  A sent event reaches the socket as exactly one line: the bytes written, cut at the newline
  that ends them, parse back to the event that was sent.
\<close>

theorem send_event_line:
  assumes "event_codec K" and "send_event K path ev w = (Inr u, w')"
  shows "\<exists>t. hist w' = hist w @ [(Op_stream_connect path, True), (Op_stream_write path (t @ newline), True)] \<and>
             CHR 0x0A \<notin> set t \<and> j_event_from_str K t = Inr ev"
  using assms by (rule send_event_hist)

end
