(* ===== verification/Config.thy ===== *)
theory Config
  imports Events
begin

text \<open>
  \<open>clonebox-core/src/config.rs\<close>: the part of an OCI \<open>config.json\<close> that clonebox reads, and
  \<open>Config::load\<close> with its two checks. Parsing is \<open>serde_json\<close>'s, so it is a field of the
  kernel record extended here.
\<close>

record Root =
  r_path :: string
  r_readonly :: "bool option"

record Process =
  p_env :: "string list option"
  p_args :: "string list option"
  p_cwd :: string

record Mount =
  m_destination :: string
  m_type :: "string option"
  m_source :: "string option"
  m_options :: "string list option"

record Config =
  c_oci_version :: string
  c_process :: "Process option"
  c_root :: "Root option"
  c_mounts :: "Mount list option"
  c_hostname :: "string option"

record config_kernel = event_kernel +
  j_config_from_str :: "string \<Rightarrow> json_error + Config"

definition get_process_env :: "Config \<Rightarrow> string list option" where
  "get_process_env c = Option.bind (c_process c) p_env"

definition get_process_args :: "Config \<Rightarrow> string list option" where
  "get_process_args c = Option.bind (c_process c) p_args"

definition get_process_cwd :: "Config \<Rightarrow> string" where
  "get_process_cwd c = (case c_process c of Some p \<Rightarrow> p_cwd p | None \<Rightarrow> ''/'')"

definition get_root_path :: "Config \<Rightarrow> string" where
  "get_root_path c = (case c_root c of Some r \<Rightarrow> r_path r | None \<Rightarrow> '''')"

definition get_root_readonly :: "Config \<Rightarrow> bool option" where
  "get_root_readonly c = Option.bind (c_root c) r_readonly"

definition config_load :: "('k) config_kernel_scheme \<Rightarrow> string \<Rightarrow> Config core" where
  "config_load K config_path =
     bindE (map_err (\<lambda>e. ConfigError (config_error.Io e)) (fs_read_to_string K (config_path @ ''/config.json'')))
      (\<lambda>raw_conf.
     bindE (lift_result (map_sum (\<lambda>e. ConfigError (config_error.Json e)) id (j_config_from_str K raw_conf)))
      (\<lambda>config.
     if get_root_path config = [] then throw (ConfigError MissingRootPath)
     else if (case get_process_args config of Some a \<Rightarrow> a = [] | None \<Rightarrow> True)
     then throw (ConfigError MissingProcessArgs)
     else ret config))"

lemma keeps_config_load [frames]: "keeps S (config_load K p)"
  unfolding config_load_def by (intro frames)

lemma emits_config_load [frames]: "A (Op_read (p @ ''/config.json'')) \<Longrightarrow> emits A (config_load K p)"
  unfolding config_load_def by (intro frames)

text \<open>
  \<open>Config::load\<close> returns a configuration only when its root path is not empty and its
  process has at least one argument, and it is then the parsed contents of \<open>config.json\<close>.
\<close>

lemma config_load_valid:
  assumes "config_load K p w = (Inr c, w')"
  shows "get_root_path c \<noteq> [] \<and> (\<exists>a as. get_process_args c = Some (a # as)) \<and>
    (\<exists>raw w1. fs_read_to_string K (p @ ''/config.json'') w = (Inr raw, w1) \<and> j_config_from_str K raw = Inr c)"
  using assms
  by (auto simp: config_load_def comp_ok lift_result_ok map_sum_Inr comp_simps neq_Nil_conv
      split: if_splits option.splits)

text \<open>
  The converse, with the error of each failing check: a readable, parsable file gives the
  configuration exactly when both checks pass, \<open>MissingRootPath\<close> whenever the root path is
  missing or empty, and otherwise \<open>MissingProcessArgs\<close>.
\<close>

theorem config_load_decides:
  assumes "fs_read_to_string K (p @ ''/config.json'') w = (Inr raw, w')"
    and "j_config_from_str K raw = Inr c"
  shows "config_load K p w =
    (if get_root_path c = [] then Inl (Fail (ConfigError MissingRootPath))
     else if get_process_args c = None \<or> get_process_args c = Some []
     then Inl (Fail (ConfigError MissingProcessArgs))
     else Inr c, w')"
  using assms
  by (auto simp: config_load_def comp_simps bindE_def split: option.splits)

end
