(* ===== verification/Namespace.thy ===== *)
theory Namespace
  imports Config
begin

text \<open>
  \<open>clonebox-core/src/namespace.rs\<close>: what the child process does to build its root file system
  before it waits for \<open>start\<close>. Every step is wrapped in \<open>child_try!\<close>: on an error it prints
  a message and calls \<open>_exit(1)\<close>.

  The child sees the file tree through its own mounts, so once a mount has been made its calls
  are answered by the kernel alone; the three overlay directories, which it creates in the bundle
  before that mount exists, are regular directories.
\<close>

unbundle bit_operations_syntax

definition MS_BIND :: "64 word" where "MS_BIND = 0x1000"
definition MS_REC :: "64 word" where "MS_REC = 0x4000"
definition MS_PRIVATE :: "64 word" where "MS_PRIVATE = 0x40000"
definition MNT_DETACH :: i32 where "MNT_DETACH = 2"

definition child_try :: "('k) kernel_scheme \<Rightarrow> ('e \<Rightarrow> string) \<Rightarrow> (world, 'e, 'a) comp \<Rightarrow> string \<Rightarrow> unit core" where
  "child_try K txt m msg =
     bindE (attempt m)
       (\<lambda>r. case r of
          Inl e \<Rightarrow>
            bindE (attempt (nix_call K (Op_stderr (msg @ '': '' @ txt e @ newline)))) (\<lambda>_. stop_with (Exited 1))
        | Inr _ \<Rightarrow> ret ())"

abbreviation try_nix :: "('k) kernel_scheme \<Rightarrow> sysop \<Rightarrow> string \<Rightarrow> unit core" where
  "try_nix K op msg \<equiv> child_try K (k_errno_text K) (nix_call K op) msg"

definition make_child_private :: "('k) kernel_scheme \<Rightarrow> unit core" where
  "make_child_private K = try_nix K (Op_mount None ''/'' None (MS_PRIVATE OR MS_REC) None) ''private mount''"

definition set_child_hostname :: "('k) kernel_scheme \<Rightarrow> string \<Rightarrow> unit core" where
  "set_child_hostname K name = try_nix K (Op_sethostname name) ''sethostname''"

definition mount_child ::
    "('k) kernel_scheme \<Rightarrow> string option \<Rightarrow> string \<Rightarrow> string option \<Rightarrow> 64 word \<Rightarrow> string option \<Rightarrow> string \<Rightarrow> unit core" where
  "mount_child K src dest mount_type flags data msg =
     try_nix K (Op_mount src dest mount_type flags data) msg"

fun join_with :: "string \<Rightarrow> string list \<Rightarrow> string" where
  "join_with sep [] = ''''"
| "join_with sep [x] = x"
| "join_with sep (x # xs) = x @ sep @ join_with sep xs"

definition has_bind :: "Mount \<Rightarrow> bool" where
  "has_bind m = (case m_options m of Some os \<Rightarrow> ''bind'' \<in> set os | None \<Rightarrow> False)"

definition options_string :: "Mount \<Rightarrow> string option" where
  "options_string m = map_option (join_with '','') (m_options m)"

text \<open>The loop over the mounts returns from the function at the first bind mount.\<close>

fun bind_first :: "('k) kernel_scheme \<Rightarrow> string \<Rightarrow> Mount list \<Rightarrow> string option core" where
  "bind_first K new_root [] = ret None"
| "bind_first K new_root (m # ms) =
     (if has_bind m
      then thenE (mount_child K (m_source m) (new_root @ m_destination m) (m_type m) MS_BIND (options_string m) ''bind'')
             (ret (Some new_root))
      else bind_first K new_root ms)"

definition mount_overlay :: "('k) kernel_scheme \<Rightarrow> string \<Rightarrow> string \<Rightarrow> string core" where
  "mount_overlay K bundle_path new_root =
     (let upper_dir = bundle_path @ ''/upper''; work_dir = bundle_path @ ''/work'';
          merged = bundle_path @ ''/merged'' in
      thenE (child_try K (k_io_text K) (fs_create_dir_all K upper_dir) ''pre_pivot: create_dir_all: upper_dir'')
     (thenE (child_try K (k_io_text K) (fs_create_dir_all K work_dir) ''pre_pivot: create_dir_all: work_dir'')
     (thenE (child_try K (k_io_text K) (fs_create_dir_all K merged) ''create_dir_all'')
     (thenE (mount_child K (Some ''overlay'') merged (Some ''overlay'') 0
               (Some (''lowerdir='' @ new_root @ '',upperdir='' @ upper_dir @ '',workdir='' @ work_dir)) ''overlayfs'')
     (ret merged)))))"

definition pre_pivot_mount :: "('k) kernel_scheme \<Rightarrow> string \<Rightarrow> string \<Rightarrow> Mount list \<Rightarrow> string core" where
  "pre_pivot_mount K bundle_path new_root mounts =
     thenE (mount_child K (Some new_root) new_root None MS_BIND None ''bind mount'')
    (bindE (bind_first K new_root mounts)
      (\<lambda>r. case r of Some root \<Rightarrow> ret root | None \<Rightarrow> mount_overlay K bundle_path new_root))"

definition do_pivot_root :: "('k) kernel_scheme \<Rightarrow> string \<Rightarrow> unit core" where
  "do_pivot_root K new_root =
     (let put_old = ''/put_old''; child_old_path = new_root @ ''/put_old'' in
      thenE (child_try K (k_io_text K) (io_call K (Op_mkdir_all child_old_path)) ''create_dir_all'')
     (thenE (try_nix K (Op_pivot_root new_root child_old_path) ''pivot_root'')
     (thenE (try_nix K (Op_chdir ''/'') ''chdir'')
     (thenE (try_nix K (Op_umount2 put_old MNT_DETACH) ''unmount2'')
            (child_try K (k_io_text K) (io_call K (Op_rmdir put_old)) ''remove_dir'')))))"

definition post_pivot_step :: "('k) kernel_scheme \<Rightarrow> Mount \<Rightarrow> unit core" where
  "post_pivot_step K m =
     (let (mount_flag, msg) =
        (if m_type m = Some ''tmpfs'' then (0 :: 64 word, ''tmpfs'') else (0, ''skip'')) in
      if msg \<noteq> ''skip''
      then mount_child K (m_source m) (m_destination m) (m_type m) mount_flag (options_string m) msg
      else ret ())"

definition post_pivot_mount :: "('k) kernel_scheme \<Rightarrow> Mount list \<Rightarrow> unit core" where
  "post_pivot_mount K mounts = for_each mounts (post_pivot_step K)"

definition do_default_mounts :: "('k) kernel_scheme \<Rightarrow> unit core" where
  "do_default_mounts K =
     thenE (mount_child K (Some ''proc'') ''/proc'' (Some ''proc'') 0 None ''proc'')
    (thenE (mount_child K (Some ''sysfs'') ''/sys'' (Some ''sysfs'') 0 None ''sysfs'')
           (mount_child K (Some ''devtmpfs'') ''/dev'' (Some ''devtmpfs'') 0 None ''devtmpfs''))"

section \<open>Running a step\<close>

lemma child_try_nix_run:
  "try_nix K op msg w =
     (case k_errno K op w of
        None \<Rightarrow> (Inr (), log_op op True w)
      | Some e \<Rightarrow> (Inl (Exited 1),
          let l = Op_stderr (msg @ '': '' @ k_errno_text K e @ newline); w1 = log_op op False w
          in log_op l (k_errno K l w1 = None) w1))"
  by (auto simp: child_try_def nix_call_def bindE_def attempt_def comp_simps Let_def split: option.splits)

lemma child_try_pass: "m w = (Inr x, w1) \<Longrightarrow> child_try K txt m msg w = (Inr (), w1)"
  by (simp add: child_try_def bindE_def attempt_def comp_simps)

lemma child_try_fail:
  "m w = (Inl (Fail e), w1) \<Longrightarrow> child_try K txt m msg w =
     (Inl (Exited 1), log_op (Op_stderr (msg @ '': '' @ txt e @ newline))
        (k_errno K (Op_stderr (msg @ '': '' @ txt e @ newline)) w1 = None) w1)"
  by (simp add: child_try_def bindE_def attempt_def comp_simps nix_call_def split: option.splits)

lemma child_try_ok:
  assumes "\<And>s w'. m w = (Inl s, w') \<Longrightarrow> \<exists>e. s = Fail e"
  shows "child_try K txt m msg w = (Inr u, w') \<longleftrightarrow> (\<exists>x. m w = (Inr x, w'))"
proof -
  obtain r w1 where m: "m w = (r, w1)" by fastforce
  show ?thesis
  proof (cases r)
    case (Inl s)
    with m assms obtain e where "m w = (Inl (Fail e), w1)" by blast
    then show ?thesis by (simp add: child_try_fail)
  next
    case (Inr x)
    with m show ?thesis by (auto simp: child_try_pass)
  qed
qed

lemma keeps_child_try [frames]: "keeps S m \<Longrightarrow> keeps S (child_try K txt m msg)"
  unfolding child_try_def by (intro frames)

lemma emits_child_try [frames]:
  "emits A m \<Longrightarrow> (\<And>t. A (Op_stderr t)) \<Longrightarrow> emits A (child_try K txt m msg)"
  unfolding child_try_def by (intro frames; simp)

text \<open>\<open>only_exits m\<close>: a step of the child continues or calls \<open>_exit(1)\<close>, nothing else.\<close>

definition only_exits :: "(world, 'e, 'a) comp \<Rightarrow> bool" where
  "only_exits m \<longleftrightarrow> (\<forall>w s w'. m w = (Inl s, w') \<longrightarrow> s = Exited 1)"

lemma only_exits_try [frames]: "only_exits (try_nix K op msg)"
  by (auto simp: only_exits_def child_try_nix_run split: option.splits)

lemma only_exits_try_io [frames]:
  "(\<And>w s w'. m w = (Inl s, w') \<Longrightarrow> \<exists>e. s = Fail e) \<Longrightarrow> only_exits (child_try K txt m msg)"
  unfolding only_exits_def
proof (intro allI impI)
  fix w s w'
  assume fails: "\<And>w s w'. m w = (Inl s, w') \<Longrightarrow> \<exists>e. s = Fail e"
    and stop: "child_try K txt m msg w = (Inl s, w')"
  obtain r w1 where m: "m w = (r, w1)" by fastforce
  show "s = Exited 1"
  proof (cases r)
    case (Inl s')
    with m fails obtain e where "m w = (Inl (Fail e), w1)" by blast
    with stop show ?thesis by (simp add: child_try_fail)
  next
    case (Inr x)
    with m stop show ?thesis by (simp add: child_try_pass)
  qed
qed

lemma io_call_fails: "io_call K op w = (Inl s, w') \<Longrightarrow> \<exists>e. s = Fail e"
  by (auto simp: io_call_stop)

lemma create_dir_all_fails: "fs_create_dir_all K p w = (Inl s, w') \<Longrightarrow> \<exists>e. s = Fail e"
  by (auto simp: fs_create_dir_all_def Let_def bindE_stop io_call_stop split: if_splits)

lemma only_exits_seq [frames]:
  "only_exits (ret x)"
  "only_exits m \<Longrightarrow> only_exits m' \<Longrightarrow> only_exits (thenE m m')"
  "only_exits n \<Longrightarrow> (\<And>x. only_exits (f x)) \<Longrightarrow> only_exits (bindE n f)"
  unfolding only_exits_def comp_simps thenE_stop bindE_stop by blast+

lemma only_exits_for_each [frames]: "(\<And>x. only_exits (f x)) \<Longrightarrow> only_exits (for_each xs f)"
  by (induction xs) (auto intro: frames)

lemma only_exits_mount_child [frames]: "only_exits (mount_child K src dest ty fl data msg)"
  unfolding mount_child_def by (rule frames)

lemma only_exits_bind_first [frames]: "only_exits (bind_first K new_root ms)"
  by (induction ms) (auto intro: frames)

lemma only_exits_overlay [frames]: "only_exits (mount_overlay K b r)"
  unfolding mount_overlay_def Let_def by (intro frames create_dir_all_fails)

lemma only_exits_steps [frames]:
  "only_exits (make_child_private K)" "only_exits (set_child_hostname K name)"
  "only_exits (pre_pivot_mount K b r ms)" "only_exits (do_pivot_root K r)"
  "only_exits (post_pivot_mount K ms)" "only_exits (do_default_mounts K)"
proof -
  have "only_exits (case x of None \<Rightarrow> mount_overlay K b r | Some root \<Rightarrow> ret root)" for x
    by (cases x) (auto intro: frames)
  then show "only_exits (pre_pivot_mount K b r ms)"
    unfolding pre_pivot_mount_def by (intro frames)
  show "only_exits (post_pivot_mount K ms)"
    unfolding post_pivot_mount_def post_pivot_step_def by (rule frames) (auto intro: frames)
  show "only_exits (do_pivot_root K r)"
    unfolding do_pivot_root_def Let_def by (intro frames io_call_fails)
qed (unfold make_child_private_def set_child_hostname_def do_default_mounts_def, (intro frames)+)

section \<open>The child's setup as a script\<close>

text \<open>
  \<open>scripted ops m v\<close>: \<open>m\<close> makes the calls \<open>ops\<close> in this order and returns \<open>v\<close>, or
  the first one that fails is the last one made: the message is printed and the process exits
  with 1.
\<close>

definition scripted :: "sysop list \<Rightarrow> (world, 'e, 'a) comp \<Rightarrow> 'a \<Rightarrow> bool" where
  "scripted ops m v \<longleftrightarrow>
     (\<forall>w. (fst (m w) = Inr v \<and> hist (snd (m w)) = hist w @ map (\<lambda>op. (op, True)) ops) \<or>
          (fst (m w) = Inl (Exited 1) \<and>
           (\<exists>pre op post ok t ok'. ops = pre @ op # post \<and>
              hist (snd (m w)) = hist w @ map (\<lambda>op. (op, True)) pre @ [(op, ok), (Op_stderr t, ok')])))"

named_theorems scripts \<open>the calls a step of the child makes\<close>

lemma scripted_ret [scripts]: "scripted [] (ret v) v"
  by (simp add: scripted_def comp_simps)

lemma scripted_bind:
  assumes "scripted ops m v" "scripted ops' (f v) v'"
  shows "scripted (ops @ ops') (bindE m f) v'"
  unfolding scripted_def
proof (intro allI)
  fix w
  obtain r w1 where m: "m w = (r, w1)" by fastforce
  consider (ok) "r = Inr v" "hist w1 = hist w @ map (\<lambda>op. (op, True)) ops"
    | (stop) pre op post ok t ok' where "r = Inl (Exited 1)" "ops = pre @ op # post"
        "hist w1 = hist w @ map (\<lambda>op. (op, True)) pre @ [(op, ok), (Op_stderr t, ok')]"
    using assms(1) m unfolding scripted_def by (metis fst_conv snd_conv)
  then show "(fst (bindE m f w) = Inr v' \<and> hist (snd (bindE m f w)) = hist w @ map (\<lambda>op. (op, True)) (ops @ ops')) \<or>
      (fst (bindE m f w) = Inl (Exited 1) \<and>
       (\<exists>pre op post ok t ok'. ops @ ops' = pre @ op # post \<and>
          hist (snd (bindE m f w)) = hist w @ map (\<lambda>op. (op, True)) pre @ [(op, ok), (Op_stderr t, ok')]))"
  proof cases
    case ok
    then have run: "bindE m f w = f v w1" using m by (simp add: bindE_def)
    from assms(2) consider "fst (f v w1) = Inr v'" "hist (snd (f v w1)) = hist w1 @ map (\<lambda>op. (op, True)) ops'"
      | pre op post ok t ok' where "fst (f v w1) = Inl (Exited 1)" "ops' = pre @ op # post"
        "hist (snd (f v w1)) = hist w1 @ map (\<lambda>op. (op, True)) pre @ [(op, ok), (Op_stderr t, ok')]"
      unfolding scripted_def by metis
    then show ?thesis
    proof cases
      case 1
      with ok run show ?thesis by simp
    next
      case 2
      with ok run show ?thesis
        by (intro disjI2 conjI exI [of _ "ops @ pre"] exI [of _ op] exI [of _ post]) auto
    qed
  next
    case stop
    then have "bindE m f w = (Inl (Exited 1), w1)" using m by (simp add: bindE_def)
    with stop show ?thesis
      by (intro disjI2 conjI exI [of _ pre] exI [of _ op] exI [of _ "post @ ops'"]) auto
  qed
qed

lemma scripted_then:
  "scripted ops m v \<Longrightarrow> scripted ops' m' v' \<Longrightarrow> scripted (ops @ ops') (thenE m m') v'"
  unfolding thenE_def by (rule scripted_bind)

lemma scripted_step [scripts]:
  "scripted [op] m () \<Longrightarrow> scripted ops m' v \<Longrightarrow> scripted (op # ops) (thenE m m') v"
  using scripted_then [of "[op]" m "()" ops m' v] by simp

lemma scripted_try:
  assumes "\<And>w. \<exists>ok. hist (snd (m w)) = hist w @ [(op, ok)] \<and> (\<forall>x. fst (m w) = Inr x \<longrightarrow> ok)"
    and "\<And>w s w'. m w = (Inl s, w') \<Longrightarrow> \<exists>e. s = Fail e"
  shows "scripted [op] (child_try K txt m msg) ()"
  unfolding scripted_def
proof (intro allI)
  fix w
  obtain r w1 where m: "m w = (r, w1)" by fastforce
  obtain ok where ok: "hist w1 = hist w @ [(op, ok)]" "\<forall>x. r = Inr x \<longrightarrow> ok"
    using assms(1) [of w] m by auto
  show "(fst (child_try K txt m msg w) = Inr () \<and>
         hist (snd (child_try K txt m msg w)) = hist w @ map (\<lambda>op. (op, True)) [op]) \<or>
      (fst (child_try K txt m msg w) = Inl (Exited 1) \<and>
       (\<exists>pre o' post ok t ok'. [op] = pre @ o' # post \<and>
          hist (snd (child_try K txt m msg w)) = hist w @ map (\<lambda>op. (op, True)) pre @ [(o', ok), (Op_stderr t, ok')]))"
  proof (cases r)
    case (Inl s)
    with m assms(2) obtain e where "m w = (Inl (Fail e), w1)" by blast
    then show ?thesis
      using ok(1) by (intro disjI2 conjI exI [of _ "[]"] exI [of _ op] exI [of _ "[]"])
        (auto simp: child_try_fail)
  next
    case (Inr x)
    with m ok show ?thesis by (simp add: child_try_pass)
  qed
qed

lemma nix_call_fails: "nix_call K op w = (Inl s, w') \<Longrightarrow> \<exists>e. s = Fail e"
  by (auto simp: nix_call_stop)

lemma scripted_try_nix [scripts]: "scripted [op] (try_nix K op msg) ()"
  by (rule scripted_try [OF _ nix_call_fails]) (auto simp: nix_call_def split: option.splits)

lemma scripted_try_io [scripts]: "scripted [op] (child_try K txt (io_call K op) msg) ()"
  by (rule scripted_try [OF _ io_call_fails]) (auto simp: io_call_def split: option.splits)

lemma scripted_try_mkdir [scripts]:
  "scripted [Op_mkdir_all p] (child_try K txt (fs_create_dir_all K p) msg) ()"
  by (rule scripted_try [OF _ create_dir_all_fails])
     (auto simp: fs_create_dir_all_def Let_def bindE_def io_call_def split: option.splits)

lemma scripted_mount_child [scripts]:
  "scripted [Op_mount src dest ty fl data] (mount_child K src dest ty fl data msg) ()"
  unfolding mount_child_def by (rule scripts)

text \<open>The calls of each step, as lists.\<close>

definition overlay_ops :: "string \<Rightarrow> string \<Rightarrow> sysop list" where
  "overlay_ops b root =
     [Op_mkdir_all (b @ ''/upper''), Op_mkdir_all (b @ ''/work''), Op_mkdir_all (b @ ''/merged''),
      Op_mount (Some ''overlay'') (b @ ''/merged'') (Some ''overlay'') 0
        (Some (''lowerdir='' @ root @ '',upperdir='' @ (b @ ''/upper'') @ '',workdir='' @ b @ ''/work''))]"

definition bind_op :: "string \<Rightarrow> Mount \<Rightarrow> sysop" where
  "bind_op root m = Op_mount (m_source m) (root @ m_destination m) (m_type m) MS_BIND (options_string m)"

definition pre_pivot_ops :: "string \<Rightarrow> string \<Rightarrow> Mount list \<Rightarrow> sysop list" where
  "pre_pivot_ops b root ms =
     Op_mount (Some root) root None MS_BIND None #
     (case find has_bind ms of Some m \<Rightarrow> [bind_op root m] | None \<Rightarrow> overlay_ops b root)"

definition pre_pivot_root :: "string \<Rightarrow> string \<Rightarrow> Mount list \<Rightarrow> string" where
  "pre_pivot_root b root ms = (case find has_bind ms of Some _ \<Rightarrow> root | None \<Rightarrow> b @ ''/merged'')"

definition pivot_ops :: "string \<Rightarrow> sysop list" where
  "pivot_ops root = [Op_mkdir_all (root @ ''/put_old''), Op_pivot_root root (root @ ''/put_old''),
     Op_chdir ''/'', Op_umount2 ''/put_old'' MNT_DETACH, Op_rmdir ''/put_old'']"

definition tmpfs_ops :: "Mount list \<Rightarrow> sysop list" where
  "tmpfs_ops ms = map (\<lambda>m. Op_mount (m_source m) (m_destination m) (m_type m) 0 (options_string m))
     (filter (\<lambda>m. m_type m = Some ''tmpfs'') ms)"

definition default_ops :: "sysop list" where
  "default_ops = [Op_mount (Some ''proc'') ''/proc'' (Some ''proc'') 0 None,
     Op_mount (Some ''sysfs'') ''/sys'' (Some ''sysfs'') 0 None,
     Op_mount (Some ''devtmpfs'') ''/dev'' (Some ''devtmpfs'') 0 None]"

lemma scripted_eq: "scripted ops m v \<Longrightarrow> ops = ops' \<Longrightarrow> v = v' \<Longrightarrow> scripted ops' m v'"
  by simp

lemma scripted_bind_first [scripts]:
  "scripted (case find has_bind ms of Some m \<Rightarrow> [bind_op root m] | None \<Rightarrow> [])
     (bind_first K root ms) (map_option (\<lambda>_. root) (find has_bind ms))"
proof (induction ms)
  case Nil
  show ?case by (simp add: scripted_ret)
next
  case (Cons m ms)
  have "scripted [bind_op root m] (thenE (mount_child K (m_source m) (root @ m_destination m)
      (m_type m) MS_BIND (options_string m) ''bind'') (ret (Some root))) (Some root)"
    unfolding bind_op_def by (intro scripts)
  with Cons show ?case by simp
qed

lemma scripted_overlay [scripts]: "scripted (overlay_ops b root) (mount_overlay K b root) (b @ ''/merged'')"
  unfolding mount_overlay_def overlay_ops_def Let_def
  by (intro scripts)

lemma scripted_pre_pivot [scripts]:
  "scripted (pre_pivot_ops b root ms) (pre_pivot_mount K b root ms) (pre_pivot_root b root ms)"
proof -
  have tail: "scripted (case find has_bind ms of Some _ \<Rightarrow> [] | None \<Rightarrow> overlay_ops b root)
     (case map_option (\<lambda>_. root) (find has_bind ms) of
        Some r \<Rightarrow> ret r | None \<Rightarrow> mount_overlay K b root) (pre_pivot_root b root ms)"
    by (auto simp: pre_pivot_root_def intro: scripts split: option.splits)
  have "scripted (Op_mount (Some root) root None MS_BIND None #
      ((case find has_bind ms of Some m \<Rightarrow> [bind_op root m] | None \<Rightarrow> []) @
       (case find has_bind ms of Some _ \<Rightarrow> [] | None \<Rightarrow> overlay_ops b root)))
     (pre_pivot_mount K b root ms) (pre_pivot_root b root ms)"
    unfolding pre_pivot_mount_def
    by (rule scripted_step [OF scripted_mount_child])
       (rule scripted_bind [where f = "\<lambda>r. case r of Some root \<Rightarrow> ret root | None \<Rightarrow> mount_overlay K b root",
         OF scripted_bind_first tail])
  then show ?thesis
    by (rule scripted_eq) (simp_all add: pre_pivot_ops_def split: option.splits)
qed

lemma scripted_pivot [scripts]: "scripted (pivot_ops root) (do_pivot_root K root) ()"
  unfolding do_pivot_root_def pivot_ops_def Let_def
  by (intro scripts)

lemma scripted_post_pivot [scripts]: "scripted (tmpfs_ops ms) (post_pivot_mount K ms) ()"
proof (induction ms)
  case Nil
  show ?case by (simp add: post_pivot_mount_def tmpfs_ops_def scripted_ret)
next
  case (Cons m ms)
  have "scripted (tmpfs_ops [m]) (post_pivot_step K m) ()"
    by (auto simp: post_pivot_step_def tmpfs_ops_def intro: scripts)
  from scripted_then [OF this Cons] show ?case
    by (cases "m_type m = Some ''tmpfs''") (simp_all add: post_pivot_mount_def tmpfs_ops_def)
qed

lemma scripted_default [scripts]: "scripted default_ops (do_default_mounts K) ()"
  unfolding do_default_mounts_def default_ops_def
  by (intro scripts)

section \<open>Properties\<close>

text \<open>
  C39. The root file system before \<open>pivot_root\<close>: when no mount of the configuration is a bind
  mount, a successful \<open>pre_pivot_mount\<close> makes the overlay with the configured root as its
  read-only lower directory and returns the overlay's mount point. When there is a bind mount,
  it mounts only the first one, makes no overlay and returns the configured root itself.
\<close>

theorem pre_pivot_mount_result:
  assumes "pre_pivot_mount K b root ms w = (Inr r, w')"
  shows "hist w' = hist w @ map (\<lambda>op. (op, True))
           (Op_mount (Some root) root None MS_BIND None #
            (case find has_bind ms of
               Some m \<Rightarrow> [Op_mount (m_source m) (root @ m_destination m) (m_type m) MS_BIND (options_string m)]
             | None \<Rightarrow> overlay_ops b root)) \<and>
         r = (case find has_bind ms of Some _ \<Rightarrow> root | None \<Rightarrow> b @ ''/merged'')"
proof -
  have "r = pre_pivot_root b root ms \<and> hist w' = hist w @ map (\<lambda>op. (op, True)) (pre_pivot_ops b root ms)"
    using scripted_pre_pivot [of b root ms K] assms unfolding scripted_def
    by (metis fst_conv snd_conv sum.distinct(1) sum.inject(2))
  then show ?thesis
    by (cases "find has_bind ms") (simp_all add: pre_pivot_ops_def pre_pivot_root_def bind_op_def)
qed

end
