(* ===== verification/Cgroup.thy ===== *)
theory Cgroup
  imports Os
begin

text \<open>
  \<open>clonebox-core/src/cgroup.rs\<close>: the cgroup v2 hierarchy \<open>/sys/fs/cgroup/clonebox/<id>\<close>.
  The cgroup file system is the kernel's, so what its files contain and whether a write succeeds
  are the kernel's answers; the writes themselves are visible in the history.
\<close>

definition get_root_cgroup_path :: string where
  "get_root_cgroup_path = ''/sys/fs/cgroup''"

definition get_app_cgroup_path :: string where
  "get_app_cgroup_path = ''/sys/fs/cgroup/clonebox''"

definition get_child_cgroup_path :: "string \<Rightarrow> string" where
  "get_child_cgroup_path name = ''/sys/fs/cgroup/clonebox/'' @ name"

text \<open>\<open>str::contains\<close> is a substring test.\<close>

definition enable_controller :: "('k) kernel_scheme \<Rightarrow> string \<Rightarrow> string \<Rightarrow> unit core" where
  "enable_controller K path resource =
     (let controllers_path = path @ ''/cgroup.controllers'';
          subtree_path = path @ ''/cgroup.subtree_control'' in
      bindE (map_err (\<lambda>e. from_cgroup (ReadToStringFailure e controllers_path resource))
               (fs_read_to_string K controllers_path))
       (\<lambda>available.
      if \<not> sublist resource available
      then throw (from_cgroup (ResourceNotAvailable controllers_path resource))
      else
      bindE (map_err (\<lambda>e. from_cgroup (ReadToStringFailure e subtree_path resource))
               (fs_read_to_string K subtree_path))
       (\<lambda>enabled.
      if \<not> sublist resource enabled
      then map_err (\<lambda>e. from_cgroup (cgroup_error.WriteFailure e resource))
             (fs_write K subtree_path (''+'' @ resource))
      else ret ())))"

definition set_cgroup :: "('k) kernel_scheme \<Rightarrow> string \<Rightarrow> string \<Rightarrow> string \<Rightarrow> string \<Rightarrow> unit core" where
  "set_cgroup K inst resource key value =
     (let cgroup_file = inst @ ''/'' @ resource @ ''.'' @ key in
      map_err (\<lambda>e. from_cgroup (cgroup_error.WriteFailure e
          (''failed to change '' @ resource @ ''.'' @ key @ '' cgroup value:'' @ value @ '' for '' @ inst)))
        (fs_write K cgroup_file value))"

definition init_resources :: "('k) kernel_scheme \<Rightarrow> string \<Rightarrow> string list \<Rightarrow> unit core" where
  "init_resources K inst resources = for_each resources (enable_controller K inst)"

definition create_cgroup :: "('k) kernel_scheme \<Rightarrow> string \<Rightarrow> (string \<times> i32) core" where
  "create_cgroup K name =
     thenE (map_err (\<lambda>e. from_cgroup (CreateCgroupDirFailure e ''clonebox app''))
              (fs_create_dir_all K get_app_cgroup_path))
    (thenE (map_err (\<lambda>e. from_cgroup (CreateCgroupDirFailure e ''child''))
              (fs_create_dir_all K (get_child_cgroup_path name)))
    (bindE (map_err (\<lambda>e. from_cgroup (cgroup_error.OpenFailure e ''child''))
              (fs_open K (get_child_cgroup_path name)))
      (\<lambda>fd. ret (get_child_cgroup_path name, fd))))"

section \<open>The paths are the kernel's\<close>

lemma cgroup_paths_pseudo [simp]:
  "is_pseudo (norm_path cwd get_app_cgroup_path)"
  "plain_id cid \<Longrightarrow> is_pseudo (norm_path cwd (get_child_cgroup_path cid))"
  "is_pseudo (norm_path cwd (get_root_cgroup_path @ ''/cgroup.controllers''))"
  "is_pseudo (norm_path cwd (get_root_cgroup_path @ ''/cgroup.subtree_control''))"
  "is_pseudo (norm_path cwd (get_app_cgroup_path @ ''/cgroup.controllers''))"
  "is_pseudo (norm_path cwd (get_app_cgroup_path @ ''/cgroup.subtree_control''))"
  by (simp_all add: get_app_cgroup_path_def get_child_cgroup_path_def get_root_cgroup_path_def
      norm_path_def is_pseudo_def split_on_no_sep plain_id_def)

lemma child_cgroup_file_pseudo [simp]:
  assumes "plain_id cid" "plain_id f"
  shows "is_pseudo (norm_path cwd (get_child_cgroup_path cid @ ''/'' @ f))"
  using assms
  by (simp add: get_child_cgroup_path_def norm_path_def is_pseudo_def split_on_no_sep split_on_append
      plain_id_def)

lemma keeps_enable_controller [frames]:
  "is_pseudo (norm_path (k_cwd K) (path @ ''/cgroup.subtree_control'')) \<Longrightarrow>
   keeps S (enable_controller K path resource)"
  unfolding enable_controller_def Let_def by (intro frames) simp

lemma keeps_init_resources [frames]:
  "keeps S (init_resources K get_root_cgroup_path rs)" "keeps S (init_resources K get_app_cgroup_path rs)"
  unfolding init_resources_def by (intro frames; simp)+

lemma keeps_set_cgroup [frames]:
  "plain_id cid \<Longrightarrow> plain_id (res @ ''.'' @ key) \<Longrightarrow>
   keeps S (set_cgroup K (get_child_cgroup_path cid) res key v)"
  unfolding set_cgroup_def Let_def
  using child_cgroup_file_pseudo [of cid "res @ ''.'' @ key" "k_cwd K"] by (intro frames) simp

lemma keeps_create_cgroup [frames]: "plain_id cid \<Longrightarrow> keeps S (create_cgroup K cid)"
  unfolding create_cgroup_def by (intro frames; simp)

lemma emits_set_cgroup [frames]:
  "A (Op_create (inst @ ''/'' @ res @ ''.'' @ key)) \<Longrightarrow> A (Op_write (inst @ ''/'' @ res @ ''.'' @ key) v) \<Longrightarrow>
   emits A (set_cgroup K inst res key v)"
  unfolding set_cgroup_def Let_def by (intro frames)

lemma emits_cgroup [frames]:
  assumes "\<And>p. A (Op_read p)" "\<And>p. A (Op_create p)" "\<And>p s. A (Op_write p s)" "\<And>p. A (Op_mkdir_all p)"
    "\<And>p. A (Op_open p)"
  shows "emits A (enable_controller K path res)" "emits A (init_resources K path rs)"
    "emits A (create_cgroup K cid)"
  unfolding enable_controller_def init_resources_def create_cgroup_def Let_def
  using assms by (intro frames; simp)+

lemma enable_controller_run:
  fixes K :: "('k) kernel_scheme"
  assumes io: "\<And>op w. k_io K op w = None"
    and path: "path \<in> {get_root_cgroup_path, get_app_cgroup_path}"
    and av: "\<And>w. k_pseudo_read K (norm_path (k_cwd K) (path @ ''/cgroup.controllers'')) w = available"
    and en: "\<And>w. k_pseudo_read K (norm_path (k_cwd K) (path @ ''/cgroup.subtree_control'')) w = enabled"
  shows "enable_controller K path resource w =
    (let c = path @ ''/cgroup.controllers''; t = path @ ''/cgroup.subtree_control'';
         w1 = log_op (Op_read c) True w; w2 = log_op (Op_read t) True w1
     in if \<not> sublist resource available then (Inl (Fail (from_cgroup (ResourceNotAvailable c resource))), w1)
        else if sublist resource enabled then (Inr (), w2)
        else (Inr (), log_op (Op_write t (''+'' @ resource)) True (log_op (Op_create t) True w2)))"
proof -
  let ?c = "path @ ''/cgroup.controllers''" and ?t = "path @ ''/cgroup.subtree_control''"
  have ps: "is_pseudo (norm_path (k_cwd K) ?c)" "is_pseudo (norm_path (k_cwd K) ?t)"
    using path by auto
  have rd: "fs_read_to_string K ?c w = (Inr available, log_op (Op_read ?c) True w)"
    "fs_read_to_string K ?t w = (Inr enabled, log_op (Op_read ?t) True w)" for w
    using ps av en io by (simp_all add: fs_read_to_string_def Let_def comp_simps)
  have wr: "fs_write K ?t s w = (Inr (), log_op (Op_write ?t s) True (log_op (Op_create ?t) True w))" for s w
    using ps io by (intro fs_write_pseudo) simp_all
  show ?thesis
    by (simp add: enable_controller_def Let_def comp_simps rd wr)
qed

section \<open>Properties\<close>

text \<open>
  A controller that is available and not yet enabled is enabled by exactly one write, of
  \<open>+<resource>\<close> to \<open>cgroup.subtree_control\<close>; one that is enabled already is left alone,
  and one that is not available is an error that names it. The test is \<open>str::contains\<close>.
\<close>

theorem enable_controller_writes:
  fixes K :: "('k) kernel_scheme"
  assumes io: "\<And>op w. k_io K op w = None"
    and path: "path \<in> {get_root_cgroup_path, get_app_cgroup_path}"
    and av: "\<And>w. k_pseudo_read K (norm_path (k_cwd K) (path @ ''/cgroup.controllers'')) w = available"
    and en: "\<And>w. k_pseudo_read K (norm_path (k_cwd K) (path @ ''/cgroup.subtree_control'')) w = enabled"
  shows "enable_controller K path resource w =
    (let c = path @ ''/cgroup.controllers''; t = path @ ''/cgroup.subtree_control'';
         w1 = log_op (Op_read c) True w; w2 = log_op (Op_read t) True w1
     in if \<not> sublist resource available then (Inl (Fail (from_cgroup (ResourceNotAvailable c resource))), w1)
        else if sublist resource enabled then (Inr (), w2)
        else (Inr (), log_op (Op_write t (''+'' @ resource)) True (log_op (Op_create t) True w2)))"
  using assms by (rule enable_controller_run)

text \<open>
  The substring test takes the controller \<open>cpuset\<close> for \<open>cpu\<close>: on a system that
  offers and has enabled only \<open>cpuset\<close> and \<open>memory\<close>, enabling \<open>cpu\<close> reports success
  and writes nothing, so the \<open>cpu\<close> controller is neither there nor enabled.
\<close>

theorem cpuset_taken_for_cpu:
  fixes K :: "('k) kernel_scheme"
  assumes "\<And>op w. k_io K op w = None"
    and "\<And>q w. k_pseudo_read K q w = ''cpuset memory''"
  shows "\<exists>w'. enable_controller K get_app_cgroup_path ''cpu'' w = (Inr (), w') \<and>
    (\<forall>p s ok. (Op_write p s, ok) \<in> set (hist w') \<longrightarrow> (Op_write p s, ok) \<in> set (hist w))"
proof -
  have "sublist ''cpu'' ''cpuset memory''"
    unfolding sublist_def by (intro exI [of _ "[]"] exI [of _ "''set memory''"]) simp
  then show ?thesis
    using enable_controller_run [of K get_app_cgroup_path "''cpuset memory''" "''cpuset memory''" "''cpu''" w] assms
    by (auto simp: Let_def)
qed

end
