(* ===== verification/Runtime.thy ===== *)
theory Runtime
  imports StateFile
begin

text \<open>
  \<open>clonebox-core/src/runtime.rs\<close>: the pipe that holds the child before \<open>execve\<close> and the Unix
  socket \<open>start.sk\<close> on which the supervisor waits for \<open>start\<close>.
\<close>

record Runtime =
  child_end :: "i32 option"
  parent_end :: "i32 option"
  unix_sock :: "i32 option"

definition Runtime_new :: "i32 option \<Rightarrow> i32 option \<Rightarrow> i32 option \<Rightarrow> Runtime" where
  "Runtime_new c p s = \<lparr>child_end = c, parent_end = p, unix_sock = s\<rparr>"

text \<open>\<open>pipe2\<close> returns the read end and the write end. File modes are \<open>0o600\<close> = 0x180 and \<open>0o700\<close> = 0x1C0.\<close>

definition parent_child_pipe :: "('k) kernel_scheme \<Rightarrow> Runtime \<Rightarrow> Runtime core" where
  "parent_child_pipe K rt w =
     bindE (map_err (\<lambda>e. from_runtime (Pipe2Failure e)) (nix_call K Op_pipe2))
       (\<lambda>_. ret (rt\<lparr>parent_end := Some (k_int K Op_pipe_write w), child_end := Some (k_int K Op_pipe_read w)\<rparr>)) w"

text \<open>A read of the pipe returns when a byte is there or the last write end is closed.\<close>

definition freeze_child :: "('k) kernel_scheme \<Rightarrow> Runtime \<Rightarrow> unit core" where
  "freeze_child K rt =
     (case child_end rt of
        Some _ \<Rightarrow> map_err (\<lambda>e. from_runtime (Read e)) (nix_blocking K Op_pipe_read)
      | None \<Rightarrow> ret ())"

definition unfreeze_child :: "('k) kernel_scheme \<Rightarrow> Runtime \<Rightarrow> unit core" where
  "unfreeze_child K rt =
     (case parent_end rt of
        Some _ \<Rightarrow> map_err (\<lambda>e. from_runtime (Write e)) (nix_call K Op_pipe_write)
      | None \<Rightarrow> ret ())"

definition get_socket_fd :: "('k) kernel_scheme \<Rightarrow> i32 core" where
  "get_socket_fd K = map_err (\<lambda>e. from_runtime (runtime_error.CreateSocketFailure e)) (nix_int K Op_socket_unix)"

definition get_socket_path :: "string \<Rightarrow> string" where
  "get_socket_path cid = get_bundle_path cid @ ''/start.sk''"

definition parent_proc_socket :: "('k) kernel_scheme \<Rightarrow> string \<Rightarrow> Runtime \<Rightarrow> Runtime core" where
  "parent_proc_socket K cid rt =
     bindE (get_socket_fd K) (\<lambda>fd.
     let fd_path = get_socket_path cid in
     thenE (map_err (\<lambda>e. from_runtime (ToUnixAddrFailure e)) (nix_call K (Op_unix_addr fd_path)))
    (thenE (map_err (\<lambda>e. from_runtime (runtime_error.BindFailure e)) (nix_bind K fd_path))
    (thenE (map_err (\<lambda>e. from_runtime (runtime_error.Io e)) (fs_set_permissions K fd_path 0x180))
    (thenE (map_err (\<lambda>e. from_runtime (BacklogFailure e)) (nix_call K (Op_backlog 1)))
    (thenE (map_err (\<lambda>e. from_runtime (ListenFailure e)) (nix_call K Op_listen))
    (thenE (map_err (\<lambda>e. from_runtime (Accept4Failure e)) (nix_blocking K Op_accept))
    (ret (rt\<lparr>unix_sock := Some fd\<rparr>))))))))"

definition connect_create_process :: "('k) kernel_scheme \<Rightarrow> string \<Rightarrow> unit core" where
  "connect_create_process K cid =
     bindE (get_socket_fd K) (\<lambda>_.
     let fd_path = get_socket_path cid in
     thenE (map_err (\<lambda>e. from_runtime (ToUnixAddrFailure e)) (nix_call K (Op_unix_addr fd_path)))
           (map_err (\<lambda>e. from_runtime (runtime_error.ConnectFailure e)) (nix_connect K fd_path)))"

definition socket_comps :: "string \<Rightarrow> string list" where
  "socket_comps cid = bundle_comps cid @ [''start.sk'']"

lemma norm_socket_path [simp]: "plain_id cid \<Longrightarrow> norm_path cwd (get_socket_path cid) = socket_comps cid"
  using norm_under_run(2) [of cid "''start.sk''" cwd]
  by (simp add: get_socket_path_def get_bundle_path_def socket_comps_def plain_id_def)

lemma socket_comps_simps [simp]:
  "socket_comps a \<noteq> state_comps b" "state_comps b \<noteq> socket_comps a" "\<not> is_pseudo (socket_comps a)"
  "socket_comps a \<noteq> []" "butlast (socket_comps a) = bundle_comps a"
  "prefix (bundle_comps a) (socket_comps b) \<longleftrightarrow> a = b"
  by (auto simp: socket_comps_def state_comps_def bundle_comps_def is_pseudo_def)

lemma keeps_runtime [frames]:
  "keeps S (unfreeze_child K rt)" "keeps S (get_socket_fd K)" "keeps S (connect_create_process K cid)"
  unfolding unfreeze_child_def get_socket_fd_def connect_create_process_def Let_def
  by (intro frames)+

lemma keeps_pipe [frames]: "keeps S (parent_child_pipe K rt)"
  unfolding keeps_def parent_child_pipe_def
  by (auto simp: bindE_def map_err_def nix_call_def comp_simps split: option.splits)

lemma emits_runtime [frames]:
  assumes "A Op_pipe2" "A Op_pipe_read" "A Op_pipe_write" "A Op_socket_unix"
    "A (Op_unix_addr (get_socket_path cid))" "A (Op_connect (get_socket_path cid))"
  shows "emits A (parent_child_pipe K rt)" "emits A (freeze_child K rt)" "emits A (unfreeze_child K rt)"
    "emits A (connect_create_process K cid)"
proof -
  show "emits A (parent_child_pipe K rt)"
    using assms(1) unfolding emits_def parent_child_pipe_def
    by (auto simp: bindE_def map_err_def nix_call_def comp_simps split: option.splits)
qed (unfold freeze_child_def unfreeze_child_def connect_create_process_def get_socket_fd_def Let_def,
     (use assms in \<open>intro frames; simp\<close>)+)

text \<open>
  \<open>connect_create_process\<close> succeeds only if the supervisor has bound its socket: the path
  \<open>start.sk\<close> of the container's bundle is then a socket, and no file has changed.
\<close>

lemma connect_needs_socket:
  assumes "plain_id cid" "connect_create_process K cid w = (Inr u, w')"
  shows "node_at w (socket_comps cid) = Some Sock \<and> files w' = files w"
  using assms
  by (auto simp: connect_create_process_def get_socket_fd_def comp_ok nix_call_ok nix_int_def nix_connect_def connect_errno_def
      Let_def comp_simps split: option.splits node.splits if_splits)

end
