(* ===== verification/Clone3.thy ===== *)
theory Clone3
  imports Os
begin

text \<open>
  \<open>clonebox-core/src/clone3.rs\<close>: the builder around the raw \<open>clone3\<close> system call. The
  address that \<open>as_ptr\<close> gives is an argument of \<open>build\<close>; a descriptor, tid or signal is
  a 32-bit integer that \<open>as u64\<close> sign-extends.
\<close>

unbundle bit_operations_syntax

definition CLONE_PIDFD :: "64 word" where "CLONE_PIDFD = 0x00001000"
definition CLONE_PARENT_SETTID :: "64 word" where "CLONE_PARENT_SETTID = 0x00100000"
definition CLONE_CHILD_SETTID :: "64 word" where "CLONE_CHILD_SETTID = 0x01000000"
definition CLONE_SETTLS :: "64 word" where "CLONE_SETTLS = 0x00080000"
definition CLONE_INTO_CGROUP :: "64 word" where "CLONE_INTO_CGROUP = 0x200000000"

lemmas clone_flag_defs = CLONE_PIDFD_def CLONE_PARENT_SETTID_def CLONE_CHILD_SETTID_def
  CLONE_SETTLS_def CLONE_INTO_CGROUP_def

record CloneArgs =
  a_flags :: "64 word"
  a_pidfd :: "64 word"
  a_child_tid :: "64 word"
  a_parent_tid :: "64 word"
  a_exit_signal :: "64 word"
  a_stack :: "64 word"
  a_stack_size :: "64 word"
  a_tls :: "64 word"
  a_set_tid :: "64 word"
  a_set_tid_size :: "64 word"
  a_cgroup :: "64 word"

text \<open>The \<open>repr(C)\<close> layout: eleven 64-bit fields in order.\<close>

definition args_layout :: "CloneArgs \<Rightarrow> 64 word list" where
  "args_layout a = [a_flags a, a_pidfd a, a_child_tid a, a_parent_tid a, a_exit_signal a, a_stack a,
     a_stack_size a, a_tls a, a_set_tid a, a_set_tid_size a, a_cgroup a]"

record Clone3 =
  b_flags :: "64 word"
  b_pid_fd :: "32 word option"
  b_child_tid :: "32 word option"
  b_parent_tid :: "32 word option"
  b_exit_signal :: "32 word option"
  b_stack :: "8 word list option"
  b_tls :: "64 word option"
  b_set_tid :: "32 word list option"
  b_cgroup :: "32 word option"

definition Clone3_new :: "32 word option \<Rightarrow> Clone3" where
  "Clone3_new sig = \<lparr>b_flags = 0, b_pid_fd = None, b_child_tid = None, b_parent_tid = None,
     b_exit_signal = sig, b_stack = None, b_tls = None, b_set_tid = None, b_cgroup = None\<rparr>"

definition clone3_flags :: "64 word \<Rightarrow> Clone3 \<Rightarrow> Clone3" where
  "clone3_flags f c = c\<lparr>b_flags := b_flags c OR f\<rparr>"

definition clone3_stack :: "nat \<Rightarrow> Clone3 \<Rightarrow> Clone3" where
  "clone3_stack n c = c\<lparr>b_stack := Some (replicate n 0)\<rparr>"

definition clone3_pidfd :: "32 word \<Rightarrow> Clone3 \<Rightarrow> Clone3" where
  "clone3_pidfd fd c = c\<lparr>b_flags := b_flags c OR CLONE_PIDFD, b_pid_fd := Some fd\<rparr>"

definition clone3_child_tid :: "32 word \<Rightarrow> Clone3 \<Rightarrow> Clone3" where
  "clone3_child_tid i c = c\<lparr>b_flags := b_flags c OR CLONE_CHILD_SETTID, b_child_tid := Some i\<rparr>"

definition clone3_parent_tid :: "32 word \<Rightarrow> Clone3 \<Rightarrow> Clone3" where
  "clone3_parent_tid i c = c\<lparr>b_flags := b_flags c OR CLONE_PARENT_SETTID, b_parent_tid := Some i\<rparr>"

definition clone3_tls :: "64 word \<Rightarrow> Clone3 \<Rightarrow> Clone3" where
  "clone3_tls t c = c\<lparr>b_flags := b_flags c OR CLONE_SETTLS, b_tls := Some t\<rparr>"

definition clone3_set_tid :: "32 word list option \<Rightarrow> Clone3 \<Rightarrow> Clone3" where
  "clone3_set_tid ids c = c\<lparr>b_set_tid := ids\<rparr>"

definition clone3_cgroup :: "32 word \<Rightarrow> Clone3 \<Rightarrow> Clone3" where
  "clone3_cgroup fd c = c\<lparr>b_flags := b_flags c OR CLONE_INTO_CGROUP, b_cgroup := Some fd\<rparr>"

lemmas clone3_setter_defs = clone3_flags_def clone3_stack_def clone3_pidfd_def clone3_child_tid_def
  clone3_parent_tid_def clone3_tls_def clone3_set_tid_def clone3_cgroup_def

text \<open>The checks at the head of \<open>build\<close>, in their order.\<close>

definition clone3_check :: "Clone3 \<Rightarrow> clone_error option" where
  "clone3_check c =
     (if b_flags c AND CLONE_PIDFD \<noteq> 0 \<and> b_pid_fd c = None then Some NoPidFd
      else if b_flags c AND CLONE_CHILD_SETTID \<noteq> 0 \<and> b_child_tid c = None then Some NoChildTid
      else if b_flags c AND CLONE_PARENT_SETTID \<noteq> 0 \<and> b_parent_tid c = None then Some NoParentTid
      else if b_flags c AND CLONE_SETTLS \<noteq> 0 \<and> b_tls c = None then Some NoTls
      else if b_flags c AND CLONE_INTO_CGROUP \<noteq> 0 \<and> b_cgroup c = None then Some NoCgroup
      else None)"

definition map_or0 :: "32 word option \<Rightarrow> 64 word" where
  "map_or0 v = (case v of None \<Rightarrow> 0 | Some x \<Rightarrow> scast x)"

definition clone3_args :: "64 word \<Rightarrow> 64 word \<Rightarrow> Clone3 \<Rightarrow> CloneArgs" where
  "clone3_args stack_ptr tid_ptr c =
     \<lparr>a_flags = b_flags c,
      a_pidfd = map_or0 (b_pid_fd c),
      a_child_tid = map_or0 (b_child_tid c),
      a_parent_tid = map_or0 (b_parent_tid c),
      a_exit_signal = map_or0 (b_exit_signal c),
      a_stack = (case b_stack c of None \<Rightarrow> 0 | Some s \<Rightarrow> stack_ptr),
      a_stack_size = (case b_stack c of None \<Rightarrow> 0 | Some s \<Rightarrow> of_nat (length s)),
      a_tls = (case b_tls c of None \<Rightarrow> 0 | Some t \<Rightarrow> t),
      a_set_tid = (case b_set_tid c of None \<Rightarrow> 0 | Some v \<Rightarrow> tid_ptr),
      a_set_tid_size = (case b_set_tid c of None \<Rightarrow> 0 | Some v \<Rightarrow> of_nat (length v)),
      a_cgroup = map_or0 (b_cgroup c)\<rparr>"

text \<open>The pid that the system call returns is the kernel's; a negative one is the failure.\<close>

definition clone3_build :: "('k) kernel_scheme \<Rightarrow> 64 word \<Rightarrow> 64 word \<Rightarrow> Clone3 \<Rightarrow> (world, clone_error, i32) comp" where
  "clone3_build K stack_ptr tid_ptr c w =
     (case clone3_check c of
        Some e \<Rightarrow> throw e w
      | None \<Rightarrow>
          (let op = Op_clone3 (args_layout (clone3_args stack_ptr tid_ptr c)) in
           bindE (map_err Clone3Failure (io_call K op)) (\<lambda>_. ret (k_int K op w)) w))"

lemma keeps_clone3 [frames]: "keeps S (clone3_build K sp tp c)"
  unfolding keeps_def clone3_build_def
  by (auto simp: comp_simps Let_def io_call_def bindE_def map_err_def split: option.splits)

lemma emits_clone3 [frames]:
  "A (Op_clone3 (args_layout (clone3_args sp tp c))) \<Longrightarrow> emits A (clone3_build K sp tp c)"
  unfolding emits_def clone3_build_def
  by (auto simp: comp_simps Let_def io_call_def bindE_def map_err_def split: option.splits)

section \<open>Builders made with the setters\<close>

definition checked_flags :: "64 word" where
  "checked_flags = CLONE_PIDFD OR CLONE_PARENT_SETTID OR CLONE_CHILD_SETTID OR CLONE_SETTLS OR CLONE_INTO_CGROUP"

text \<open>A builder as the crate's users make it: \<open>flags\<close> is given namespace flags only.\<close>

inductive built :: "Clone3 \<Rightarrow> bool" where
  new: "built (Clone3_new sig)"
| flags: "built c \<Longrightarrow> f AND checked_flags = 0 \<Longrightarrow> built (clone3_flags f c)"
| stack: "built c \<Longrightarrow> built (clone3_stack n c)"
| pidfd: "built c \<Longrightarrow> built (clone3_pidfd fd c)"
| child_tid: "built c \<Longrightarrow> built (clone3_child_tid i c)"
| parent_tid: "built c \<Longrightarrow> built (clone3_parent_tid i c)"
| tls: "built c \<Longrightarrow> built (clone3_tls t c)"
| set_tid: "built c \<Longrightarrow> built (clone3_set_tid ids c)"
| cgroup: "built c \<Longrightarrow> built (clone3_cgroup fd c)"

text \<open>The invariant of such a builder: a checked flag is set exactly when its field is.\<close>

definition flags_match :: "Clone3 \<Rightarrow> bool" where
  "flags_match c \<longleftrightarrow>
     (b_flags c AND CLONE_PIDFD \<noteq> 0 \<longleftrightarrow> b_pid_fd c \<noteq> None) \<and>
     (b_flags c AND CLONE_CHILD_SETTID \<noteq> 0 \<longleftrightarrow> b_child_tid c \<noteq> None) \<and>
     (b_flags c AND CLONE_PARENT_SETTID \<noteq> 0 \<longleftrightarrow> b_parent_tid c \<noteq> None) \<and>
     (b_flags c AND CLONE_SETTLS \<noteq> 0 \<longleftrightarrow> b_tls c \<noteq> None) \<and>
     (b_flags c AND CLONE_INTO_CGROUP \<noteq> 0 \<longleftrightarrow> b_cgroup c \<noteq> None)"

lemma or_and_distrib: "(a OR b) AND c = (a AND c) OR (b AND (c :: 64 word))"
  by (simp add: bit.conj_disj_distrib2)

lemma checked_flags_zero:
  assumes "f AND checked_flags = 0"
  shows "f AND CLONE_PIDFD = 0" "f AND CLONE_PARENT_SETTID = 0" "f AND CLONE_CHILD_SETTID = 0"
    "f AND CLONE_SETTLS = 0" "f AND CLONE_INTO_CGROUP = 0"
proof -
  have sub: "f AND g = 0" if "checked_flags AND g = g" for g
  proof -
    have "f AND g = (f AND checked_flags) AND g"
      by (simp only: and.assoc that)
    with assms show ?thesis by simp
  qed
  show "f AND CLONE_PIDFD = 0" "f AND CLONE_PARENT_SETTID = 0" "f AND CLONE_CHILD_SETTID = 0"
    "f AND CLONE_SETTLS = 0" "f AND CLONE_INTO_CGROUP = 0"
    by (rule sub, simp add: checked_flags_def clone_flag_defs)+
qed

lemma or_eq_0: "a OR b = 0 \<longleftrightarrow> a = 0 \<and> b = (0 :: 64 word)"
  by (metis or.left_neutral or_eq_0_iff)

lemma built_flags_match: "built c \<Longrightarrow> flags_match c"
proof (induction rule: built.induct)
  case (flags c f)
  then show ?case
    by (simp add: flags_match_def clone3_flags_def or_and_distrib checked_flags_zero)
qed (auto simp: flags_match_def Clone3_new_def clone3_setter_defs or_and_distrib clone_flag_defs or_eq_0)

text \<open>
  A builder made from \<open>Clone3::new\<close> by the setters never fails the checks of
  \<open>build\<close>: the call is made, with the builder's flags in the first field, and \<open>build\<close>
  fails only if the kernel fails the call.
\<close>

theorem built_builds:
  assumes "built c"
  shows "clone3_check c = None \<and>
    hist (snd (clone3_build K sp tp c w)) =
      hist w @ [(Op_clone3 (args_layout (clone3_args sp tp c)),
                 k_io K (Op_clone3 (args_layout (clone3_args sp tp c))) w = None)] \<and>
    hd (args_layout (clone3_args sp tp c)) = b_flags c"
proof -
  have "clone3_check c = None"
    using built_flags_match [OF assms] unfolding clone3_check_def flags_match_def
    by (simp only: if_False simp_thms)
  then have "clone3_build K sp tp c =
      (\<lambda>w. bindE (map_err Clone3Failure (io_call K (Op_clone3 (args_layout (clone3_args sp tp c)))))
             (\<lambda>_. ret (k_int K (Op_clone3 (args_layout (clone3_args sp tp c))) w)) w)"
    by (simp add: clone3_build_def fun_eq_iff Let_def)
  moreover have "hd (args_layout (clone3_args sp tp c)) = b_flags c"
    by (simp add: args_layout_def clone3_args_def)
  ultimately show ?thesis
    using \<open>clone3_check c = None\<close>
    by (cases "k_io K (Op_clone3 (args_layout (clone3_args sp tp c))) w") (simp_all add: comp_simps)
qed

end
