(* ===== verification/Codec.thy ===== *)
theory Codec
  imports Prelude
begin

text \<open>
  Byte encodings. \<open>to_ne_bytes\<close> is little endian on the targets of the runtime (x86_64 and
  aarch64): \<open>le_encode k x\<close> lists the \<open>k\<close> low bytes of \<open>x\<close> and \<open>le_decode\<close> reads them
  back. The locale \<open>fixed_codec\<close> is the contract of a fixed-width encoding: the integers and
  the C structures of netlink are its instances.
\<close>

unbundle bit_operations_syntax

type_synonym byte = "8 word"

primrec le_encode :: "nat \<Rightarrow> 'a::len word \<Rightarrow> byte list" where
  "le_encode 0 x = []"
| "le_encode (Suc k) x = ucast x # le_encode k (drop_bit 8 x)"

primrec le_decode :: "byte list \<Rightarrow> 'a::len word" where
  "le_decode [] = 0"
| "le_decode (b # bs) = ucast b OR push_bit 8 (le_decode bs)"

lemma length_le_encode [simp]: "length (le_encode k x) = k"
  by (induction k arbitrary: x) auto

lemma le_split:
  "(ucast (ucast x :: byte) :: 'a::len word) OR push_bit 8 (take_bit n (drop_bit 8 x)) = take_bit (8 + n) x"
  by (rule bit_word_eqI) (auto simp: bit_simps not_less le_add_diff_inverse2)

lemma le_decode_encode: "le_decode (le_encode k x) = (take_bit (8 * k) x :: 'a::len word)"
proof (induction k arbitrary: x)
  case 0
  then show ?case by simp
next
  case (Suc k)
  then show ?case by (simp add: le_split)
qed

lemma le_roundtrip: "LENGTH('a::len) \<le> 8 * k \<Longrightarrow> le_decode (le_encode k x) = (x :: 'a word)"
  by (simp add: le_decode_encode take_bit_word_eq_self)

section \<open>Fixed-width codecs\<close>

locale fixed_codec =
  fixes enc :: "'a \<Rightarrow> byte list" and dec :: "byte list \<Rightarrow> 'a" and width :: nat
  assumes enc_length: "length (enc x) = width"
    and dec_enc: "dec (enc x) = x"
begin

lemma enc_inject: "enc x = enc y \<longleftrightarrow> x = y"
  by (metis dec_enc)

lemma take_enc: "take width (enc x @ r) = enc x" and drop_enc: "drop width (enc x @ r) = r"
  by (simp_all add: enc_length)

lemma dec_front: "dec (take width (enc x @ r)) = x"
  by (simp only: take_enc dec_enc)

text \<open>No encoding is a prefix of another one, so a stream of them has one reading.\<close>

lemma enc_append_inject: "enc x @ r = enc y @ r' \<longleftrightarrow> x = y \<and> r = r'"
  by (metis take_enc drop_enc enc_inject)

lemma enc_at: "length p = k \<Longrightarrow> dec (take width (drop k (p @ enc x @ r))) = x"
  by (simp add: enc_length dec_enc)

end

type_synonym u8 = "8 word"
type_synonym u16 = "16 word"
type_synonym u32 = "32 word"
type_synonym u64 = "64 word"

abbreviation ne8 :: "u8 \<Rightarrow> byte list" where "ne8 \<equiv> le_encode 1"
abbreviation ne16 :: "u16 \<Rightarrow> byte list" where "ne16 \<equiv> le_encode 2"
abbreviation ne32 :: "u32 \<Rightarrow> byte list" where "ne32 \<equiv> le_encode 4"
abbreviation ne64 :: "u64 \<Rightarrow> byte list" where "ne64 \<equiv> le_encode 8"

interpretation codec8: fixed_codec ne8 "le_decode :: byte list \<Rightarrow> u8" 1
  by unfold_locales (simp_all add: le_roundtrip del: One_nat_def)

interpretation codec16: fixed_codec ne16 "le_decode :: byte list \<Rightarrow> u16" 2
  by unfold_locales (simp_all add: le_roundtrip)

interpretation codec32: fixed_codec ne32 "le_decode :: byte list \<Rightarrow> u32" 4
  by unfold_locales (simp_all add: le_roundtrip)

interpretation codec64: fixed_codec ne64 "le_decode :: byte list \<Rightarrow> u64" 8
  by unfold_locales (simp_all add: le_roundtrip)

end
