(* ===== verification/Netlink.thy ===== *)
theory Netlink
  imports Codec Os
begin

text \<open>
  The first half of \<open>clonebox-core/src/network.rs\<close>: the byte writer and reader, the C
  structures of rtnetlink with their layouts, and nested attributes. A slice or index out of
  bounds is a Rust panic: the functions that slice return \<open>None\<close> for it.
\<close>

unbundle bit_operations_syntax

definition VETH_INFO_PEER :: u16 where "VETH_INFO_PEER = 1"
definition RTEXT_FILTER_VF :: u32 where "RTEXT_FILTER_VF = push_bit 0 1"
definition RTEXT_FILTER_SKIP_STATS :: u32 where "RTEXT_FILTER_SKIP_STATS = push_bit 3 1"

section \<open>Writer\<close>

record Writer =
  w_buf :: "byte list"

definition flush :: "Writer \<Rightarrow> Writer" where
  "flush w = w\<lparr>w_buf := []\<rparr>"

text \<open>The loop pushes zeros until the length is a multiple of four.\<close>

function pad_zeros :: "byte list \<Rightarrow> byte list" where
  "pad_zeros b = (if length b mod 4 \<noteq> 0 then pad_zeros (b @ [0]) else b)"
  by pat_completeness auto
termination
proof (relation "measure (\<lambda>b. (4 - length b mod 4) mod 4)", simp)
  fix b :: "byte list"
  assume "length b mod 4 \<noteq> 0"
  then show "(b @ [0], b) \<in> measure (\<lambda>b. (4 - length b mod 4) mod 4)"
    by (simp add: mod_Suc) presburger
qed

declare pad_zeros.simps [simp del]

definition pad_to_align :: "Writer \<Rightarrow> Writer" where
  "pad_to_align w = w\<lparr>w_buf := pad_zeros (w_buf w)\<rparr>"

definition pos :: "Writer \<Rightarrow> nat" where
  "pos w = length (w_buf w)"

definition write_bytes :: "byte list \<Rightarrow> Writer \<Rightarrow> nat \<times> Writer" where
  "write_bytes bs w = (length bs, w\<lparr>w_buf := w_buf w @ bs\<rparr>)"

definition write_u8 :: "u8 \<Rightarrow> Writer \<Rightarrow> nat \<times> Writer" where
  "write_u8 n w = (1, w\<lparr>w_buf := w_buf w @ ne8 n\<rparr>)"

definition write_u16 :: "u16 \<Rightarrow> Writer \<Rightarrow> nat \<times> Writer" where
  "write_u16 n w = (2, w\<lparr>w_buf := w_buf w @ ne16 n\<rparr>)"

definition write_u32 :: "u32 \<Rightarrow> Writer \<Rightarrow> nat \<times> Writer" where
  "write_u32 n w = (4, w\<lparr>w_buf := w_buf w @ ne32 n\<rparr>)"

text \<open>An \<open>i32\<close> is its two's complement word.\<close>

definition write_i32 :: "u32 \<Rightarrow> Writer \<Rightarrow> nat \<times> Writer" where
  "write_i32 n w = (4, w\<lparr>w_buf := w_buf w @ ne32 n\<rparr>)"

definition write_u64 :: "u64 \<Rightarrow> Writer \<Rightarrow> nat \<times> Writer" where
  "write_u64 n w = (8, w\<lparr>w_buf := w_buf w @ ne64 n\<rparr>)"

text \<open>\<open>write_struct\<close> copies the bytes of a \<open>repr(C)\<close> value; the layout is the argument.\<close>

definition write_struct :: "('t \<Rightarrow> byte list) \<Rightarrow> 't \<Rightarrow> Writer \<Rightarrow> nat \<times> Writer" where
  "write_struct layout val = write_bytes (layout val)"

lemmas writer_defs = write_bytes_def write_u8_def write_u16_def write_u32_def write_i32_def
  write_u64_def write_struct_def pos_def flush_def pad_to_align_def

section \<open>Reader\<close>

record Reader =
  r_buf :: "byte list"
  r_cursor :: nat

definition check_bound :: "nat \<Rightarrow> Reader \<Rightarrow> bool" where
  "check_bound n r \<longleftrightarrow> n + r_cursor r < length (r_buf r)"

text \<open>\<open>(cursor + 3) & !3\<close> on a \<open>usize\<close> clears the two low bits.\<close>

definition skip_to_align :: "Reader \<Rightarrow> Reader" where
  "skip_to_align r =
     (let aligned = ((r_cursor r + 3) div 4) * 4 in r\<lparr>r_cursor := min aligned (length (r_buf r))\<rparr>)"

fun read_loop :: "nat list \<Rightarrow> byte list \<Rightarrow> Reader \<Rightarrow> byte list \<times> Reader" where
  "read_loop [] val r = (val, r)"
| "read_loop (i # is) val r = read_loop is (val @ [r_buf r ! i]) (r\<lparr>r_cursor := r_cursor r + 1\<rparr>)"

definition read_bytes :: "nat \<Rightarrow> Reader \<Rightarrow> network_error + (byte list \<times> Reader)" where
  "read_bytes n r =
     (if \<not> check_bound n r then Inl ReadOutOfRange
      else Inr (read_loop [0..<n] [] r))"

definition read_word :: "nat \<Rightarrow> Reader \<Rightarrow> network_error + ('a::len word \<times> Reader)" where
  "read_word n r =
     (if \<not> check_bound n r then Inl ReadOutOfRange
      else Inr (le_decode (take n (drop (r_cursor r) (r_buf r))), r\<lparr>r_cursor := r_cursor r + n\<rparr>))"

definition read_u8 :: "Reader \<Rightarrow> network_error + (u8 \<times> Reader)" where
  "read_u8 = read_word 1"

definition read_u16 :: "Reader \<Rightarrow> network_error + (u16 \<times> Reader)" where
  "read_u16 = read_word 2"

definition read_u32 :: "Reader \<Rightarrow> network_error + (u32 \<times> Reader)" where
  "read_u32 = read_word 4"

definition read_u64 :: "Reader \<Rightarrow> network_error + (u64 \<times> Reader)" where
  "read_u64 = read_word 8"

section \<open>Structures and their layouts\<close>

record Rtmsg =
  rtm_family :: u8
  rtm_dst_len :: u8
  rtm_src_len :: u8
  rtm_tos :: u8
  rtm_table :: u8
  rtm_protocol :: u8
  rtm_scope :: u8
  rtm_type :: u8
  rtm_flags :: u32

definition rtmsg_builder ::
    "u8 \<Rightarrow> u8 \<Rightarrow> u8 \<Rightarrow> u8 \<Rightarrow> u8 \<Rightarrow> u8 \<Rightarrow> u8 \<Rightarrow> u8 \<Rightarrow> u32 \<Rightarrow> Rtmsg" where
  "rtmsg_builder fam dl sl tos tab pr sc ty fl =
     \<lparr>rtm_family = fam, rtm_dst_len = dl, rtm_src_len = sl, rtm_tos = tos, rtm_table = tab,
      rtm_protocol = pr, rtm_scope = sc, rtm_type = ty, rtm_flags = fl\<rparr>"

definition rtmsg_layout :: "Rtmsg \<Rightarrow> byte list" where
  "rtmsg_layout m = [rtm_family m, rtm_dst_len m, rtm_src_len m, rtm_tos m, rtm_table m, rtm_protocol m,
     rtm_scope m, rtm_type m] @ ne32 (rtm_flags m)"

record nlmsghdr =
  nlmsg_len :: u32
  nlmsg_type :: u16
  nlmsg_flags :: u16
  nlmsg_seq :: u32
  nlmsg_pid :: u32

definition nlmsghdr_builder :: "u32 \<Rightarrow> u16 \<Rightarrow> u16 \<Rightarrow> u32 \<Rightarrow> u32 \<Rightarrow> nlmsghdr" where
  "nlmsghdr_builder l t f s p =
     \<lparr>nlmsg_len = l, nlmsg_type = t, nlmsg_flags = f, nlmsg_seq = s, nlmsg_pid = p\<rparr>"

definition nlmsghdr_layout :: "nlmsghdr \<Rightarrow> byte list" where
  "nlmsghdr_layout h = ne32 (nlmsg_len h) @ ne16 (nlmsg_type h) @ ne16 (nlmsg_flags h) @
     ne32 (nlmsg_seq h) @ ne32 (nlmsg_pid h)"

text \<open>\<open>ifinfomsg\<close> has one byte of padding after the family; \<open>zeroed()\<close> makes it zero.\<close>

record ifinfomsg =
  ifi_family :: u8
  ifi_type :: u16
  ifi_index :: u32
  ifi_flags :: u32
  ifi_change :: u32

definition ifinfomsg_builder :: "u8 \<Rightarrow> u16 \<Rightarrow> u32 \<Rightarrow> u32 \<Rightarrow> u32 \<Rightarrow> ifinfomsg" where
  "ifinfomsg_builder fam t i fl ch =
     \<lparr>ifi_family = fam, ifi_type = t, ifi_index = i, ifi_flags = fl, ifi_change = ch\<rparr>"

definition ifinfomsg_layout :: "ifinfomsg \<Rightarrow> byte list" where
  "ifinfomsg_layout m = [ifi_family m, 0] @ ne16 (ifi_type m) @ ne32 (ifi_index m) @ ne32 (ifi_flags m) @
     ne32 (ifi_change m)"

record rtattr =
  rta_len :: u16
  rta_type :: u16

definition rtattr_builder :: "u16 \<Rightarrow> u16 \<Rightarrow> rtattr" where
  "rtattr_builder l t = \<lparr>rta_len = l, rta_type = t\<rparr>"

definition rtattr_layout :: "rtattr \<Rightarrow> byte list" where
  "rtattr_layout a = ne16 (rta_len a) @ ne16 (rta_type a)"

record ifaddrmsg =
  ifa_family :: u8
  ifa_prefixlen :: u8
  ifa_flags :: u8
  ifa_scope :: u8
  ifa_index :: u32

definition ifaddrmsg_builder :: "u8 \<Rightarrow> u8 \<Rightarrow> u8 \<Rightarrow> u8 \<Rightarrow> u32 \<Rightarrow> ifaddrmsg" where
  "ifaddrmsg_builder fam pl fl sc i =
     \<lparr>ifa_family = fam, ifa_prefixlen = pl, ifa_flags = fl, ifa_scope = sc, ifa_index = i\<rparr>"

definition ifaddrmsg_layout :: "ifaddrmsg \<Rightarrow> byte list" where
  "ifaddrmsg_layout m = [ifa_family m, ifa_prefixlen m, ifa_flags m, ifa_scope m] @ ne32 (ifa_index m)"

lemmas layout_defs = rtmsg_layout_def nlmsghdr_layout_def ifinfomsg_layout_def rtattr_layout_def
  ifaddrmsg_layout_def

section \<open>Patching and nesting\<close>

text \<open>\<open>buf[p..p + n].copy_from_slice(bs)\<close> with \<open>n = bs.len()\<close>.\<close>

definition patch :: "nat \<Rightarrow> byte list \<Rightarrow> Writer \<Rightarrow> Writer option" where
  "patch p bs w =
     (if p + length bs \<le> length (w_buf w)
      then Some (w\<lparr>w_buf := take p (w_buf w) @ bs @ drop (p + length bs) (w_buf w)\<rparr>)
      else None)"

definition nest_start :: "Writer \<Rightarrow> u16 \<Rightarrow> nat \<times> Writer" where
  "nest_start w ty = (pos w, snd (write_u16 ty (snd (write_u16 0 w))))"

definition nest_end :: "Writer \<Rightarrow> nat \<Rightarrow> Writer option" where
  "nest_end w p =
     (if p > pos w then None
      else map_option pad_to_align (patch p (ne16 (of_nat (pos w - p))) w))"

section \<open>Padding\<close>

definition padding :: "nat \<Rightarrow> byte list" where
  "padding n = replicate ((4 - n mod 4) mod 4) 0"

lemma pad_zeros_eq: "pad_zeros b = b @ padding (length b)"
proof (induction b rule: pad_zeros.induct)
  case (1 b)
  show ?case
  proof (cases "length b mod 4 = 0")
    case True
    then show ?thesis by (simp add: pad_zeros.simps [of b] padding_def)
  next
    case False
    then have "pad_zeros b = b @ 0 # padding (length b + 1)"
      using 1 by (simp add: pad_zeros.simps [of b])
    moreover have "length b mod 4 \<in> {1, 2, 3}" using False by auto
    ultimately show ?thesis
      by (auto simp: padding_def mod_Suc numeral_2_eq_2)
  qed
qed

lemma mod4_cases:
  fixes n :: nat
  obtains "n mod 4 = 0" | "n mod 4 = 1" | "n mod 4 = 2" | "n mod 4 = 3"
  by linarith

lemma length_padding: "(n + length (padding n)) mod 4 = 0"
proof -
  have "(n + length (padding n)) mod 4 = (n mod 4 + (4 - n mod 4) mod 4) mod 4"
    by (simp add: padding_def mod_add_left_eq)
  also have "\<dots> = 0"
    by (rule mod4_cases [of n]) simp_all
  finally show ?thesis .
qed

lemma padding_mod: "padding n = padding (n mod 4)"
  by (simp add: padding_def)

lemma padding_add: "m mod 4 = 0 \<Longrightarrow> padding (m + n) = padding n"
  by (metis add_0 mod_add_left_eq padding_mod)

lemma padding_aligned [simp]: "n mod 4 = 0 \<Longrightarrow> padding n = []"
  by (simp add: padding_def)

lemma length_padding_less: "length (padding n) < 4"
  by (simp add: padding_def)

section \<open>The layouts decode\<close>

definition rtmsg_parse :: "byte list \<Rightarrow> Rtmsg" where
  "rtmsg_parse b = rtmsg_builder (b ! 0) (b ! 1) (b ! 2) (b ! 3) (b ! 4) (b ! 5) (b ! 6) (b ! 7)
     (le_decode (drop 8 b))"

definition nlmsghdr_parse :: "byte list \<Rightarrow> nlmsghdr" where
  "nlmsghdr_parse b = nlmsghdr_builder (le_decode (take 4 b)) (le_decode (take 2 (drop 4 b)))
     (le_decode (take 2 (drop 6 b))) (le_decode (take 4 (drop 8 b))) (le_decode (take 4 (drop 12 b)))"

definition ifinfomsg_parse :: "byte list \<Rightarrow> ifinfomsg" where
  "ifinfomsg_parse b = ifinfomsg_builder (b ! 0) (le_decode (take 2 (drop 2 b))) (le_decode (take 4 (drop 4 b)))
     (le_decode (take 4 (drop 8 b))) (le_decode (take 4 (drop 12 b)))"

definition rtattr_parse :: "byte list \<Rightarrow> rtattr" where
  "rtattr_parse b = rtattr_builder (le_decode (take 2 b)) (le_decode (take 2 (drop 2 b)))"

definition ifaddrmsg_parse :: "byte list \<Rightarrow> ifaddrmsg" where
  "ifaddrmsg_parse b = ifaddrmsg_builder (b ! 0) (b ! 1) (b ! 2) (b ! 3) (le_decode (drop 4 b))"

interpretation rtmsg: fixed_codec rtmsg_layout rtmsg_parse 12
  by unfold_locales (simp_all add: rtmsg_layout_def rtmsg_parse_def rtmsg_builder_def le_roundtrip)

interpretation nlhdr: fixed_codec nlmsghdr_layout nlmsghdr_parse 16
  by unfold_locales (simp_all add: nlmsghdr_layout_def nlmsghdr_parse_def nlmsghdr_builder_def le_roundtrip)

interpretation ifinfo: fixed_codec ifinfomsg_layout ifinfomsg_parse 16
  by unfold_locales (simp_all add: ifinfomsg_layout_def ifinfomsg_parse_def ifinfomsg_builder_def le_roundtrip)

interpretation rta: fixed_codec rtattr_layout rtattr_parse 4
  by unfold_locales (simp_all add: rtattr_layout_def rtattr_parse_def rtattr_builder_def le_roundtrip)

interpretation ifaddr: fixed_codec ifaddrmsg_layout ifaddrmsg_parse 8
  by unfold_locales (simp_all add: ifaddrmsg_layout_def ifaddrmsg_parse_def ifaddrmsg_builder_def le_roundtrip)

section \<open>Attributes, as rtnetlink defines them\<close>

text \<open>
  The specification side: an attribute is a 16-bit length, a 16-bit type and a payload, padded to
  a multiple of four; the length counts the header and the payload but not the padding. The
  parser is the receiver's.
\<close>

type_synonym attr = "u16 \<times> byte list"

definition attr_ok :: "attr \<Rightarrow> bool" where
  "attr_ok a \<longleftrightarrow> length (snd a) + 4 < 2 ^ 16"

definition enc_attr :: "attr \<Rightarrow> byte list" where
  "enc_attr a = ne16 (of_nat (4 + length (snd a))) @ ne16 (fst a) @ snd a @ padding (length (snd a))"

definition enc_attrs :: "attr list \<Rightarrow> byte list" where
  "enc_attrs as = concat (map enc_attr as)"

definition align4 :: "nat \<Rightarrow> nat" where
  "align4 n = ((n + 3) div 4) * 4"

function parse_attrs :: "byte list \<Rightarrow> attr list option" where
  "parse_attrs b =
     (if b = [] then Some []
      else if length b < 4 then None
      else let l = unat (le_decode (take 2 b) :: u16); t = le_decode (take 2 (drop 2 b)) in
        if l < 4 \<or> length b < l then None
        else map_option (Cons (t, drop 4 (take l b))) (parse_attrs (drop (align4 l) b)))"
  by pat_completeness auto
termination
  by (relation "measure length") (auto simp: align4_def)

declare parse_attrs.simps [simp del]

lemma align4_pad: "align4 (4 + n) = 4 + n + (4 - n mod 4) mod 4"
proof -
  have split: "n = 4 * (n div 4) + n mod 4" by simp
  have "(n + 7) div 4 = (4 * (n div 4) + (n mod 4 + 7)) div 4" by simp
  then have "(n + 7) div 4 = n div 4 + (n mod 4 + 7) div 4"
    by (simp only: div_mult_self4 [of 4])
  then have "align4 (4 + n) = 4 * (n div 4) + ((n mod 4 + 7) div 4) * 4"
    by (simp add: align4_def algebra_simps)
  moreover have "((n mod 4 + 7) div 4) * 4 = n mod 4 + 4 + (4 - n mod 4) mod 4"
    by (rule mod4_cases [of n]) simp_all
  ultimately show ?thesis using split by linarith
qed

lemma length_enc_attr: "length (enc_attr a) = align4 (4 + length (snd a))"
  by (simp add: enc_attr_def padding_def align4_pad)

lemma length_enc_attr_mod [simp]: "length (enc_attr a) mod 4 = 0"
  by (simp add: length_enc_attr align4_def)

lemma length_enc_attrs_mod [simp]: "length (enc_attrs as) mod 4 = 0"
proof (induction as)
  case (Cons a as)
  have "length (enc_attrs (a # as)) = length (enc_attr a) + length (enc_attrs as)"
    by (simp add: enc_attrs_def)
  with Cons show ?case by (metis add_0 length_enc_attr_mod mod_add_left_eq)
qed (simp add: enc_attrs_def)

lemma parse_enc_attr:
  assumes "attr_ok a"
  shows "parse_attrs (enc_attr a @ r) = map_option (Cons a) (parse_attrs r)"
proof -
  let ?l = "4 + length (snd a)"
  have l: "unat (of_nat ?l :: u16) = ?l"
    using assms by (simp only: attr_ok_def unat_of_nat) simp
  have len: "length (enc_attr a @ r) \<ge> ?l"
    by (simp add: enc_attr_def)
  have parts: "take 2 (enc_attr a @ r) = ne16 (of_nat ?l)" "take 2 (drop 2 (enc_attr a @ r)) = ne16 (fst a)"
    "drop 4 (take ?l (enc_attr a @ r)) = snd a" "drop (align4 ?l) (enc_attr a @ r) = r"
    by (simp_all add: length_enc_attr [symmetric]) (simp_all add: enc_attr_def)
  define x where "x = enc_attr a @ r"
  have fields: "le_decode (take 2 x) = (of_nat ?l :: u16)" "le_decode (take 2 (drop 2 x)) = fst a"
    "drop 4 (take ?l x) = snd a" "drop (align4 ?l) x = r" "?l \<le> length x"
    unfolding x_def using len by (simp_all only: parts codec16.dec_enc)
  then have "x \<noteq> []" "\<not> length x < 4" by auto
  then have "parse_attrs x = map_option (Cons (fst a, snd a)) (parse_attrs r)"
    using l fields by (subst parse_attrs.simps) (simp add: Let_def del: of_nat_add)
  then show ?thesis by (simp add: x_def)
qed

lemma parse_enc_attrs:
  assumes "\<forall>a \<in> set as. attr_ok a"
  shows "parse_attrs (enc_attrs as) = Some as"
  using assms
proof (induction as)
  case Nil
  then show ?case by (simp add: enc_attrs_def parse_attrs.simps)
next
  case (Cons a as)
  then show ?case
    using parse_enc_attr [of a "enc_attrs as"] by (simp add: enc_attrs_def)
qed

section \<open>What the writer makes\<close>

lemma pad_to_align_attr:
  "length b mod 4 = 0 \<Longrightarrow> pad_to_align \<lparr>w_buf = b @ x\<rparr> = \<lparr>w_buf = b @ x @ padding (length x)\<rparr>"
  by (simp add: pad_to_align_def pad_zeros_eq padding_add)

lemma rtattr_is_attr:
  "rtattr_layout (rtattr_builder (of_nat (4 + length x)) ty) @ x @ padding (length x) = enc_attr (ty, x)"
  by (simp add: rtattr_layout_def rtattr_builder_def enc_attr_def)

text \<open>A nested attribute: after \<open>nest_end\<close> the bytes since \<open>nest_start\<close> are one attribute.\<close>

lemma nest_end_attr:
  assumes "length b mod 4 = 0"
  shows "nest_end \<lparr>w_buf = b @ ne16 0 @ ne16 ty @ x\<rparr> (length b) = Some \<lparr>w_buf = b @ enc_attr (ty, x)\<rparr>"
proof -
  have "patch (length b) (ne16 (of_nat (4 + length x))) \<lparr>w_buf = b @ ne16 0 @ ne16 ty @ x\<rparr> =
      Some \<lparr>w_buf = b @ ne16 (of_nat (4 + length x)) @ ne16 ty @ x\<rparr>"
    by (simp add: patch_def)
  moreover have "pad_to_align \<lparr>w_buf = b @ ne16 (of_nat (4 + length x)) @ ne16 ty @ x\<rparr> =
      \<lparr>w_buf = b @ enc_attr (ty, x)\<rparr>"
  proof -
    have len: "length (b @ ne16 (of_nat (4 + length x)) @ ne16 ty @ x) = (length b + 4) + length x"
      by simp
    have "(length b + 4) mod 4 = 0" using assms by simp
    from padding_add [OF this] show ?thesis
      unfolding pad_to_align_def pad_zeros_eq by (simp only: len Writer.simps) (simp add: enc_attr_def)
  qed
  ultimately show ?thesis
    by (simp add: nest_end_def pos_def add.commute)
qed

lemma patch_len:
  "patch 0 (ne32 n) \<lparr>w_buf = nlmsghdr_layout (nlmsghdr_builder l t f s p) @ r\<rparr> =
   Some \<lparr>w_buf = nlmsghdr_layout (nlmsghdr_builder n t f s p) @ r\<rparr>"
  by (simp add: patch_def nlmsghdr_layout_def nlmsghdr_builder_def)

section \<open>Properties\<close>

text \<open>
  C40. \<open>pad_to_align\<close> ends, leaves what was written in place, appends at most three zero bytes
  and makes the length a multiple of four; it does nothing to an aligned buffer.
\<close>

theorem pad_to_align_aligns:
  "\<exists>z. w_buf (pad_to_align w) = w_buf w @ z \<and> set z \<subseteq> {0} \<and> length z < 4 \<and>
       pos (pad_to_align w) mod 4 = 0 \<and> (pos w mod 4 = 0 \<longrightarrow> z = [])"
proof (intro exI conjI)
  show "w_buf (pad_to_align w) = w_buf w @ padding (pos w)"
    by (simp add: pad_to_align_def pad_zeros_eq pos_def)
  show "set (padding (pos w)) \<subseteq> {0}"
    by (auto simp: padding_def)
  show "length (padding (pos w)) < 4"
    by (rule length_padding_less)
  show "pos (pad_to_align w) mod 4 = 0"
    by (simp add: pos_def pad_to_align_def pad_zeros_eq length_padding)
  show "pos w mod 4 = 0 \<longrightarrow> padding (pos w) = []"
    by simp
qed

lemma read_word_at:
  "check_bound n r \<Longrightarrow> read_word n r =
     Inr (le_decode (take n (drop (r_cursor r) (r_buf r))), r\<lparr>r_cursor := r_cursor r + n\<rparr>)"
  by (simp add: read_word_def)

text \<open>
  What the writer writes the reader reads: a \<open>u32\<close> written anywhere but at the end of the
  buffer is read back by \<open>read_u32\<close> at its position, and the cursor moves past it. At the end
  of the buffer \<open>check_bound\<close> compares with \<open><\<close> where \<open>\<le>\<close> is meant, so the last value
  of a buffer is refused as out of range although all of its bytes are there.
\<close>

theorem write_read_u32:
  "read_u32 \<lparr>r_buf = w_buf (snd (write_u32 n w)) @ rest, r_cursor = pos w\<rparr> =
     (if rest = [] then Inl ReadOutOfRange
      else Inr (n, \<lparr>r_buf = w_buf (snd (write_u32 n w)) @ rest, r_cursor = pos w + 4\<rparr>))"
proof (cases "rest = []")
  case True
  then show ?thesis
    by (simp add: read_u32_def read_word_def check_bound_def write_u32_def pos_def)
next
  case False
  then show ?thesis
    by (simp add: read_u32_def read_word_def check_bound_def write_u32_def pos_def le_roundtrip)
qed

lemma read_loop_result:
  "read_loop is val r = (val @ map (\<lambda>i. r_buf r ! i) is, r\<lparr>r_cursor := r_cursor r + length is\<rparr>)"
  by (induction "is" arbitrary: val r) simp_all

text \<open>
  \<open>read_bytes\<close> advances the cursor by \<open>n\<close> but returns the first \<open>n\<close> bytes of the
  buffer, not the \<open>n\<close> bytes at the cursor: the loop indexes with \<open>i\<close> where
  \<open>cursor + i\<close> is meant. The two agree exactly when these bytes are equal.
\<close>

theorem read_bytes_ignores_cursor:
  assumes "check_bound n r"
  shows "read_bytes n r = Inr (take n (r_buf r), r\<lparr>r_cursor := r_cursor r + n\<rparr>)"
proof -
  have "map (\<lambda>i. r_buf r ! i) [0..<n] = take n (r_buf r)"
    using assms by (intro nth_equalityI) (auto simp: check_bound_def)
  with assms show ?thesis by (simp add: read_bytes_def read_loop_result)
qed

end
