(* ===== verification/Network.thy ===== *)
theory Network
  imports Netlink
begin

text \<open>
  The second half of \<open>clonebox-core/src/network.rs\<close>: the six rtnetlink requests that make a
  container's network, the reading of the kernel's answers, and \<open>create_network\<close>, which sends
  them in order in the host's and then in the container's network namespace.

  A string is its UTF-8 bytes, one \<open>char\<close> per byte. The constants are those of \<open>libc\<close> on
  Linux.
\<close>

unbundle bit_operations_syntax

definition AF_UNSPEC :: u8 where "AF_UNSPEC = 0"
definition AF_INET :: u8 where "AF_INET = 2"
definition RTM_NEWLINK :: u16 where "RTM_NEWLINK = 16"
definition RTM_GETLINK :: u16 where "RTM_GETLINK = 18"
definition RTM_NEWADDR :: u16 where "RTM_NEWADDR = 20"
definition RTM_NEWROUTE :: u16 where "RTM_NEWROUTE = 24"
definition NLM_F_REQUEST :: u16 where "NLM_F_REQUEST = 1"
definition NLM_F_ACK :: u16 where "NLM_F_ACK = 4"
definition NLM_F_EXCL :: u16 where "NLM_F_EXCL = 0x200"
definition NLM_F_CREATE :: u16 where "NLM_F_CREATE = 0x400"
definition NLMSG_ERROR :: u16 where "NLMSG_ERROR = 2"
definition IFLA_IFNAME :: u16 where "IFLA_IFNAME = 3"
definition IFLA_LINKINFO :: u16 where "IFLA_LINKINFO = 18"
definition IFLA_INFO_KIND :: u16 where "IFLA_INFO_KIND = 1"
definition IFLA_INFO_DATA :: u16 where "IFLA_INFO_DATA = 2"
definition IFLA_NET_NS_FD :: u16 where "IFLA_NET_NS_FD = 28"
definition IFLA_EXT_MASK :: u16 where "IFLA_EXT_MASK = 29"
definition IFA_ADDRESS :: u16 where "IFA_ADDRESS = 1"
definition IFA_LOCAL :: u16 where "IFA_LOCAL = 2"
definition RTA_GATEWAY :: u16 where "RTA_GATEWAY = 5"
definition RT_SCOPE_UNIVERSE :: u8 where "RT_SCOPE_UNIVERSE = 0"
definition RT_TABLE_MAIN :: u8 where "RT_TABLE_MAIN = 254"
definition RTPROT_BOOT :: u8 where "RTPROT_BOOT = 3"
definition RTN_UNICAST :: u8 where "RTN_UNICAST = 1"
definition IFF_UP :: u32 where "IFF_UP = 1"

type_synonym ipv4 = "byte \<times> byte \<times> byte \<times> byte"

fun octets :: "ipv4 \<Rightarrow> byte list" where
  "octets (a, b, c, d) = [a, b, c, d]"

definition as_bytes :: "string \<Rightarrow> byte list" where
  "as_bytes s = map of_char s"

lemma length_as_bytes [simp]: "length (as_bytes s) = length s"
  by (simp add: as_bytes_def)

section \<open>The requests\<close>

text \<open>\<open>let total_len = w.pos() as u32; w.buf[0..4].copy_from_slice(...)\<close>\<close>

definition patch_total :: "Writer \<Rightarrow> Writer option" where
  "patch_total w = patch 0 (ne32 (of_nat (pos w))) w"

definition veth_msg :: "string \<Rightarrow> string \<Rightarrow> Writer \<Rightarrow> Writer option" where
  "veth_msg host peer w0 =
     (let kind = ''veth'';
          info_kind_rta = rtattr_builder (of_nat (2 * 2 + length kind)) IFLA_INFO_KIND;
          host_name_rta = rtattr_builder (of_nat (2 * 2 + length host + 1)) IFLA_IFNAME;
          peer_name_rta = rtattr_builder (of_nat (2 * 2 + length peer + 1)) IFLA_IFNAME;
          v1_ifinfo = ifinfomsg_builder AF_UNSPEC 0 0 0 0;
          v1p_ifinfo = ifinfomsg_builder 0 0 0 0 0;
          nlmsg = nlmsghdr_builder 0 RTM_NEWLINK (NLM_F_EXCL OR NLM_F_CREATE OR NLM_F_REQUEST OR NLM_F_ACK) 0 0;
          w = snd (write_struct nlmsghdr_layout nlmsg w0);
          w = snd (write_struct ifinfomsg_layout v1_ifinfo w);
          w = snd (write_struct rtattr_layout host_name_rta w);
          w = snd (write_bytes (as_bytes host) w);
          w = snd (write_u8 0 w);
          w = pad_to_align w;
          (link_info_pos, w) = nest_start w IFLA_LINKINFO;
          w = snd (write_struct rtattr_layout info_kind_rta w);
          w = snd (write_bytes (as_bytes kind) w);
          w = pad_to_align w;
          (info_data_pos, w) = nest_start w IFLA_INFO_DATA;
          (veth_info_pos, w) = nest_start w VETH_INFO_PEER;
          w = snd (write_struct ifinfomsg_layout v1p_ifinfo w);
          w = snd (write_struct rtattr_layout peer_name_rta w);
          w = snd (write_bytes (as_bytes peer) w);
          w = snd (write_u8 0 w);
          w = pad_to_align w
      in Option.bind (nest_end w veth_info_pos) (\<lambda>w.
         Option.bind (nest_end w info_data_pos) (\<lambda>w.
         Option.bind (nest_end w link_info_pos) patch_total)))"

definition up_msg :: "u32 \<Rightarrow> Writer \<Rightarrow> Writer option" where
  "up_msg iface_id w0 =
     (let h = nlmsghdr_builder 0 RTM_NEWLINK (NLM_F_REQUEST OR NLM_F_ACK) 0 0;
          ifi = ifinfomsg_builder AF_UNSPEC 0 iface_id IFF_UP 1;
          w = snd (write_struct nlmsghdr_layout h w0);
          w = snd (write_struct ifinfomsg_layout ifi w)
      in patch_total w)"

definition addr_msg :: "u32 \<Rightarrow> ipv4 \<Rightarrow> u8 \<Rightarrow> Writer \<Rightarrow> Writer option" where
  "addr_msg iface_id ip prefix_len w0 =
     (let h = nlmsghdr_builder 0 RTM_NEWADDR (NLM_F_REQUEST OR NLM_F_ACK OR NLM_F_EXCL OR NLM_F_CREATE) 0 0;
          ifaddr = ifaddrmsg_builder AF_INET prefix_len 0 RT_SCOPE_UNIVERSE iface_id;
          local_attr = rtattr_builder (of_nat (2 * 2 + 4)) IFA_LOCAL;
          address_attr = rtattr_builder (of_nat (2 * 2 + 4)) IFA_ADDRESS;
          ip_bytes = octets ip;
          w = snd (write_struct nlmsghdr_layout h w0);
          w = snd (write_struct ifaddrmsg_layout ifaddr w);
          w = snd (write_struct rtattr_layout local_attr w);
          w = snd (write_bytes ip_bytes w);
          w = snd (write_struct rtattr_layout address_attr w);
          w = snd (write_bytes ip_bytes w)
      in patch_total w)"

definition netns_msg :: "u32 \<Rightarrow> u32 \<Rightarrow> Writer \<Rightarrow> Writer option" where
  "netns_msg i_id child_fd w0 =
     (let nlmsg = nlmsghdr_builder 0 RTM_NEWLINK (NLM_F_REQUEST OR NLM_F_ACK) 0 0;
          ifi = ifinfomsg_builder AF_UNSPEC 0 i_id 0 0;
          netns_fd_attr = rtattr_builder (of_nat (2 * 2 + 4)) IFLA_NET_NS_FD;
          w = snd (write_struct nlmsghdr_layout nlmsg w0);
          w = snd (write_struct ifinfomsg_layout ifi w);
          w = snd (write_struct rtattr_layout netns_fd_attr w);
          w = snd (write_i32 child_fd w);
          w = pad_to_align w
      in patch_total w)"

definition getlink_msg :: "string \<Rightarrow> Writer \<Rightarrow> Writer option" where
  "getlink_msg i_name w0 =
     (let h = nlmsghdr_builder 0 RTM_GETLINK NLM_F_REQUEST 0 0;
          ifi = ifinfomsg_builder AF_UNSPEC 0 0 0 0;
          ext_mask_attr = rtattr_builder (of_nat (2 * 2 + 4)) IFLA_EXT_MASK;
          ext_mask_val = RTEXT_FILTER_VF OR RTEXT_FILTER_SKIP_STATS;
          ifname_attr = rtattr_builder (of_nat (2 * 2 + length i_name + 1)) IFLA_IFNAME;
          w = snd (write_struct nlmsghdr_layout h w0);
          w = snd (write_struct ifinfomsg_layout ifi w);
          w = snd (write_struct rtattr_layout ext_mask_attr w);
          w = snd (write_u32 ext_mask_val w);
          w = pad_to_align w;
          w = snd (write_struct rtattr_layout ifname_attr w);
          w = snd (write_bytes (as_bytes i_name) w);
          w = snd (write_u8 0 w);
          w = pad_to_align w
      in patch_total w)"

definition route_msg :: "ipv4 \<Rightarrow> Writer \<Rightarrow> Writer option" where
  "route_msg ip w0 =
     (let nlmsg = nlmsghdr_builder 0 RTM_NEWROUTE (NLM_F_REQUEST OR NLM_F_ACK OR NLM_F_EXCL OR NLM_F_CREATE) 0 0;
          rtm = rtmsg_builder AF_INET 0 0 0 RT_TABLE_MAIN RTPROT_BOOT RT_SCOPE_UNIVERSE RTN_UNICAST 0;
          rta = rtattr_builder (of_nat (2 * 2 + 4)) RTA_GATEWAY;
          ip_bytes = octets ip;
          w = snd (write_struct nlmsghdr_layout nlmsg w0);
          w = snd (write_struct rtmsg_layout rtm w);
          w = snd (write_struct rtattr_layout rta w);
          w = snd (write_bytes ip_bytes w);
          w = pad_to_align w
      in patch_total w)"

section \<open>What the requests say\<close>

text \<open>
  A netlink request as the protocol has it: a header whose length is that of the whole message,
  the fixed body and the attributes.
\<close>

definition nl_message :: "u16 \<Rightarrow> u16 \<Rightarrow> byte list \<Rightarrow> attr list \<Rightarrow> byte list" where
  "nl_message ty fl body attrs =
     nlmsghdr_layout (nlmsghdr_builder (of_nat (16 + length body + length (enc_attrs attrs))) ty fl 0 0) @
     body @ enc_attrs attrs"

lemma enc_attrs_simps [simp]: "enc_attrs [] = []" "enc_attrs (a # as) = enc_attr a @ enc_attrs as"
  by (simp_all add: enc_attrs_def)

lemma patch_total_message:
  "b = nlmsghdr_layout (nlmsghdr_builder 0 ty fl 0 0) @ body @ enc_attrs attrs \<Longrightarrow>
   patch_total \<lparr>w_buf = b\<rparr> = Some \<lparr>w_buf = nl_message ty fl body attrs\<rparr>"
  using patch_len [of "of_nat (16 + length body + length (enc_attrs attrs))" 0 ty fl 0 0 "body @ enc_attrs attrs"]
  by (simp add: patch_total_def pos_def nl_message_def nlhdr.enc_length add.assoc del: of_nat_add)

text \<open>An attribute of four bytes needs no padding.\<close>

lemma attr_word:
  "length x = 4 \<Longrightarrow> rtattr_layout (rtattr_builder 8 ty) @ x = enc_attr (ty, x)"
  using rtattr_is_attr [of x ty] by simp

lemma length_octets [simp]: "length (octets ip) = 4"
  by (cases ip) simp

definition c_str :: "string \<Rightarrow> byte list" where
  "c_str s = as_bytes s @ [0]"

lemma length_c_str [simp]: "length (c_str s) = Suc (length s)"
  by (simp add: c_str_def)

lemma enc_u8_zero: "ne8 (0 :: u8) = [0]"
  by simp

text \<open>A named attribute as the requests write it: header, bytes, terminator, padding.\<close>

lemma write_named_attr:
  assumes "length b mod 4 = 0"
  shows "pad_to_align (snd (write_u8 0 (snd (write_bytes (as_bytes s) (snd (write_struct rtattr_layout
           (rtattr_builder (of_nat (2 * 2 + length s + 1)) ty) \<lparr>w_buf = b\<rparr>)))))) =
         \<lparr>w_buf = b @ enc_attr (ty, c_str s)\<rparr>"
proof -
  let ?h = "rtattr_layout (rtattr_builder (of_nat (2 * 2 + length s + 1)) ty)"
  have "(length b + 4) mod 4 = 0" using assms by simp
  then have "length (b @ ?h) mod 4 = 0" by (simp add: rta.enc_length)
  from pad_to_align_attr [OF this, of "c_str s"] show ?thesis
    using rtattr_is_attr [of "c_str s" ty]
    by (simp add: write_u8_def write_bytes_def write_struct_def c_str_def enc_u8_zero)
qed

lemma write_word_attr:
  assumes "length x = 4"
  shows "snd (write_bytes x (snd (write_struct rtattr_layout (rtattr_builder (of_nat (2 * 2 + 4)) ty) \<lparr>w_buf = b\<rparr>))) =
         \<lparr>w_buf = b @ enc_attr (ty, x)\<rparr>"
  using attr_word [OF assms, of ty] by (simp add: write_bytes_def write_struct_def)

lemma pad_aligned: "length b mod 4 = 0 \<Longrightarrow> pad_to_align \<lparr>w_buf = b\<rparr> = \<lparr>w_buf = b\<rparr>"
  by (simp add: pad_to_align_def pad_zeros_eq)

lemma write_fixed: "snd (write_struct layout v \<lparr>w_buf = b\<rparr>) = \<lparr>w_buf = b @ layout v\<rparr>"
  by (simp add: write_struct_def write_bytes_def)

lemma write_word_as_bytes:
  "snd (write_u32 n w) = snd (write_bytes (ne32 n) w)" "snd (write_i32 n w) = snd (write_bytes (ne32 n) w)"
  by (simp_all add: write_u32_def write_i32_def write_bytes_def)

lemma aligned_append: "length b mod 4 = 0 \<Longrightarrow> length c mod 4 = 0 \<Longrightarrow> length (b @ c) mod 4 = 0"
  by (simp add: mod_add_eq [symmetric, of "length b"])

lemma aligned_layouts [simp]:
  "length (nlmsghdr_layout h) mod 4 = 0" "length (ifinfomsg_layout i) mod 4 = 0"
  "length (rtmsg_layout r) mod 4 = 0" "length (ifaddrmsg_layout a) mod 4 = 0"
  "length (rtattr_layout t) mod 4 = 0" "length (ne32 n) mod 4 = 0"
  by (simp_all add: nlhdr.enc_length ifinfo.enc_length rtmsg.enc_length ifaddr.enc_length rta.enc_length)

abbreviation empty_writer :: Writer where
  "empty_writer \<equiv> \<lparr>w_buf = []\<rparr>"

abbreviation ack_flags :: u16 where
  "ack_flags \<equiv> NLM_F_REQUEST OR NLM_F_ACK"

abbreviation create_flags :: u16 where
  "create_flags \<equiv> NLM_F_REQUEST OR NLM_F_ACK OR NLM_F_EXCL OR NLM_F_CREATE"

lemma up_msg_message:
  "up_msg i empty_writer = Some \<lparr>w_buf =
     nl_message RTM_NEWLINK ack_flags (ifinfomsg_layout (ifinfomsg_builder AF_UNSPEC 0 i IFF_UP 1)) []\<rparr>"
  unfolding up_msg_def Let_def write_fixed by (rule patch_total_message) simp

lemma addr_msg_message:
  "addr_msg i ip n empty_writer = Some \<lparr>w_buf =
     nl_message RTM_NEWADDR create_flags
       (ifaddrmsg_layout (ifaddrmsg_builder AF_INET n 0 RT_SCOPE_UNIVERSE i))
       [(IFA_LOCAL, octets ip), (IFA_ADDRESS, octets ip)]\<rparr>"
  unfolding addr_msg_def Let_def write_fixed [of nlmsghdr_layout] write_fixed [of ifaddrmsg_layout]
    write_word_attr [OF length_octets]
  by (rule patch_total_message) simp

lemma netns_msg_message:
  "netns_msg i fd empty_writer = Some \<lparr>w_buf =
     nl_message RTM_NEWLINK ack_flags (ifinfomsg_layout (ifinfomsg_builder AF_UNSPEC 0 i 0 0))
       [(IFLA_NET_NS_FD, ne32 fd)]\<rparr>"
proof -
  have four: "length (ne32 fd) = 4" by simp
  show ?thesis
    unfolding netns_msg_def Let_def write_fixed [of nlmsghdr_layout] write_fixed [of ifinfomsg_layout]
      write_word_as_bytes write_word_attr [OF four]
    by (subst pad_aligned) (intro aligned_append, simp_all add: patch_total_message)
qed

lemma route_msg_message:
  "route_msg ip empty_writer = Some \<lparr>w_buf =
     nl_message RTM_NEWROUTE create_flags
       (rtmsg_layout (rtmsg_builder AF_INET 0 0 0 RT_TABLE_MAIN RTPROT_BOOT RT_SCOPE_UNIVERSE RTN_UNICAST 0))
       [(RTA_GATEWAY, octets ip)]\<rparr>"
  unfolding route_msg_def Let_def write_fixed [of nlmsghdr_layout] write_fixed [of rtmsg_layout]
    write_word_attr [OF length_octets]
  by (subst pad_aligned) (intro aligned_append, simp_all add: patch_total_message)

lemma getlink_msg_message:
  "getlink_msg name empty_writer = Some \<lparr>w_buf =
     nl_message RTM_GETLINK NLM_F_REQUEST (ifinfomsg_layout (ifinfomsg_builder AF_UNSPEC 0 0 0 0))
       [(IFLA_EXT_MASK, ne32 (RTEXT_FILTER_VF OR RTEXT_FILTER_SKIP_STATS)), (IFLA_IFNAME, c_str name)]\<rparr>"
proof -
  have four: "length (ne32 n) = 4" for n by simp
  show ?thesis
    unfolding getlink_msg_def Let_def write_fixed [of nlmsghdr_layout] write_fixed [of ifinfomsg_layout]
      write_word_as_bytes write_word_attr [OF four]
    apply (subst pad_aligned)
     apply (intro aligned_append; simp)
    apply (subst write_named_attr)
     apply (intro aligned_append; simp)
    apply (rule patch_total_message)
    apply simp
    done
qed

text \<open>The veth request nests its attributes three deep; the peer's name is in the innermost one.\<close>

definition veth_attrs :: "string \<Rightarrow> string \<Rightarrow> attr list" where
  "veth_attrs host peer =
     [(IFLA_IFNAME, c_str host),
      (IFLA_LINKINFO, enc_attrs
         [(IFLA_INFO_KIND, as_bytes ''veth''),
          (IFLA_INFO_DATA, enc_attrs
             [(VETH_INFO_PEER, ifinfomsg_layout (ifinfomsg_builder 0 0 0 0 0) @
                enc_attrs [(IFLA_IFNAME, c_str peer)])])])]"

lemma nest_start_buf: "nest_start \<lparr>w_buf = b\<rparr> ty = (length b, \<lparr>w_buf = b @ ne16 0 @ ne16 ty\<rparr>)"
  by (simp add: nest_start_def pos_def write_u16_def)

lemma nest_end_at:
  assumes "length b mod 4 = 0" "p = length b" "c = b @ ne16 0 @ ne16 ty @ x"
  shows "nest_end \<lparr>w_buf = c\<rparr> p = Some \<lparr>w_buf = b @ enc_attr (ty, x)\<rparr>"
  using nest_end_attr [OF assms(1)] assms(2,3) by simp

lemma aligned_nest: "length (ne16 a @ ne16 b) mod 4 = 0"
  by simp

lemma write_kind_attr:
  assumes "length b mod 4 = 0"
  shows "pad_to_align (snd (write_bytes (as_bytes ''veth'') (snd (write_struct rtattr_layout
           (rtattr_builder (of_nat (2 * 2 + length ''veth'')) ty) \<lparr>w_buf = b\<rparr>)))) =
         \<lparr>w_buf = b @ enc_attr (ty, as_bytes ''veth'')\<rparr>"
proof -
  have four: "length (as_bytes ''veth'') = 4" "length ''veth'' = 4" by simp_all
  show ?thesis
    unfolding four(2) write_word_attr [OF four(1)]
    using assms by (intro pad_aligned aligned_append) simp_all
qed

lemma veth_msg_message:
  "veth_msg host peer empty_writer = Some \<lparr>w_buf =
     nl_message RTM_NEWLINK (NLM_F_EXCL OR NLM_F_CREATE OR NLM_F_REQUEST OR NLM_F_ACK)
       (ifinfomsg_layout (ifinfomsg_builder AF_UNSPEC 0 0 0 0)) (veth_attrs host peer)\<rparr>"
proof -
  let ?h = "nlmsghdr_layout (nlmsghdr_builder 0 RTM_NEWLINK (NLM_F_EXCL OR NLM_F_CREATE OR NLM_F_REQUEST OR NLM_F_ACK) 0 0)"
  let ?i = "ifinfomsg_layout (ifinfomsg_builder AF_UNSPEC 0 0 0 0)"
  let ?p = "ifinfomsg_layout (ifinfomsg_builder 0 0 0 0 0)"
  define b1 where "b1 = ?h @ ?i @ enc_attr (IFLA_IFNAME, c_str host)"
  define b2 where "b2 = (b1 @ ne16 0 @ ne16 IFLA_LINKINFO) @ enc_attr (IFLA_INFO_KIND, as_bytes ''veth'')"
  define b3 where "b3 = b2 @ ne16 0 @ ne16 IFLA_INFO_DATA"
  define b4 where "b4 = ((b3 @ ne16 0 @ ne16 VETH_INFO_PEER) @ ?p) @ enc_attr (IFLA_IFNAME, c_str peer)"
  have a1: "length b1 mod 4 = 0" unfolding b1_def by (intro aligned_append; simp)
  have a2: "length b2 mod 4 = 0" unfolding b2_def by (intro aligned_append a1 aligned_nest; simp)
  have a3: "length b3 mod 4 = 0" unfolding b3_def by (intro aligned_append a2 aligned_nest)
  have w1: "pad_to_align (snd (write_u8 0 (snd (write_bytes (as_bytes host) (snd (write_struct rtattr_layout
      (rtattr_builder (of_nat (2 * 2 + length host + 1)) IFLA_IFNAME) \<lparr>w_buf = ([] @ ?h) @ ?i\<rparr>)))))) = \<lparr>w_buf = b1\<rparr>"
    unfolding b1_def by (subst write_named_attr) (intro aligned_append, simp_all)
  have w2: "pad_to_align (snd (write_bytes (as_bytes ''veth'') (snd (write_struct rtattr_layout
      (rtattr_builder (of_nat (2 * 2 + length ''veth'')) IFLA_INFO_KIND) \<lparr>w_buf = b1 @ ne16 0 @ ne16 IFLA_LINKINFO\<rparr>)))) =
      \<lparr>w_buf = b2\<rparr>"
    unfolding b2_def by (rule write_kind_attr) (intro aligned_append a1 aligned_nest)
  have w4: "pad_to_align (snd (write_u8 0 (snd (write_bytes (as_bytes peer) (snd (write_struct rtattr_layout
      (rtattr_builder (of_nat (2 * 2 + length peer + 1)) IFLA_IFNAME)
      \<lparr>w_buf = (b3 @ ne16 0 @ ne16 VETH_INFO_PEER) @ ?p\<rparr>)))))) = \<lparr>w_buf = b4\<rparr>"
    unfolding b4_def by (rule write_named_attr) (intro aligned_append a3 aligned_nest; simp)
  let ?x4 = "?p @ enc_attr (IFLA_IFNAME, c_str peer)"
  let ?x3 = "enc_attr (VETH_INFO_PEER, ?x4)"
  let ?x2 = "enc_attr (IFLA_INFO_KIND, as_bytes ''veth'') @ enc_attr (IFLA_INFO_DATA, ?x3)"
  have n4: "nest_end \<lparr>w_buf = b4\<rparr> (length b3) = Some \<lparr>w_buf = b3 @ ?x3\<rparr>"
    by (rule nest_end_at [OF a3 refl]) (simp add: b4_def)
  have n3: "nest_end \<lparr>w_buf = b3 @ ?x3\<rparr> (length b2) = Some \<lparr>w_buf = b2 @ enc_attr (IFLA_INFO_DATA, ?x3)\<rparr>"
    by (rule nest_end_at [OF a2 refl]) (simp add: b3_def)
  have n2: "nest_end \<lparr>w_buf = b2 @ enc_attr (IFLA_INFO_DATA, ?x3)\<rparr> (length b1) =
      Some \<lparr>w_buf = b1 @ enc_attr (IFLA_LINKINFO, ?x2)\<rparr>"
    by (rule nest_end_at [OF a1 refl]) (simp add: b2_def)
  have t: "patch_total \<lparr>w_buf = b1 @ enc_attr (IFLA_LINKINFO, ?x2)\<rparr> = Some \<lparr>w_buf =
      nl_message RTM_NEWLINK (NLM_F_EXCL OR NLM_F_CREATE OR NLM_F_REQUEST OR NLM_F_ACK) ?i (veth_attrs host peer)\<rparr>"
    by (rule patch_total_message) (simp add: b1_def veth_attrs_def)
  show ?thesis
    unfolding veth_msg_def Let_def write_fixed [of nlmsghdr_layout] write_fixed [of ifinfomsg_layout] w1
      nest_start_buf prod.case w2 b3_def [symmetric] w4 n4 n3 n2 t Option.bind.simps
    by simp
qed

section \<open>Sending and receiving\<close>

text \<open>\<open>recv\<close> fills the front of a zeroed array of 4096 bytes; a longer datagram is cut.\<close>

definition recv_buf :: "byte list \<Rightarrow> byte list" where
  "recv_buf d = take 4096 (d @ replicate 4096 0)"

definition nl_recv :: "('k) kernel_scheme \<Rightarrow> byte list core" where
  "nl_recv K w =
     bindE (map_err (\<lambda>e. from_network (RecvFailure e)) (nix_call K Op_nl_recv))
       (\<lambda>_. ret (recv_buf (k_recv K w))) w"

text \<open>
  The check both readers of an answer make. \<open>-err.error\<close> overflows on the least \<open>i32\<close>, which
  is a panic in the build the documentation describes.
\<close>

definition nl_answer :: "('k) kernel_scheme \<Rightarrow> byte list \<Rightarrow> unit core" where
  "nl_answer K b =
     (if nlmsg_type (nlmsghdr_parse (take 16 b)) = NLMSG_ERROR
      then (let err = le_decode (take 4 (drop 16 b)) :: u32 in
            if err \<noteq> 0
            then (if err = 0x80000000 then stop_with Panicked
                  else throw (from_network (NetlinkFailure (''netlink error: '' @ k_io_text K (Os (- sint err))))))
            else ret ())
      else ret ())"

definition recv_ack :: "('k) kernel_scheme \<Rightarrow> unit core" where
  "recv_ack K = bindE (nl_recv K) (nl_answer K)"

text \<open>\<open>send(...)?; w.flush();\<close> the writer is returned, a failed slice is a panic.\<close>

definition nl_send :: "('k) kernel_scheme \<Rightarrow> Writer option \<Rightarrow> Writer core" where
  "nl_send K m =
     (case m of
        None \<Rightarrow> stop_with Panicked
      | Some w \<Rightarrow>
          thenE (map_err (\<lambda>e. from_network (SendFailure e)) (nix_call K (Op_nl_send (w_buf w)))) (ret (flush w)))"

definition create_netlink_socket :: "('k) kernel_scheme \<Rightarrow> unit core" where
  "create_netlink_socket K =
     thenE (map_err (\<lambda>e. from_network (network_error.CreateSocketFailure e)) (nix_call K Op_socket_netlink))
           (map_err (\<lambda>e. from_network (network_error.BindFailure e)) (nix_call K Op_bind_netlink))"

definition create_veth_pair :: "('k) kernel_scheme \<Rightarrow> Writer \<Rightarrow> string \<Rightarrow> string \<Rightarrow> Writer core" where
  "create_veth_pair K w host peer = bindE (nl_send K (veth_msg host peer w)) (\<lambda>w. thenE (recv_ack K) (ret w))"

definition set_interface_up :: "('k) kernel_scheme \<Rightarrow> Writer \<Rightarrow> u32 \<Rightarrow> Writer core" where
  "set_interface_up K w iface_id = bindE (nl_send K (up_msg iface_id w)) (\<lambda>w. thenE (recv_ack K) (ret w))"

definition set_ip_addr :: "('k) kernel_scheme \<Rightarrow> Writer \<Rightarrow> u32 \<Rightarrow> ipv4 \<Rightarrow> u8 \<Rightarrow> Writer core" where
  "set_ip_addr K w iface_id ip prefix_len =
     bindE (nl_send K (addr_msg iface_id ip prefix_len w)) (\<lambda>w. thenE (recv_ack K) (ret w))"

definition move_to_netns :: "('k) kernel_scheme \<Rightarrow> Writer \<Rightarrow> u32 \<Rightarrow> i32 \<Rightarrow> Writer core" where
  "move_to_netns K w i_id child_fd =
     bindE (nl_send K (netns_msg i_id child_fd w)) (\<lambda>w. thenE (recv_ack K) (ret w))"

definition get_interface_index :: "('k) kernel_scheme \<Rightarrow> Writer \<Rightarrow> string \<Rightarrow> (u32 \<times> Writer) core" where
  "get_interface_index K w i_name =
     bindE (nl_send K (getlink_msg i_name w)) (\<lambda>w.
     bindE (nl_recv K) (\<lambda>b.
     thenE (nl_answer K b)
       (ret (ifi_index (ifinfomsg_parse (take 16 (drop 16 b))), w))))"

definition add_default_route :: "('k) kernel_scheme \<Rightarrow> Writer \<Rightarrow> ipv4 \<Rightarrow> Writer core" where
  "add_default_route K w ip = bindE (nl_send K (route_msg ip w)) (\<lambda>w. thenE (recv_ack K) (ret w))"

section \<open>create\_network\<close>

text \<open>\<open>&s[..n]\<close> panics unless \<open>n\<close> is a character boundary: not a UTF-8 continuation byte.\<close>

definition is_char_boundary :: "string \<Rightarrow> nat \<Rightarrow> bool" where
  "is_char_boundary s n \<longleftrightarrow>
     n = 0 \<or> n = length s \<or>
     (n < length s \<and> (let b = of_char (s ! n) :: nat in b < 128 \<or> 192 \<le> b))"

definition slice_to :: "string \<Rightarrow> nat \<Rightarrow> string option" where
  "slice_to s n = (if is_char_boundary s n then Some (take n s) else None)"

definition setns_net :: "('k) kernel_scheme \<Rightarrow> string \<Rightarrow> string \<Rightarrow> unit core" where
  "setns_net K path what =
     map_err (\<lambda>_. from_namespace (FailedToEnterNamespace what)) (nix_call K (Op_setns path ''net''))"

definition host_address :: ipv4 where "host_address = (10, 0, 0, 1)"
definition peer_address :: ipv4 where "peer_address = (10, 0, 0, 2)"

definition iptables_args :: "string list" where
  "iptables_args = [''-t'', ''nat'', ''-A'', ''POSTROUTING'', ''-s'', ''10.0.0.0/24'', ''-o'', ''ens2'',
     ''-j'', ''MASQUERADE'']"

definition host_ns_path :: string where "host_ns_path = ''/proc/self/ns/net''"

definition peer_ns_path :: "i32 \<Rightarrow> string" where
  "peer_ns_path pid = ''/proc/'' @ show_int (sint pid) @ ''/ns/net''"

definition create_network :: "('k) kernel_scheme \<Rightarrow> string \<Rightarrow> i32 \<Rightarrow> unit core" where
  "create_network K container_id child_pid =
     thenE (map_err (\<lambda>e. from_network (network_error.OpenFailure e)) (fs_open K host_ns_path))
    (bindE (map_err (\<lambda>e. from_network (network_error.OpenFailure e)) (fs_open K (peer_ns_path child_pid)))
      (\<lambda>peer_ns_fd.
     case slice_to container_id (min (length container_id) 9) of
       None \<Rightarrow> stop_with Panicked
     | Some host \<Rightarrow>
     let peer = host @ ''_peer'' in
     thenE (create_netlink_socket K)
    (bindE (create_veth_pair K \<lparr>w_buf = []\<rparr> host peer) (\<lambda>w.
     bindE (get_interface_index K w host) (\<lambda>(host_i_id, w).
     bindE (set_ip_addr K w host_i_id host_address 24) (\<lambda>w.
     bindE (set_interface_up K w host_i_id) (\<lambda>w.
     bindE (get_interface_index K w peer) (\<lambda>(child_i_id, w).
     bindE (move_to_netns K w child_i_id peer_ns_fd) (\<lambda>w.
     thenE (setns_net K (peer_ns_path child_pid) ''peer_ns_fd'')
    (thenE (create_netlink_socket K)
    (bindE (set_ip_addr K w child_i_id peer_address 24) (\<lambda>w.
     bindE (set_interface_up K w child_i_id) (\<lambda>w.
     bindE (set_interface_up K w 1) (\<lambda>w.
     bindE (add_default_route K w host_address) (\<lambda>w.
     thenE (setns_net K host_ns_path ''host_ns_fd'')
    (thenE (map_err (\<lambda>e. from_network (network_error.WriteFailure e))
              (fs_write K ''/proc/sys/net/ipv4/ip_forward'' ''1''))
           (map_err (\<lambda>e. from_network (CommandFailure e))
              (io_call K (Op_command ''iptables'' iptables_args)))))))))))))))))))"

section \<open>What a successful set-up sends\<close>

lemma nl_answer_ok: "nl_answer K b w = (Inr u, w') \<Longrightarrow> w' = w"
  by (auto simp: nl_answer_def Let_def comp_simps split: if_splits)

lemma nl_recv_ok: "nl_recv K w = (Inr b, w') \<Longrightarrow> w' = log_op Op_nl_recv True w \<and> b = recv_buf (k_recv K w)"
  by (auto simp: nl_recv_def comp_ok nix_call_ok comp_simps)

lemma nl_send_ok:
  "nl_send K (Some m) w = (Inr m', w') \<Longrightarrow> w' = log_op (Op_nl_send (w_buf m)) True w \<and> m' = empty_writer"
  by (auto simp: nl_send_def comp_ok nix_call_ok comp_simps flush_def)

definition exchange :: "byte list \<Rightarrow> (sysop \<times> bool) list" where
  "exchange b = [(Op_nl_send b, True), (Op_nl_recv, True)]"

lemma request_ok:
  assumes "bindE (nl_send K (Some m)) (\<lambda>w. thenE (recv_ack K) (ret w)) w = (Inr m', w')"
  shows "m' = empty_writer \<and> hist w' = hist w @ exchange (w_buf m)"
  using assms
  by (auto simp: comp_ok comp_simps recv_ack_def exchange_def dest!: nl_send_ok nl_recv_ok nl_answer_ok)

definition veth_request :: "string \<Rightarrow> string \<Rightarrow> byte list" where
  "veth_request host peer = nl_message RTM_NEWLINK (NLM_F_EXCL OR NLM_F_CREATE OR NLM_F_REQUEST OR NLM_F_ACK)
     (ifinfomsg_layout (ifinfomsg_builder AF_UNSPEC 0 0 0 0)) (veth_attrs host peer)"

definition up_request :: "u32 \<Rightarrow> byte list" where
  "up_request i = nl_message RTM_NEWLINK ack_flags (ifinfomsg_layout (ifinfomsg_builder AF_UNSPEC 0 i IFF_UP 1)) []"

definition addr_request :: "u32 \<Rightarrow> ipv4 \<Rightarrow> u8 \<Rightarrow> byte list" where
  "addr_request i ip n = nl_message RTM_NEWADDR create_flags
     (ifaddrmsg_layout (ifaddrmsg_builder AF_INET n 0 RT_SCOPE_UNIVERSE i))
     [(IFA_LOCAL, octets ip), (IFA_ADDRESS, octets ip)]"

definition netns_request :: "u32 \<Rightarrow> u32 \<Rightarrow> byte list" where
  "netns_request i fd = nl_message RTM_NEWLINK ack_flags (ifinfomsg_layout (ifinfomsg_builder AF_UNSPEC 0 i 0 0))
     [(IFLA_NET_NS_FD, ne32 fd)]"

definition getlink_request :: "string \<Rightarrow> byte list" where
  "getlink_request name = nl_message RTM_GETLINK NLM_F_REQUEST (ifinfomsg_layout (ifinfomsg_builder AF_UNSPEC 0 0 0 0))
     [(IFLA_EXT_MASK, ne32 (RTEXT_FILTER_VF OR RTEXT_FILTER_SKIP_STATS)), (IFLA_IFNAME, c_str name)]"

definition route_request :: "ipv4 \<Rightarrow> byte list" where
  "route_request ip = nl_message RTM_NEWROUTE create_flags
     (rtmsg_layout (rtmsg_builder AF_INET 0 0 0 RT_TABLE_MAIN RTPROT_BOOT RT_SCOPE_UNIVERSE RTN_UNICAST 0))
     [(RTA_GATEWAY, octets ip)]"

lemmas message_eqs = veth_msg_message [folded veth_request_def] up_msg_message [folded up_request_def]
  addr_msg_message [folded addr_request_def] netns_msg_message [folded netns_request_def]
  getlink_msg_message [folded getlink_request_def] route_msg_message [folded route_request_def]

lemma requests_ok:
  "create_veth_pair K empty_writer host peer w = (Inr m, w') \<Longrightarrow>
     m = empty_writer \<and> hist w' = hist w @ exchange (veth_request host peer)"
  "set_interface_up K empty_writer i w = (Inr m, w') \<Longrightarrow>
     m = empty_writer \<and> hist w' = hist w @ exchange (up_request i)"
  "set_ip_addr K empty_writer i ip n w = (Inr m, w') \<Longrightarrow>
     m = empty_writer \<and> hist w' = hist w @ exchange (addr_request i ip n)"
  "move_to_netns K empty_writer i fd w = (Inr m, w') \<Longrightarrow>
     m = empty_writer \<and> hist w' = hist w @ exchange (netns_request i fd)"
  "add_default_route K empty_writer ip w = (Inr m, w') \<Longrightarrow>
     m = empty_writer \<and> hist w' = hist w @ exchange (route_request ip)"
  unfolding create_veth_pair_def set_interface_up_def set_ip_addr_def move_to_netns_def
    add_default_route_def message_eqs
  by (drule request_ok, simp)+

lemma get_interface_index_ok:
  "get_interface_index K empty_writer name w = (Inr (i, m), w') \<Longrightarrow>
     m = empty_writer \<and> hist w' = hist w @ exchange (getlink_request name)"
  unfolding get_interface_index_def message_eqs
  by (auto simp: comp_ok comp_simps exchange_def dest!: nl_send_ok nl_recv_ok nl_answer_ok)

lemma netlink_socket_ok:
  "create_netlink_socket K w = (Inr u, w') \<Longrightarrow>
     hist w' = hist w @ [(Op_socket_netlink, True), (Op_bind_netlink, True)]"
  by (auto simp: create_netlink_socket_def comp_ok nix_call_ok)

lemma setns_net_ok: "setns_net K p what w = (Inr u, w') \<Longrightarrow> hist w' = hist w @ [(Op_setns p ''net'', True)]"
  by (auto simp: setns_net_def comp_ok nix_call_ok)

lemma fs_open_hist: "fs_open K p w = (Inr fd, w') \<Longrightarrow> hist w' = hist w @ [(Op_open p, True)]"
  by (auto simp: fs_open_def Let_def bindE_ok io_call_ok comp_simps split: if_splits option.splits node.splits)

lemma fs_write_hist:
  "fs_write K p s w = (Inr u, w') \<Longrightarrow> hist w' = hist w @ [(Op_create p, True), (Op_write p s, True)]"
  by (auto simp: fs_write_def fs_create_def fs_write_all_ok Let_def thenE_ok bindE_ok io_call_ok
      split: if_splits option.splits node.splits sum.splits prod.splits)

definition nl_open :: "(sysop \<times> bool) list" where
  "nl_open = [(Op_socket_netlink, True), (Op_bind_netlink, True)]"

definition network_script :: "string \<Rightarrow> i32 \<Rightarrow> u32 \<Rightarrow> u32 \<Rightarrow> u32 \<Rightarrow> (sysop \<times> bool) list" where
  "network_script host pid hi ci fd =
     [(Op_open host_ns_path, True), (Op_open (peer_ns_path pid), True)] @ nl_open @
     exchange (veth_request host (host @ ''_peer'')) @
     exchange (getlink_request host) @ exchange (addr_request hi host_address 24) @ exchange (up_request hi) @
     exchange (getlink_request (host @ ''_peer'')) @ exchange (netns_request ci fd) @
     [(Op_setns (peer_ns_path pid) ''net'', True)] @ nl_open @
     exchange (addr_request ci peer_address 24) @ exchange (up_request ci) @ exchange (up_request 1) @
     exchange (route_request host_address) @
     [(Op_setns host_ns_path ''net'', True),
      (Op_create ''/proc/sys/net/ipv4/ip_forward'', True), (Op_write ''/proc/sys/net/ipv4/ip_forward'' ''1'', True),
      (Op_command ''iptables'' iptables_args, True)]"

section \<open>Framing\<close>

lemma keeps_nl_recv [frames]: "keeps S (nl_recv K)"
  unfolding keeps_def nl_recv_def
  by (auto simp: bindE_def map_err_def nix_call_def comp_simps split: option.splits)

lemma keeps_nl [frames]: "keeps S (nl_answer K b)" "keeps S (nl_send K m)" "keeps S (recv_ack K)"
  unfolding nl_answer_def nl_send_def recv_ack_def Let_def by (intro frames | simp add: nl_answer_def Let_def)+

lemma keeps_requests [frames]:
  "keeps S (create_netlink_socket K)" "keeps S (create_veth_pair K m host peer)" "keeps S (set_interface_up K m i)"
  "keeps S (set_ip_addr K m i ip n)" "keeps S (move_to_netns K m i fd)" "keeps S (get_interface_index K m name)"
  "keeps S (add_default_route K m ip)" "keeps S (setns_net K p what)"
  unfolding create_netlink_socket_def create_veth_pair_def set_interface_up_def set_ip_addr_def
    move_to_netns_def get_interface_index_def add_default_route_def setns_net_def
  by (intro frames)+

lemma keeps_case_prod [frames]: "(\<And>a b. keeps S (f a b)) \<Longrightarrow> keeps S (case p of (a, b) \<Rightarrow> f a b)"
  by (cases p) simp

lemma ip_forward_pseudo [simp]: "is_pseudo (norm_path cwd ''/proc/sys/net/ipv4/ip_forward'')"
  by (simp add: norm_path_def is_pseudo_def)

lemma keeps_create_network [frames]: "keeps S (create_network K cid pid)"
  unfolding create_network_def Let_def by (intro frames) simp

section \<open>Properties\<close>

text \<open>
  C13. A successful \<open>create_network\<close> makes exactly this sequence of calls, with these bytes: it
  creates the veth pair named after the first nine bytes of the id, gives the host end
  10.0.0.1/24 and brings it up, moves the peer into the child's namespace, enters that namespace,
  gives the peer 10.0.0.2/24, brings it and the loopback up, routes through 10.0.0.1, returns to
  the host's namespace and only then enables forwarding and adds the NAT rule. The address and
  the flags go to the interface index the kernel returned for that name, and both names fit the
  kernel's 16-byte limit.
\<close>

theorem create_network_script:
  assumes "create_network K cid pid w = (Inr u, w')"
  shows "\<exists>hi ci fd. length (take 9 cid @ ''_peer'') < 16 \<and>
    hist w' = hist w @ network_script (take 9 cid) pid hi ci fd"
proof -
  from assms obtain host where host: "slice_to cid (min (length cid) 9) = Some host"
    by (auto simp: create_network_def comp_ok comp_simps split: option.splits)
  then have *: "host = take 9 cid"
    by (auto simp: slice_to_def min_def split: if_splits)
  have "\<exists>hi ci fd. hist w' = hist w @ network_script host pid hi ci fd"
    using assms unfolding create_network_def host Let_def option.case comp_ok
    apply (elim exE conjE)
    apply (clarsimp simp: comp_ok io_call_ok dest!: requests_ok get_interface_index_ok netlink_socket_ok setns_net_ok
        fs_open_hist fs_write_hist)
    apply (unfold network_script_def nl_open_def)
    apply simp
    apply blast
    done
  moreover have "length (take 9 cid @ ''_peer'') < 16" by simp
  ultimately show ?thesis using * by blast
qed

lemma nl_message_header:
  assumes "16 + length body + length (enc_attrs attrs) < 2 ^ 32"
  shows "unat (nlmsg_len (nlmsghdr_parse (take 16 (nl_message ty fl body attrs)))) = length (nl_message ty fl body attrs)"
    and "drop (16 + length body) (nl_message ty fl body attrs) = enc_attrs attrs"
    and "nlmsg_type (nlmsghdr_parse (take 16 (nl_message ty fl body attrs))) = ty"
proof -
  have "length (nl_message ty fl body attrs) = 16 + length body + length (enc_attrs attrs)"
    by (simp add: nl_message_def nlhdr.enc_length)
  moreover have "nlmsghdr_parse (take 16 (nl_message ty fl body attrs)) =
      nlmsghdr_builder (of_nat (16 + length body + length (enc_attrs attrs))) ty fl 0 0"
    unfolding nl_message_def by (rule nlhdr.dec_front)
  moreover have "unat (of_nat (16 + length body + length (enc_attrs attrs)) :: u32) =
      16 + length body + length (enc_attrs attrs)"
    using assms by (simp only: unat_of_nat) simp
  ultimately show "unat (nlmsg_len (nlmsghdr_parse (take 16 (nl_message ty fl body attrs)))) =
      length (nl_message ty fl body attrs)"
    and "nlmsg_type (nlmsghdr_parse (take 16 (nl_message ty fl body attrs))) = ty"
    by (simp_all only: nlmsghdr_builder_def nlmsghdr.simps)
  show "drop (16 + length body) (nl_message ty fl body attrs) = enc_attrs attrs"
    by (simp add: nl_message_def nlhdr.enc_length)
qed

lemma length_enc_attr_le: "length (enc_attr a) \<le> length (snd a) + 7"
  by (simp add: length_enc_attr align4_pad)

lemma length_nl_message_mod: "length body mod 4 = 0 \<Longrightarrow> length (nl_message ty fl body attrs) mod 4 = 0"
  unfolding nl_message_def by (intro aligned_append) simp_all

text \<open>
  C24. The request for a veth pair says what it means: for interface names that fit the kernel's
  limit, the message \<open>create_veth_pair\<close> builds has its own length in its header, is a multiple
  of four bytes long, and a receiver that parses its attributes finds the host's name, the kind
  \<open>veth\<close> and, three levels down, the peer's name.
\<close>

theorem veth_msg_decodes:
  assumes "length host < 16" "length peer < 16"
  shows "\<exists>m info data pr.
    veth_msg host peer \<lparr>w_buf = []\<rparr> = Some \<lparr>w_buf = m\<rparr> \<and> length m mod 4 = 0 \<and>
    unat (nlmsg_len (nlmsghdr_parse (take 16 m))) = length m \<and>
    parse_attrs (drop 32 m) = Some [(IFLA_IFNAME, c_str host), (IFLA_LINKINFO, info)] \<and>
    parse_attrs info = Some [(IFLA_INFO_KIND, as_bytes ''veth''), (IFLA_INFO_DATA, data)] \<and>
    parse_attrs data = Some [(VETH_INFO_PEER, pr)] \<and>
    parse_attrs (drop 16 pr) = Some [(IFLA_IFNAME, c_str peer)]"
proof -
  define name_attr where "name_attr = (IFLA_IFNAME, c_str peer)"
  define pr where "pr = ifinfomsg_layout (ifinfomsg_builder 0 0 0 0 0) @ enc_attrs [name_attr]"
  define data where "data = enc_attrs [(VETH_INFO_PEER, pr)]"
  define kind_attr where "kind_attr = (IFLA_INFO_KIND, as_bytes ''veth'')"
  define info where "info = enc_attrs [kind_attr, (IFLA_INFO_DATA, data)]"
  define attrs where "attrs = [(IFLA_IFNAME, c_str host), (IFLA_LINKINFO, info)]"
  have pr: "length pr \<le> 39" "length data \<le> 46" "length info \<le> 64" "length (enc_attrs attrs) \<le> 94"
    using length_enc_attr_le [of name_attr] length_enc_attr_le [of "(VETH_INFO_PEER, pr)"]
      length_enc_attr_le [of kind_attr] length_enc_attr_le [of "(IFLA_INFO_DATA, data)"]
      length_enc_attr_le [of "(IFLA_IFNAME, c_str host)"] length_enc_attr_le [of "(IFLA_LINKINFO, info)"] assms
    by (simp_all add: pr_def data_def info_def attrs_def name_attr_def kind_attr_def ifinfo.enc_length)
  let ?body = "ifinfomsg_layout (ifinfomsg_builder AF_UNSPEC 0 0 0 0)"
  have body: "length ?body = 16" by (rule ifinfo.enc_length)
  have msg: "veth_msg host peer empty_writer = Some \<lparr>w_buf = veth_request host peer\<rparr>"
    by (rule message_eqs)
  have attrs: "veth_attrs host peer = attrs"
    by (simp add: veth_attrs_def attrs_def info_def data_def pr_def name_attr_def kind_attr_def)
  have small: "16 + length ?body + length (enc_attrs (veth_attrs host peer)) < 2 ^ 32"
    using pr body unfolding attrs by simp
  have "length (veth_request host peer) mod 4 = 0"
    unfolding veth_request_def by (rule length_nl_message_mod) simp
  moreover have "unat (nlmsg_len (nlmsghdr_parse (take 16 (veth_request host peer)))) = length (veth_request host peer)"
    unfolding veth_request_def by (rule nl_message_header(1) [OF small])
  moreover have "drop 32 (veth_request host peer) = enc_attrs attrs"
    using nl_message_header(2) [OF small] body unfolding veth_request_def attrs by simp
  moreover have "parse_attrs (enc_attrs attrs) = Some attrs"
    using pr assms by (intro parse_enc_attrs) (simp add: attrs_def attr_ok_def)
  moreover have "parse_attrs info = Some [kind_attr, (IFLA_INFO_DATA, data)]"
    unfolding info_def using pr by (intro parse_enc_attrs) (simp add: kind_attr_def attr_ok_def)
  moreover have "parse_attrs data = Some [(VETH_INFO_PEER, pr)]"
    unfolding data_def using pr by (intro parse_enc_attrs) (simp add: attr_ok_def)
  moreover have "drop 16 pr = enc_attrs [name_attr]"
    by (simp add: pr_def ifinfo.enc_length)
  moreover have "parse_attrs (enc_attrs [name_attr]) = Some [name_attr]"
    using assms by (intro parse_enc_attrs) (simp add: name_attr_def attr_ok_def)
  ultimately show ?thesis
    unfolding attrs_def kind_attr_def name_attr_def using msg
    by (intro exI [of _ "veth_request host peer"] exI [of _ info] exI [of _ data] exI [of _ pr]) simp
qed

lemma slice_to_9:
  "slice_to cid (min (length cid) 9) =
     (if 9 < length cid \<and> of_char (cid ! 9) \<in> {128..<192 :: nat} then None else Some (take 9 cid))"
  by (auto simp: slice_to_def is_char_boundary_def min_def Let_def not_le not_less)

text \<open>
  \<open>create_network\<close> cuts the id after nine bytes. If the tenth byte continues a UTF-8
  character the slice is a panic, after the two namespace files were opened and before anything
  was sent; the supervisor then dies while its child is waiting.
\<close>

theorem create_network_panics:
  assumes "9 < length cid" "of_char (cid ! 9) \<in> {128..<192 :: nat}"
    and "fs_open K host_ns_path w = (Inr f1, w1)" "fs_open K (peer_ns_path pid) w1 = (Inr f2, w2)"
  shows "create_network K cid pid w = (Inl Panicked, w2) \<and>
         hist w2 = hist w @ [(Op_open host_ns_path, True), (Op_open (peer_ns_path pid), True)]"
proof -
  have "slice_to cid (min (length cid) 9) = None"
    using slice_to_9 [of cid] assms(1,2) by simp
  then show ?thesis
    using assms(3,4) fs_open_hist [OF assms(3)] fs_open_hist [OF assms(4)]
    by (simp add: create_network_def thenE_def bindE_def map_err_def comp_simps)
qed

text \<open>
  C38. \<open>recv_ack\<close> reads the acknowledgement as the protocol has it: an answer of type
  \<open>NLMSG_ERROR\<close> with the negative error number \<open>-e\<close> is the failure that names errno \<open>e\<close>,
  and the number zero is success.
\<close>

theorem recv_ack_decides:
  assumes "k_errno K Op_nl_recv w = None" "length rest \<le> 4076" "0 \<le> e" "e < 2 ^ 31"
    and "k_recv K w = nlmsghdr_layout (nlmsghdr_builder l NLMSG_ERROR fl sq p) @ ne32 (word_of_int (- e)) @ rest"
  shows "recv_ack K w =
    (if e = 0 then Inr () else Inl (Fail (from_network (NetlinkFailure (''netlink error: '' @ k_io_text K (Os e))))),
     log_op Op_nl_recv True w)"
proof -
  let ?h = "nlmsghdr_layout (nlmsghdr_builder l NLMSG_ERROR fl sq p)" and ?e = "word_of_int (- e) :: u32"
  define b where "b = recv_buf (k_recv K w)"
  have "\<exists>r. b = ?h @ ne32 ?e @ r"
    unfolding b_def recv_buf_def assms(5) by (simp add: nlhdr.enc_length)
  then obtain r where b: "b = ?h @ ne32 ?e @ r" ..
  have ty: "nlmsg_type (nlmsghdr_parse (take 16 b)) = NLMSG_ERROR"
    unfolding b by (simp only: nlhdr.dec_front) (simp add: nlmsghdr_builder_def)
  have err: "le_decode (take 4 (drop 16 b)) = ?e"
    unfolding b by (simp add: nlhdr.enc_length codec32.dec_enc)
  have sint: "sint ?e = - e"
    using assms(3,4) by (simp add: signed_of_int signed_take_bit_int_eq_self del: of_int_minus)
  then have zero: "?e = 0 \<longleftrightarrow> e = 0"
    by (metis neg_equal_0_iff_equal of_int_0 signed_0)
  have least: "?e \<noteq> 0x80000000"
  proof
    assume "?e = 0x80000000"
    with sint have "- e = sint (0x80000000 :: u32)" by simp
    also have "\<dots> = - (2 ^ 31)" by (simp add: sint_uint)
    finally show False using assms(4) by simp
  qed
  have "nl_recv K w = (Inr b, log_op Op_nl_recv True w)"
    using assms(1) by (simp add: nl_recv_def bindE_def map_err_def nix_call_run comp_simps b_def)
  then show ?thesis
    using ty err sint zero least by (simp add: recv_ack_def bindE_def nl_answer_def Let_def comp_simps)
qed

end
