(* ===== verification/Container.thy ===== *)
theory Container
  imports Namespace Cgroup Runtime Clone3 Network
begin

text \<open>
  \<open>clonebox-core/src/container.rs\<close>: the lifecycle operations. \<open>create\<close> runs in the
  supervisor and, where the kernel answers the clone with 0, in the child. The state file is the
  only thing the operations share, so their contracts are stated on \<open>stored\<close>.
\<close>

unbundle bit_operations_syntax

section \<open>cleanup and container\_exec\<close>

definition cgroup_dir :: "string \<Rightarrow> string" where
  "cgroup_dir container_id = ''/sys/fs/cgroup/clonebox/'' @ container_id"

definition cleanup :: "('k) kernel_scheme \<Rightarrow> string \<Rightarrow> bool \<Rightarrow> unit core" where
  "cleanup K container_id force =
     (let cgroup_path = cgroup_dir container_id; bundle_path = get_bundle_path container_id in
      if force
      then bindE (attempt (fs_remove_dir K cgroup_path)) (\<lambda>_.
           bindE (attempt (fs_remove_dir_all K bundle_path)) (\<lambda>_. ret ()))
      else thenE (map_err (\<lambda>e. CleanupFailure e ''cgroup'') (fs_remove_dir K cgroup_path))
                 (map_err (\<lambda>e. CleanupFailure e ''bundle'') (fs_remove_dir_all K bundle_path)))"

text \<open>\<open>CString::new\<close> refuses a string with a NUL byte; \<open>unwrap\<close> makes that a panic.\<close>

definition has_nul :: "string \<Rightarrow> bool" where
  "has_nul s \<longleftrightarrow> CHR 0x00 \<in> set s"

definition to_cstring_vec :: "string list \<Rightarrow> string list option" where
  "to_cstring_vec v = (if list_ex has_nul v then None else Some v)"

definition unwrap_or_default :: "'a list option \<Rightarrow> 'a list" where
  "unwrap_or_default v = (case v of None \<Rightarrow> [] | Some x \<Rightarrow> x)"

definition die :: "('k) kernel_scheme \<Rightarrow> string \<Rightarrow> 'a core" where
  "die K msg = bindE (attempt (nix_call K (Op_stderr msg))) (\<lambda>_. stop_with (Exited 1))"

definition execve_failed :: "('k) kernel_scheme \<Rightarrow> string \<Rightarrow> errno \<Rightarrow> 'a core" where
  "execve_failed K log_fd e =
     bindE (attempt (write_log_file K log_fd (''Execve failure: '' @ k_errno_text K e @ newline)))
       (\<lambda>_. stop_with (Exited 1))"

definition container_exec ::
    "('k) kernel_scheme \<Rightarrow> string list option \<Rightarrow> string list option \<Rightarrow> string option \<Rightarrow> string \<Rightarrow> unit core" where
  "container_exec K args env cwd log_fd =
     (case unwrap_or_default args of
        [] \<Rightarrow> die K (''no args provided'' @ newline)
      | path # rest \<Rightarrow>
          if has_nul path then die K (''invalid path'' @ newline)
          else
          (case to_cstring_vec (path # rest) of None \<Rightarrow> stop_with Panicked | Some ca \<Rightarrow>
          (case to_cstring_vec (unwrap_or_default env) of None \<Rightarrow> stop_with Panicked | Some ce \<Rightarrow>
           thenE (case cwd of
                    None \<Rightarrow> ret ()
                  | Some d \<Rightarrow>
                      if has_nul d then die K (''invalid cwd'' @ newline)
                      else bindE (attempt (nix_call K (Op_chdir d))) (\<lambda>_. ret ()))
             (bindE (attempt (nix_call K (Op_execve path ca ce)))
               (\<lambda>r. case r of
                  Inr _ \<Rightarrow> stop_with Replaced
                | Inl e \<Rightarrow> execve_failed K log_fd e)))))"

section \<open>create\<close>

definition CLONE_NEWNS :: "64 word" where "CLONE_NEWNS = 0x00020000"
definition CLONE_NEWUTS :: "64 word" where "CLONE_NEWUTS = 0x04000000"
definition CLONE_NEWPID :: "64 word" where "CLONE_NEWPID = 0x20000000"
definition CLONE_NEWNET :: "64 word" where "CLONE_NEWNET = 0x40000000"
definition SIGCHLD :: "32 word" where "SIGCHLD = 17"
definition SIGKILL :: i32 where "SIGKILL = 9"

definition path_exists :: "('k) kernel_scheme \<Rightarrow> string \<Rightarrow> bool core" where
  "path_exists K p w = (let (b, w') = fs_exists K p w in (Inr b, w'))"

definition notify :: "('k) event_kernel_scheme \<Rightarrow> string option \<Rightarrow> Event \<Rightarrow> unit core" where
  "notify K socket_path ev = (case socket_path of None \<Rightarrow> ret () | Some sp \<Rightarrow> send_event K sp ev)"

definition container_clone :: "('k) kernel_scheme \<Rightarrow> i32 \<Rightarrow> i32 core" where
  "container_clone K child_cgroup_fd =
     map_err from_clone
       (clone3_build K 0 0
         (clone3_cgroup child_cgroup_fd
           (clone3_flags (CLONE_NEWPID OR CLONE_NEWUTS OR CLONE_NEWNS OR CLONE_NEWNET)
             (Clone3_new (Some SIGCHLD)))))"

text \<open>The child: build the root file system, wait on the pipe, replace the image.\<close>

definition create_child ::
    "('k) kernel_scheme \<Rightarrow> string \<Rightarrow> Config \<Rightarrow> Runtime \<Rightarrow> string \<Rightarrow> unit core" where
  "create_child K bundle_path config runtime log_fd =
     (let mounts = unwrap_or_default (c_mounts config) in
      thenE (make_child_private K)
     (thenE (set_child_hostname K (case c_hostname config of Some h \<Rightarrow> h | None \<Rightarrow> ''none''))
     (bindE (pre_pivot_mount K bundle_path (get_root_path config) mounts) (\<lambda>new_root.
      thenE (do_pivot_root K new_root)
     (thenE (post_pivot_mount K mounts)
     (thenE (do_default_mounts K)
     (thenE (freeze_child K runtime)
            (container_exec K (get_process_args config) (get_process_env config)
               (Some (get_process_cwd config)) log_fd))))))))"

text \<open>The supervisor, from the clone to the end of the container.\<close>

definition create_parent ::
    "('k) event_kernel_scheme \<Rightarrow> string \<Rightarrow> string option \<Rightarrow> Event \<Rightarrow> Runtime \<Rightarrow> i32 \<Rightarrow> string \<Rightarrow> unit core" where
  "create_parent K container_id socket_path event runtime child_pid log_fd =
     (let child_cgroup_path = get_child_cgroup_path container_id;
          event1 = event_update_state Created event in
      thenE (create_network K container_id child_pid)
     (thenE (set_cgroup K child_cgroup_path ''cpu'' ''max'' ''100000 100000'')
     (thenE (set_cgroup K child_cgroup_path ''memory'' ''max'' ''256M'')
     (thenE (notify K socket_path event1)
     (thenE (update_state K container_id (set_created child_pid))
     (bindE (parent_proc_socket K container_id runtime) (\<lambda>runtime.
      thenE (unfreeze_child K runtime)
     (bindE (map_err (\<lambda>e. SystemError (Wait e)) (nix_waitpid K child_pid)) (\<lambda>child_return.
      let event2 = (case child_return of WExited _ i \<Rightarrow> event_update_exit_code i event1 | _ \<Rightarrow> event1) in
      thenE (notify K socket_path (event_update_state Stopped event2))
     (thenE (update_state K container_id set_stopped)
            (write_log_file K log_fd (k_debug_wait K child_return @ newline))))))))))))"

definition create ::
    "('k) config_kernel_scheme \<Rightarrow> string \<Rightarrow> string \<Rightarrow> string option \<Rightarrow> unit core" where
  "create K container_id config_path socket_path =
     (let bundle_path = get_bundle_path container_id;
          resources = [''cpu'', ''memory''];
          event = Event_new container_id Creating (Some 0) in
      bindE (path_exists K bundle_path) (\<lambda>found.
      if found then throw (ContainerAlreadyExists container_id)
      else
      bindE (config_load K config_path) (\<lambda>config.
      thenE (map_err (\<lambda>e. SystemError (system_error.Io e bundle_path)) (fs_create_dir_all K bundle_path))
     (thenE (map_err (\<lambda>e. SystemError (system_error.Io e bundle_path)) (fs_set_permissions K bundle_path 0x1C0))
     (bindE (open_log_file K bundle_path) (\<lambda>log_fd.
      thenE (notify K socket_path event)
     (thenE (write_state_file K container_id
               (State_new (c_oci_version config) container_id Creating None bundle_path None))
     (bindE (create_cgroup K container_id) (\<lambda>(_, child_cgroup_fd).
      thenE (init_resources K get_root_cgroup_path resources)
     (thenE (init_resources K get_app_cgroup_path resources)
     (bindE (parent_child_pipe K (Runtime_new None None None)) (\<lambda>runtime.
      bindE (container_clone K child_cgroup_fd) (\<lambda>child_pid.
      if child_pid = 0 then create_child K bundle_path config runtime log_fd
      else create_parent K container_id socket_path event runtime child_pid log_fd)))))))))))))"

section \<open>start, state, kill, delete, pause, resume\<close>

definition start :: "('k) state_kernel_scheme \<Rightarrow> string \<Rightarrow> unit core" where
  "start K container_id =
     bindE (read_state_file K container_id) (\<lambda>state.
     if s_status state \<noteq> Created then throw (ContainerNotCreated container_id)
     else thenE (connect_create_process K container_id)
         (thenE (update_state K container_id set_running) (ret ())))"

definition state :: "('k) state_kernel_scheme \<Rightarrow> string \<Rightarrow> State core" where
  "state K container_id = read_state_file K container_id"

definition send_sigkill :: "('k) kernel_scheme \<Rightarrow> i32 \<Rightarrow> unit core" where
  "send_sigkill K pid =
     bindE (attempt (nix_call K (Op_kill pid SIGKILL)))
       (\<lambda>r. case r of
          Inr _ \<Rightarrow> ret ()
        | Inl e \<Rightarrow> if e = ESRCH then ret () else throw (Other (Any_errno e)))"

definition kill :: "('k) state_kernel_scheme \<Rightarrow> string \<Rightarrow> unit core" where
  "kill K container_id =
     bindE (read_state_file K container_id) (\<lambda>state.
     thenE (case (s_status state, s_pid state) of
              (Stopped, _) \<Rightarrow> throw (ContainerAlreadyStopped container_id)
            | (Running, Some pid) \<Rightarrow> send_sigkill K pid
            | (Created, Some pid) \<Rightarrow> send_sigkill K pid
            | _ \<Rightarrow> throw (Other (Any_msg (''cannot kill '' @ container_id @ '' in current state''))))
           (write_state_file K container_id (set_stopped state)))"

definition delete :: "('k) state_kernel_scheme \<Rightarrow> string \<Rightarrow> bool \<Rightarrow> unit core" where
  "delete K container_id force =
     (if force then cleanup K container_id force
      else
      bindE (read_state_file K container_id) (\<lambda>state.
      if s_status state \<noteq> Stopped then throw (ContainerNotStopped container_id)
      else cleanup K container_id force))"

definition pause :: "('k) state_kernel_scheme \<Rightarrow> string \<Rightarrow> unit core" where
  "pause K container_id =
     bindE (read_state_file K container_id) (\<lambda>state.
     if s_status state \<noteq> Running then throw (ContainerNotRunning container_id)
     else thenE (set_cgroup K (cgroup_dir container_id) ''cgroup'' ''freeze'' ''1'')
         (thenE (update_state K container_id set_paused) (ret ())))"

definition resume :: "('k) state_kernel_scheme \<Rightarrow> string \<Rightarrow> unit core" where
  "resume K container_id =
     bindE (read_state_file K container_id) (\<lambda>state.
     if s_status state \<noteq> Paused then throw (ContainerNotPaused container_id)
     else thenE (set_cgroup K (cgroup_dir container_id) ''cgroup'' ''freeze'' ''0'')
         (thenE (update_state K container_id set_running) (ret ())))"

section \<open>exec\<close>

definition ns_path :: "i32 \<Rightarrow> string \<Rightarrow> string" where
  "ns_path pid ns = ''/proc/'' @ show_int (sint pid) @ ''/ns/'' @ ns"

definition enter_failure :: "('k) kernel_scheme \<Rightarrow> i32 \<Rightarrow> string \<Rightarrow> errno \<Rightarrow> string" where
  "enter_failure K pid ns e = ''enter '' @ ns @ '' for '' @ show_int (sint pid) @ '' failed: '' @ k_errno_text K e"

definition enter_namespace :: "('k) kernel_scheme \<Rightarrow> i32 \<Rightarrow> string \<Rightarrow> unit core" where
  "enter_namespace K pid ns =
     (let path = ns_path pid ns in
      thenE (map_err (\<lambda>e. SystemError (system_error.Io e path)) (fs_open K path))
            (map_err (\<lambda>e. from_namespace (FailedToEnterNamespace (enter_failure K pid ns e)))
               (nix_call K (Op_setns path ns))))"

definition getpid :: "('k) kernel_scheme \<Rightarrow> i32 core" where
  "getpid K w = (Inr (k_int K Op_getpid w), log_op Op_getpid True w)"

definition run_in_fork :: "('k) kernel_scheme \<Rightarrow> string list \<Rightarrow> string \<Rightarrow> unit core" where
  "run_in_fork K cmd log_fd =
     bindE (map_err (\<lambda>e. SystemError (Wait e)) (nix_int K Op_fork)) (\<lambda>child.
     if child = 0 then container_exec K (Some cmd) None None log_fd
     else thenE (map_err (\<lambda>e. SystemError (Wait e)) (nix_waitpid K child)) (ret ()))"

definition leave_mnt :: "('k) kernel_scheme \<Rightarrow> i32 \<Rightarrow> string \<Rightarrow> unit core" where
  "leave_mnt K parent_pid log_fd =
     bindE (attempt (nix_call K (Op_setns (ns_path parent_pid ''mnt'') ''mnt'')))
       (\<lambda>r. case r of
          Inr _ \<Rightarrow> ret ()
        | Inl e \<Rightarrow>
            bindE (attempt (write_log_file K log_fd (enter_failure K parent_pid ''mnt'' e))) (\<lambda>_.
            throw (from_namespace (FailedToEnterNamespace (enter_failure K parent_pid ''mnt'' e)))))"

definition exec :: "('k) state_kernel_scheme \<Rightarrow> string \<Rightarrow> string list \<Rightarrow> unit core" where
  "exec K container_id cmd =
     bindE (read_state_file K container_id) (\<lambda>state.
     if s_status state \<noteq> Running then throw (ContainerNotRunning container_id)
     else
     bindE (open_log_file K (get_bundle_path container_id)) (\<lambda>log_fd.
     case s_pid state of
       None \<Rightarrow> throw (ContainerNotRunning container_id)
     | Some child_pid \<Rightarrow>
     bindE (getpid K) (\<lambda>parent_pid.
     thenE (map_err (\<lambda>e. SystemError (system_error.Io e (ns_path parent_pid ''mnt'')))
              (fs_open K (ns_path parent_pid ''mnt'')))
    (thenE (enter_namespace K child_pid ''uts'')
    (thenE (enter_namespace K child_pid ''pid'')
    (thenE (enter_namespace K child_pid ''net'')
    (thenE (enter_namespace K child_pid ''mnt'')
    (thenE (run_in_fork K cmd log_fd)
    (thenE (leave_mnt K parent_pid log_fd)
    (thenE (enter_namespace K parent_pid ''uts'')
    (thenE (enter_namespace K parent_pid ''pid'')
           (enter_namespace K parent_pid ''net''))))))))))))"

section \<open>Framing\<close>

lemma cgroup_dir_child: "cgroup_dir = get_child_cgroup_path"
  by (simp add: fun_eq_iff cgroup_dir_def get_child_cgroup_path_def)

lemma freeze_file_plain: "plain_id (''cgroup'' @ ''.'' @ ''freeze'')"
  by (simp add: plain_id_def)

lemma keeps_freeze [frames]: "plain_id cid \<Longrightarrow> keeps S (set_cgroup K (cgroup_dir cid) ''cgroup'' ''freeze'' v)"
  unfolding cgroup_dir_child by (rule keeps_set_cgroup [OF _ freeze_file_plain])

lemma keeps_sigkill [frames]: "keeps S (send_sigkill K pid)"
  unfolding send_sigkill_def by (intro frames)

lemma keeps_kill_choice [frames]:
  "keeps S (case (st, p) of
      (Stopped, _) \<Rightarrow> throw e | (Running, Some pid) \<Rightarrow> send_sigkill K pid | (Created, Some pid) \<Rightarrow> send_sigkill K pid
    | _ \<Rightarrow> throw e')"
  by (auto split: container_state.splits option.splits intro: frames)

lemma keeps_cleanup [frames]:
  assumes "plain_id cid" "\<forall>q \<in> S. \<not> prefix (bundle_comps cid) q"
  shows "keeps S (cleanup K cid force)"
  unfolding cleanup_def Let_def cgroup_dir_child using assms by (intro frames) simp_all

lemma keeps_lifecycle [frames]:
  assumes "plain_id cid" "state_comps cid \<notin> S"
  shows "keeps S (start K cid)" "keeps S (kill K cid)" "keeps S (pause K cid)" "keeps S (resume K cid)"
  unfolding start_def kill_def pause_def resume_def using assms by (intro frames; simp)+

lemma keeps_delete [frames]:
  assumes "plain_id cid" "\<forall>q \<in> S. \<not> prefix (bundle_comps cid) q"
  shows "keeps S (delete K cid force)"
  unfolding delete_def using assms by (intro frames)

section \<open>The contract of a lifecycle operation\<close>

text \<open>
  A state is well formed when it has a pid exactly while there is a process: in the states
  \<open>Created\<close>, \<open>Running\<close> and \<open>Paused\<close>.
\<close>

definition wf_state :: "State \<Rightarrow> bool" where
  "wf_state s \<longleftrightarrow> (s_pid s \<noteq> None \<longleftrightarrow> s_status s \<in> {Created, Running, Paused})"

definition same_container :: "State \<Rightarrow> State \<Rightarrow> bool" where
  "same_container s t \<longleftrightarrow>
     s_oci_version s = s_oci_version t \<and> s_id s = s_id t \<and> s_bundle s = s_bundle t \<and>
     s_annotations s = s_annotations t"

text \<open>
  What \<open>start\<close>, \<open>kill\<close>, \<open>pause\<close> and \<open>resume\<close> have in common: they succeed only when the
  stored state passes a guard, they leave the updated state behind, and they never touch another
  container's state.
\<close>

locale lifecycle_op =
  fixes op :: "'k \<Rightarrow> string \<Rightarrow> unit core"
    and view :: "'k \<Rightarrow> world \<Rightarrow> string \<Rightarrow> State option"
    and good :: "'k \<Rightarrow> string \<Rightarrow> bool"
    and guard :: "State \<Rightarrow> bool"
    and upd :: "State \<Rightarrow> State"
  assumes op_view: "good K c \<Longrightarrow> op K c w = (Inr u, w') \<Longrightarrow>
      \<exists>s. view K w c = Some s \<and> guard s \<and> view K w' c = Some (upd s)"
    and op_frame: "good K c \<Longrightarrow> good K c' \<Longrightarrow> c' \<noteq> c \<Longrightarrow> view K (snd (op K c w)) c' = view K w c'"
    and upd_wf: "guard s \<Longrightarrow> wf_state s \<Longrightarrow> wf_state (upd s)"
    and upd_same: "same_container s (upd s)"
begin

lemma op_refused: "good K c \<Longrightarrow> view K w c = Some s \<Longrightarrow> \<not> guard s \<Longrightarrow> op K c w \<noteq> (Inr u, w')"
  using op_view by fastforce

lemma op_missing: "good K c \<Longrightarrow> view K w c = None \<Longrightarrow> op K c w \<noteq> (Inr u, w')"
  using op_view by fastforce

lemma op_keeps_others: "good K c \<Longrightarrow> good K c' \<Longrightarrow> c' \<noteq> c \<Longrightarrow> op K c w = (r, w') \<Longrightarrow> view K w' c' = view K w c'"
  using op_frame [of K c c' w] by simp

lemma op_wf:
  assumes "good K c" "good K d" "op K c w = (Inr u, w')"
    and "\<And>s. view K w d = Some s \<Longrightarrow> wf_state s" "view K w' d = Some s"
  shows "wf_state s"
proof (cases "d = c")
  case True
  then obtain t where "view K w c = Some t" "guard t" "s = upd t"
    using op_view [OF assms(1,3)] assms(5) by auto
  with assms(4) True show ?thesis by (simp add: upd_wf)
next
  case False
  with assms show ?thesis by (simp add: op_keeps_others)
qed

end

lemma stored_frame:
  assumes "\<And>S. state_comps c \<notin> S \<Longrightarrow> keeps S m" "c' \<noteq> c"
  shows "stored K (snd (m w)) c' = stored K w c'"
  using assms(2) by (intro stored_keeps [of c' m w "fst (m w)"] assms(1)) simp_all

lemma store_frames:
  assumes "store_ok K c" "c' \<noteq> c"
  shows "stored K (snd (start K c w)) c' = stored K w c'" "stored K (snd (kill K c w)) c' = stored K w c'"
    "stored K (snd (pause K c w)) c' = stored K w c'" "stored K (snd (resume K c w)) c' = stored K w c'"
  using assms by (intro stored_frame keeps_lifecycle; simp add: store_ok_def)+

lemma update_after:
  assumes "store_ok K c" "keeps {state_comps c} m"
    and "thenE m (thenE (update_state K c f) (ret ())) w = (Inr u, w')"
  shows "\<exists>s. stored K w c = Some s \<and> stored K w' c = Some (f s)"
proof -
  from assms(3) obtain x w1 s' w2 where m: "m w = (Inr x, w1)" and "update_state K c f w1 = (Inr s', w2)" "w' = w2"
    by (auto simp: comp_ok comp_simps)
  then show ?thesis
    using assms(1) update_state_ok [of c K f w1 s' w2] stored_keeps [OF assms(2) m, of K]
    by (auto simp: store_ok_def)
qed

definition can_start :: "State \<Rightarrow> bool" where "can_start s \<longleftrightarrow> s_status s = Created"
definition can_kill :: "State \<Rightarrow> bool" where "can_kill s \<longleftrightarrow> s_status s \<in> {Created, Running} \<and> s_pid s \<noteq> None"
definition can_pause :: "State \<Rightarrow> bool" where "can_pause s \<longleftrightarrow> s_status s = Running"
definition can_resume :: "State \<Rightarrow> bool" where "can_resume s \<longleftrightarrow> s_status s = Paused"

lemmas can_defs = can_start_def can_kill_def can_pause_def can_resume_def

lemma guarded_read:
  assumes "store_ok K c" "bindE (read_state_file K c) (\<lambda>s. if P s then throw (e s) else m s) w = (Inr u, w')"
  shows "\<exists>s. stored K w c = Some s \<and> \<not> P s \<and> m s (log_op (Op_read (get_state_path c)) True w) = (Inr u, w')"
  using assms read_state_file_ok [of c K w]
  by (auto simp: comp_ok comp_simps store_ok_def split: if_splits)

interpretation start_op: lifecycle_op start stored store_ok can_start set_running
proof unfold_locales
  fix K :: "'a state_kernel_scheme" and c w u w'
  assume ok: "store_ok K c" and "start K c w = (Inr u, w')"
  from guarded_read [OF ok this(2) [unfolded start_def]] obtain s where s: "stored K w c = Some s"
    "s_status s = Created" and rest: "thenE (connect_create_process K c) (thenE (update_state K c set_running) (ret ()))
      (log_op (Op_read (get_state_path c)) True w) = (Inr u, w')" by auto
  from update_after [OF ok _ rest] s show "\<exists>s. stored K w c = Some s \<and> can_start s \<and> stored K w' c = Some (set_running s)"
    by (auto simp: can_defs intro: frames)
qed (auto simp: store_frames can_defs wf_state_def same_container_def set_state_defs)

interpretation pause_op: lifecycle_op pause stored store_ok can_pause set_paused
proof unfold_locales
  fix K :: "'a state_kernel_scheme" and c w u w'
  assume ok: "store_ok K c" and "pause K c w = (Inr u, w')"
  from guarded_read [OF ok this(2) [unfolded pause_def]] obtain s where s: "stored K w c = Some s"
    "s_status s = Running" and rest: "thenE (set_cgroup K (cgroup_dir c) ''cgroup'' ''freeze'' ''1'')
      (thenE (update_state K c set_paused) (ret ())) (log_op (Op_read (get_state_path c)) True w) = (Inr u, w')" by auto
  from update_after [OF ok _ rest] ok s show "\<exists>s. stored K w c = Some s \<and> can_pause s \<and> stored K w' c = Some (set_paused s)"
    by (auto simp: can_defs store_ok_def intro: frames)
qed (auto simp: store_frames can_defs wf_state_def same_container_def set_state_defs)

interpretation resume_op: lifecycle_op resume stored store_ok can_resume set_running
proof unfold_locales
  fix K :: "'a state_kernel_scheme" and c w u w'
  assume ok: "store_ok K c" and "resume K c w = (Inr u, w')"
  from guarded_read [OF ok this(2) [unfolded resume_def]] obtain s where s: "stored K w c = Some s"
    "s_status s = Paused" and rest: "thenE (set_cgroup K (cgroup_dir c) ''cgroup'' ''freeze'' ''0'')
      (thenE (update_state K c set_running) (ret ())) (log_op (Op_read (get_state_path c)) True w) = (Inr u, w')" by auto
  from update_after [OF ok _ rest] ok s show "\<exists>s. stored K w c = Some s \<and> can_resume s \<and> stored K w' c = Some (set_running s)"
    by (auto simp: can_defs store_ok_def intro: frames)
qed (auto simp: store_frames can_defs wf_state_def same_container_def set_state_defs)

interpretation kill_op: lifecycle_op kill stored store_ok can_kill set_stopped
proof unfold_locales
  fix K :: "'a state_kernel_scheme" and c w u w'
  assume ok: "store_ok K c" and run: "kill K c w = (Inr u, w')"
  from run obtain s w1 where rd: "read_state_file K c w = (Inr s, w1)"
    and rest: "thenE (case (s_status s, s_pid s) of
              (Stopped, _) \<Rightarrow> throw (ContainerAlreadyStopped c)
            | (Running, Some pid) \<Rightarrow> send_sigkill K pid
            | (Created, Some pid) \<Rightarrow> send_sigkill K pid
            | _ \<Rightarrow> throw (Other (Any_msg (''cannot kill '' @ c @ '' in current state''))))
           (write_state_file K c (set_stopped s)) w1 = (Inr u, w')"
    by (auto simp: kill_def bindE_ok)
  from rest have "can_kill s" and "\<exists>w2. write_state_file K c (set_stopped s) w2 = (Inr u, w')"
    by (auto simp: thenE_ok can_defs comp_simps split: container_state.splits option.splits)
  moreover have "stored K w c = Some s"
    using rd ok by (simp add: json_store.rd_view)
  ultimately show "\<exists>s. stored K w c = Some s \<and> can_kill s \<and> stored K w' c = Some (set_stopped s)"
    using ok by (auto dest: json_store.wr_view)
qed (auto simp: store_frames can_defs wf_state_def same_container_def set_state_defs)

section \<open>delete\<close>

lemma fs_remove_dir_all_ok:
  assumes "fs_remove_dir_all K p w = (Inr u, w')" "norm_path (k_cwd K) p = q" "\<not> is_pseudo q"
  shows "node_at w q = Some Dir \<and> w' = remove_tree q (log_op (Op_rmtree p) True w)"
  using assms by (auto simp: fs_remove_dir_all_def Let_def bindE_ok io_call_ok split: option.splits node.splits)

lemma cleanup_ok:
  assumes "plain_id c" "cleanup K c False w = (Inr u, w')" "prefix (bundle_comps c) q"
  shows "node_at w' q = None"
proof -
  from assms(2) obtain w1 where "fs_remove_dir_all K (get_bundle_path c) w1 = (Inr u, w')"
    by (auto simp: cleanup_def comp_ok)
  from fs_remove_dir_all_ok [OF this norm_bundle_path] assms(1,3) show ?thesis by simp
qed

lemma stored_gone: "node_at w (state_comps c) = None \<Longrightarrow> stored K w c = None"
  by (simp add: stored_def)

lemma fs_remove_dir_all_fate:
  assumes "norm_path (k_cwd K) p = q" "\<not> is_pseudo q" "fs_remove_dir_all K p w = (r, w')"
  shows "node_at w' = node_at w \<or> (\<forall>q'. node_at w' q' = (if prefix q q' then None else node_at w q'))"
  using assms
  by (auto simp: fs_remove_dir_all_def Let_def bindE_def io_call_def split: option.splits node.splits)

lemma remove_dir_cgroup_keeps: "plain_id c \<Longrightarrow> keeps S (fs_remove_dir K (cgroup_dir c))"
  unfolding cgroup_dir_child by (intro frames) simp

lemma attempt_fs_total:
  "(\<And>s w'. m w = (Inl s, w') \<Longrightarrow> \<exists>e. s = Fail e) \<Longrightarrow> \<exists>r. attempt m w = (Inr r, snd (m w))"
  by (cases "m w"; cases "fst (m w)") (auto simp: attempt_def)

lemma removes_fail:
  "fs_remove_dir_all K p w = (Inl s, w') \<Longrightarrow> \<exists>e. s = Fail e"
  "fs_remove_dir K p w = (Inl s, w') \<Longrightarrow> \<exists>e. s = Fail e"
  by (auto simp: fs_remove_dir_all_def fs_remove_dir_def Let_def bindE_def io_call_def
      split: option.splits node.splits if_splits)

lemma cleanup_force:
  "cleanup K c True w =
     (Inr (), snd (fs_remove_dir_all K (get_bundle_path c) (snd (fs_remove_dir K (cgroup_dir c) w))))"
proof -
  define m1 where "m1 = fs_remove_dir K (cgroup_dir c)"
  define m2 where "m2 = fs_remove_dir_all K (get_bundle_path c)"
  obtain r1 where r1: "(attempt m1 :: (io_error + unit) core) w = (Inr r1, snd (m1 w))"
    using attempt_fs_total [of m1 w] removes_fail(2) unfolding m1_def by blast
  obtain r2 where r2: "(attempt m2 :: (io_error + unit) core) (snd (m1 w)) = (Inr r2, snd (m2 (snd (m1 w))))"
    using attempt_fs_total [of m2 "snd (m1 w)"] removes_fail(1) unfolding m2_def by blast
  have "cleanup K c True = bindE (attempt m1) (\<lambda>_. bindE (attempt m2) (\<lambda>_. ret ()))"
    by (simp add: cleanup_def Let_def m1_def m2_def)
  then show ?thesis
    using r1 r2 by (simp add: bindE_def ret_def flip: m1_def m2_def)
qed

lemma delete_force_fate:
  assumes "plain_id c" "delete K c True w = (r, w')"
  shows "r = Inr () \<and> (stored K w' c = stored K w c \<or> stored K w' c = None)"
proof -
  define w1 where "w1 = snd (fs_remove_dir K (cgroup_dir c) w)"
  have run: "r = Inr ()" "w' = snd (fs_remove_dir_all K (get_bundle_path c) w1)"
    using assms(2) by (simp_all add: delete_def cleanup_force w1_def)
  have "node_at w1 (state_comps c) = node_at w (state_comps c)"
    using remove_dir_cgroup_keeps [OF assms(1)] unfolding w1_def keeps_def by blast
  moreover have "node_at w' = node_at w1 \<or>
      (\<forall>q'. node_at w' q' = (if prefix (bundle_comps c) q' then None else node_at w1 q'))"
    using fs_remove_dir_all_fate [of K "get_bundle_path c" "bundle_comps c" w1] assms(1) run(2)
    by (metis norm_bundle_path comps_regular(1) prod.collapse)
  ultimately have "node_at w' (state_comps c) = node_at w (state_comps c) \<or> node_at w' (state_comps c) = None"
    by auto
  with run(1) show ?thesis by (metis stored_cong stored_gone)
qed

section \<open>The abstract lifecycle\<close>

text \<open>
  What a client is promised: the state of one container as an optional record, and one rule per
  command. A forced delete may leave the container in place when the kernel refuses to remove it.
\<close>

datatype command = Start | Kill | Pause | Resume | Delete bool

inductive spec_step :: "command \<Rightarrow> State option \<Rightarrow> State option \<Rightarrow> bool" where
  start: "s_status s = Created \<Longrightarrow> spec_step Start (Some s) (Some (s\<lparr>s_status := Running\<rparr>))"
| kill: "s_status s \<in> {Created, Running} \<Longrightarrow> s_pid s = Some p \<Longrightarrow>
    spec_step Kill (Some s) (Some (s\<lparr>s_status := Stopped, s_pid := None\<rparr>))"
| pause: "s_status s = Running \<Longrightarrow> spec_step Pause (Some s) (Some (s\<lparr>s_status := Paused\<rparr>))"
| resume: "s_status s = Paused \<Longrightarrow> spec_step Resume (Some s) (Some (s\<lparr>s_status := Running\<rparr>))"
| delete: "s_status s = Stopped \<Longrightarrow> spec_step (Delete False) (Some s) None"
| force: "spec_step (Delete True) x None"
| force_kept: "spec_step (Delete True) x x"

inductive_simps spec_step_simps [simp]:
  "spec_step Start x y" "spec_step Kill x y" "spec_step Pause x y" "spec_step Resume x y"
  "spec_step (Delete f) x y"

fun spec_run :: "command list \<Rightarrow> State option \<Rightarrow> State option \<Rightarrow> bool" where
  "spec_run [] x z \<longleftrightarrow> z = x"
| "spec_run (c # cs) x z \<longleftrightarrow> (\<exists>y. spec_step c x y \<and> spec_run cs y z)"

fun run_command :: "('k) state_kernel_scheme \<Rightarrow> string \<Rightarrow> command \<Rightarrow> unit core" where
  "run_command K c Start = start K c"
| "run_command K c Kill = kill K c"
| "run_command K c Pause = pause K c"
| "run_command K c Resume = resume K c"
| "run_command K c (Delete force) = delete K c force"

lemma delete_ok:
  assumes "store_ok K c" "delete K c False w = (Inr u, w')"
  shows "\<exists>s. stored K w c = Some s \<and> s_status s = Stopped \<and> stored K w' c = None"
proof -
  have "delete K c False = bindE (read_state_file K c) (\<lambda>s.
      if s_status s \<noteq> Stopped then throw (ContainerNotStopped c) else cleanup K c False)"
    by (simp add: delete_def)
  from guarded_read [OF assms(1) assms(2) [unfolded this]] obtain s w1 where
    "stored K w c = Some s" "s_status s = Stopped" "cleanup K c False w1 = (Inr u, w')" by auto
  with assms(1) cleanup_ok [of c K w1 u w' "state_comps c"] show ?thesis
    by (auto simp: store_ok_def stored_gone)
qed

lemma run_command_refines:
  assumes "store_ok K c" "run_command K c cmd w = (Inr u, w')"
  shows "spec_step cmd (stored K w c) (stored K w' c)"
proof (cases cmd)
  case Start
  with assms start_op.op_view [of K c w u w'] show ?thesis by (auto simp: can_defs set_state_defs)
next
  case Kill
  with assms kill_op.op_view [of K c w u w'] show ?thesis by (auto simp: can_defs set_state_defs)
next
  case Pause
  with assms pause_op.op_view [of K c w u w'] show ?thesis by (auto simp: can_defs set_state_defs)
next
  case Resume
  with assms resume_op.op_view [of K c w u w'] show ?thesis by (auto simp: can_defs set_state_defs)
next
  case (Delete force)
  show ?thesis
  proof (cases force)
    case True
    with Delete assms delete_force_fate [of c K w "Inr u" w'] show ?thesis by (auto simp: store_ok_def)
  next
    case False
    with Delete assms delete_ok [of K c w u w'] show ?thesis by auto
  qed
qed

lemma run_command_frame:
  assumes "plain_id c" "run_command K c cmd w = (r, w')" "\<not> prefix (bundle_comps c) q"
  shows "node_at w' q = node_at w q"
proof -
  have "state_comps c \<notin> {q}" using assms(3) by (auto simp: state_comps_def)
  then have "keeps {q} (run_command K c cmd)"
    using assms(1,3) by (cases cmd) (auto intro: frames)
  from keepsD [OF this assms(2), of q] show ?thesis by simp
qed

lemma run_command_others:
  assumes "plain_id c" "d \<noteq> c" "run_command K c cmd w = (r, w')"
  shows "stored K w' d = stored K w d"
  using run_command_frame [OF assms(1,3), of "state_comps d"] assms(2) by (intro stored_cong) simp

lemma spec_step_wf: "spec_step cmd x y \<Longrightarrow> (\<And>s. x = Some s \<Longrightarrow> wf_state s) \<Longrightarrow> y = Some t \<Longrightarrow> wf_state t"
  by (induction rule: spec_step.induct) (auto simp: wf_state_def)

lemma run_commands_refine:
  assumes "store_ok K c" "for_each cmds (run_command K c) w = (Inr u, w')"
  shows "spec_run cmds (stored K w c) (stored K w' c)"
  using assms(2)
proof (induction cmds arbitrary: w)
  case Nil
  then show ?case by (simp add: comp_simps)
next
  case (Cons cmd cmds)
  then obtain w1 where "run_command K c cmd w = (Inr (), w1)" "for_each cmds (run_command K c) w1 = (Inr u, w')"
    by (auto simp: thenE_ok)
  with Cons.IH run_command_refines [OF assms(1), of cmd w "()" w1] show ?case by auto
qed

text \<open>What each step of the specification keeps holds to the end of a run.\<close>

lemma spec_run_keeps:
  assumes "spec_run cmds x z" "P x" "\<And>cmd x y. cmd \<in> set cmds \<Longrightarrow> spec_step cmd x y \<Longrightarrow> P x \<Longrightarrow> P y"
  shows "P z"
  using assms
proof (induction cmds arbitrary: x)
  case (Cons c cs)
  then obtain y where "spec_step c x y" "spec_run cs y z" by auto
  with Cons show ?case by (metis list.set_intros)
qed simp

lemma spec_run_stopped:
  assumes "spec_run cmds (Some s) y" "s_status s = Stopped"
  shows "y = Some s \<or> y = None"
proof (rule spec_run_keeps [where P = "\<lambda>x. x = Some s \<or> x = None", OF assms(1)])
  fix cmd x y
  assume "spec_step cmd x y" "x = Some s \<or> x = None"
  with assms(2) show "y = Some s \<or> y = None" by (cases cmd) auto
qed simp

text \<open>A container that is stored as running or paused and has no process.\<close>

definition orphaned :: "State \<Rightarrow> bool" where
  "orphaned s \<longleftrightarrow> s_status s \<in> {Running, Paused} \<and> s_pid s = None"

lemma spec_run_orphaned:
  assumes "spec_run cmds (Some s) z" "orphaned s"
  shows "case z of Some s' \<Rightarrow> orphaned s' | None \<Rightarrow> Delete True \<in> set cmds"
proof (rule spec_run_keeps [where P = "\<lambda>x. case x of Some s' \<Rightarrow> orphaned s' | None \<Rightarrow> Delete True \<in> set cmds", OF assms(1)])
  fix cmd x y
  assume "spec_step cmd x y" "case x of Some s' \<Rightarrow> orphaned s' | None \<Rightarrow> Delete True \<in> set cmds"
  then have "case y of Some s' \<Rightarrow> orphaned s' | None \<Rightarrow> Delete True \<in> set cmds \<or> cmd = Delete True"
    by (cases cmd) (auto simp: orphaned_def split: option.splits)
  then show "cmd \<in> set cmds \<Longrightarrow> case y of Some s' \<Rightarrow> orphaned s' | None \<Rightarrow> Delete True \<in> set cmds"
    by (auto split: option.splits)
qed (use assms(2) in simp)

section \<open>Properties\<close>

text \<open>
  C1. The code implements the abstract lifecycle: any sequence of \<open>start\<close>, \<open>kill\<close>,
  \<open>pause\<close>, \<open>resume\<close> and \<open>delete\<close> on a container, each of which succeeds, takes its stored
  state along a run of the specification, whatever the kernel answers on the way.
\<close>

theorem lifecycle_refines:
  assumes "plain_id c" "state_codec K"
    and "for_each cmds (run_command K c) w = (Inr u, w')"
  shows "spec_run cmds (stored K w c) (stored K w' c)"
  using assms by (intro run_commands_refine) (simp_all add: store_ok_def)

text \<open>
  C2. Every command keeps every container's state well formed: if each stored state has a pid
  exactly when it is created, running or paused, then so does each stored state after a command
  on any container that succeeds.
\<close>

theorem lifecycle_keeps_wf:
  assumes "plain_id c" "plain_id d" "state_codec K" "run_command K c cmd w = (Inr u, w')"
    and "\<forall>s. stored K w d = Some s \<longrightarrow> wf_state s"
  shows "\<forall>s. stored K w' d = Some s \<longrightarrow> wf_state s"
proof (cases "d = c")
  case True
  have "spec_step cmd (stored K w c) (stored K w' c)"
    using assms by (intro run_command_refines) (simp_all add: store_ok_def)
  with assms(5) True show ?thesis by (auto intro: spec_step_wf)
next
  case False
  with run_command_others [OF assms(1) False assms(4)] assms(5) show ?thesis by simp
qed

text \<open>
  C3. Isolation: a command on one container, whether it succeeds or fails and whatever the kernel
  answers, changes no file outside that container's bundle directory; in particular no other
  container's stored state.
\<close>

theorem lifecycle_isolation:
  assumes "plain_id c" "run_command K c cmd w = (r, w')"
  shows "(\<not> prefix (bundle_comps c) q \<longrightarrow> node_at w' q = node_at w q) \<and>
         (d \<noteq> c \<longrightarrow> stored K w' d = stored K w d)"
  using run_command_frame [OF assms] run_command_others [OF assms(1) _ assms(2)] by blast

text \<open>
  C28. A stopped container is never revived: after it, any sequence of successful commands leaves
  its state exactly as it was, or the container deleted.
\<close>

theorem stopped_is_final:
  assumes "plain_id c" "state_codec K" "stored K w c = Some s" "s_status s = Stopped"
    and "for_each cmds (run_command K c) w = (Inr u, w')"
  shows "stored K w' c = Some s \<or> stored K w' c = None"
proof -
  have "spec_run cmds (Some s) (stored K w' c)"
    using run_commands_refine [OF _ assms(5)] assms(1-3) by (simp add: store_ok_def)
  from spec_run_stopped [OF this assms(4)] show ?thesis .
qed

text \<open>
  C23. A container that is stored as running or paused but has no process is beyond repair: no
  sequence of successful commands makes it anything else, and only a forced delete can remove it.
\<close>

theorem orphan_is_final:
  assumes "plain_id c" "state_codec K" "stored K w c = Some s" "orphaned s"
    and "for_each cmds (run_command K c) w = (Inr u, w')"
  shows "(\<exists>s'. stored K w' c = Some s' \<and> orphaned s') \<or> stored K w' c = None \<and> Delete True \<in> set cmds"
proof -
  have "spec_run cmds (Some s) (stored K w' c)"
    using run_commands_refine [OF _ assms(5)] assms(1-3) by (simp add: store_ok_def)
  from spec_run_orphaned [OF this assms(4)] show ?thesis by (simp split: option.splits)
qed

lemma read_ok_run:
  assumes "plain_id c" "stored K w c = Some s" "k_io K (Op_read (get_state_path c)) w = None"
  shows "bindE (read_state_file K c) f w = f s (log_op (Op_read (get_state_path c)) True w)"
  using read_state_file_stored [OF assms] by (simp add: comp_simps)

text \<open>
  C26. The error of each refused command: when the stored state can be read and does not allow the
  command, the result is exactly the error below, and the read is the only call made, so nothing
  has changed.
\<close>

theorem lifecycle_errors:
  assumes "plain_id c" "stored K w c = Some s" "k_io K (Op_read (get_state_path c)) w = None"
  shows "(s_status s \<noteq> Created \<longrightarrow>
            start K c w = (Inl (Fail (ContainerNotCreated c)), log_op (Op_read (get_state_path c)) True w)) \<and>
         (s_status s \<noteq> Running \<longrightarrow>
            pause K c w = (Inl (Fail (ContainerNotRunning c)), log_op (Op_read (get_state_path c)) True w)) \<and>
         (s_status s \<noteq> Running \<longrightarrow>
            exec K c cmd w = (Inl (Fail (ContainerNotRunning c)), log_op (Op_read (get_state_path c)) True w)) \<and>
         (s_status s \<noteq> Paused \<longrightarrow>
            resume K c w = (Inl (Fail (ContainerNotPaused c)), log_op (Op_read (get_state_path c)) True w)) \<and>
         (s_status s \<noteq> Stopped \<longrightarrow>
            delete K c False w = (Inl (Fail (ContainerNotStopped c)), log_op (Op_read (get_state_path c)) True w)) \<and>
         (s_status s = Stopped \<longrightarrow>
            kill K c w = (Inl (Fail (ContainerAlreadyStopped c)), log_op (Op_read (get_state_path c)) True w)) \<and>
         (s_status s \<in> {Creating, Paused} \<or> (s_status s \<noteq> Stopped \<and> s_pid s = None) \<longrightarrow>
            kill K c w = (Inl (Fail (Other (Any_msg (''cannot kill '' @ c @ '' in current state'')))),
                          log_op (Op_read (get_state_path c)) True w))"
  unfolding start_def pause_def resume_def delete_def kill_def exec_def read_ok_run [OF assms] if_False
  by (auto simp: comp_simps thenE_def bindE_def split: container_state.splits option.splits)

text \<open>
  An operation on a container that does not exist: when there is no state file, each command
  but a forced delete reports \<open>ContainerNotFound\<close> and makes no other call.
\<close>

theorem lifecycle_not_found:
  assumes "plain_id c" "node_at w (state_comps c) = None" "k_io K (Op_read (get_state_path c)) w = None"
    and "cmd \<noteq> Delete True"
  shows "run_command K c cmd w = (Inl (Fail (ContainerNotFound c)), log_op (Op_read (get_state_path c)) True w)"
proof -
  note rd = read_state_file_not_found [OF assms(1-3)]
  show ?thesis
    using assms(4) rd
    by (cases cmd) (simp_all add: start_def kill_def pause_def resume_def delete_def comp_simps)
qed

text \<open>
  C27. A successful \<open>kill\<close> sends SIGKILL to the recorded pid exactly once, and a second
  \<open>kill\<close> of the same container is refused as already stopped. A process that is already gone
  (\<open>ESRCH\<close>) counts as killed.
\<close>

theorem kill_once:
  assumes "plain_id c" "state_codec K" "kill K c w = (Inr u, w')"
    and "k_io K (Op_read (get_state_path c)) w' = None"
  shows "\<exists>s p ok t. stored K w c = Some s \<and> s_pid s = Some p \<and>
      hist w' = hist w @ [(Op_read (get_state_path c), True), (Op_kill p SIGKILL, ok),
                          (Op_create (get_state_path c), True), (Op_write (get_state_path c) t, True)] \<and>
      (ok \<or> k_errno K (Op_kill p SIGKILL) (log_op (Op_read (get_state_path c)) True w) = Some ESRCH) \<and>
      fst (kill K c w') = Inl (Fail (ContainerAlreadyStopped c))"
proof -
  have ok: "store_ok K c" using assms by (simp add: store_ok_def)
  from assms(3) obtain s w1 where rd: "read_state_file K c w = (Inr s, w1)"
    by (auto simp: kill_def bindE_ok)
  from read_state_file_ok [OF assms(1) rd] have s: "stored K w c = Some s"
    and w1: "w1 = log_op (Op_read (get_state_path c)) True w" by auto
  from kill_op.op_view [OF ok assms(3)] s have can: "can_kill s" and s': "stored K w' c = Some (set_stopped s)"
    by auto
  from can obtain p where p: "s_pid s = Some p" by (auto simp: can_defs)
  from assms(3) rd can p have "thenE (send_sigkill K p) (write_state_file K c (set_stopped s)) w1 = (Inr u, w')"
    by (auto simp: kill_def comp_simps can_defs)
  then obtain w2 where sk: "send_sigkill K p w1 = (Inr (), w2)"
    and wr: "write_state_file K c (set_stopped s) w2 = (Inr u, w')" by (auto simp: thenE_ok)
  obtain t where "fs_write K (get_state_path c) t w2 = (Inr u, w')"
    using wr by (auto simp: write_state_file_def comp_ok lift_result_ok)
  from fs_write_hist [OF this] have h: "hist w' = hist w2 @ [(Op_create (get_state_path c), True), (Op_write (get_state_path c) t, True)]" .
  have "hist w2 = hist w1 @ [(Op_kill p SIGKILL, True)] \<or>
      hist w2 = hist w1 @ [(Op_kill p SIGKILL, False)] \<and> k_errno K (Op_kill p SIGKILL) w1 = Some ESRCH"
    using sk by (auto simp: send_sigkill_def bindE_ok attempt_ok nix_call_ok nix_call_stop comp_simps
        split: if_splits)
  then obtain ok where "hist w2 = hist w1 @ [(Op_kill p SIGKILL, ok)]"
    "ok \<or> k_errno K (Op_kill p SIGKILL) w1 = Some ESRCH" by blast
  moreover have "fst (kill K c w') = Inl (Fail (ContainerAlreadyStopped c))"
    unfolding kill_def read_ok_run [OF assms(1) s' assms(4)]
    by (simp add: set_stopped_def thenE_def bindE_def comp_simps)
  ultimately show ?thesis using s p h w1 by auto
qed

text \<open>
  C37. A successful \<open>delete\<close> of a container removes its whole bundle: no file is left under
  it, so a following read reports \<open>ContainerNotFound\<close> and the id is free again. It succeeds
  only for a stopped container.
\<close>

theorem delete_removes:
  assumes "plain_id c" "state_codec K" "delete K c False w = (Inr u, w')"
  shows "(\<exists>s. stored K w c = Some s \<and> s_status s = Stopped) \<and>
    (prefix (bundle_comps c) q \<longrightarrow> node_at w' q = None) \<and>
    (k_io K (Op_read (get_state_path c)) w' = None \<longrightarrow>
       fst (state K c w') = Inl (Fail (ContainerNotFound c)))"
proof -
  have "store_ok K c" using assms by (simp add: store_ok_def)
  from delete_ok [OF this assms(3)] have s: "\<exists>s. stored K w c = Some s \<and> s_status s = Stopped" by blast
  from assms(3) obtain w1 where "cleanup K c False w1 = (Inr u, w')"
    by (auto simp: delete_def bindE_ok comp_simps split: if_splits)
  from cleanup_ok [OF assms(1) this] have gone: "prefix (bundle_comps c) q \<Longrightarrow> node_at w' q = None" for q .
  with s show ?thesis
    using read_state_file_not_found [OF assms(1) gone, of K] by (simp add: state_def)
qed

text \<open>
  A forced delete always reports success, whatever the state and whatever the kernel answers:
  the container is gone or, when the kernel refused, still there with its state unchanged.
\<close>

theorem force_delete_total:
  assumes "plain_id c"
  shows "\<exists>w'. delete K c True w = (Inr (), w') \<and> (stored K w' c = stored K w c \<or> stored K w' c = None)"
proof -
  obtain r w' where "delete K c True w = (r, w')" by fastforce
  with delete_force_fate [OF assms this] show ?thesis by auto
qed

text \<open>
  The id is not checked: a forced delete of the empty id, when the kernel fails nothing,
  removes \<open>/run/clonebox\<close> itself, and with it the state of every container.
\<close>

theorem force_delete_empty_id:
  assumes "node_at w [''run'', ''clonebox''] = Some Dir" "\<And>op w. k_io K op w = None"
  shows "\<exists>w'. delete K [] True w = (Inr (), w') \<and> (\<forall>c. stored K w' c = None)"
proof -
  have q: "norm_path (k_cwd K) (get_bundle_path []) = [''run'', ''clonebox'']"
    by (simp add: norm_path_def get_bundle_path_def)
  define w1 where "w1 = snd (fs_remove_dir K (cgroup_dir []) w)"
  have "is_pseudo (norm_path (k_cwd K) (cgroup_dir []))"
    by (simp add: norm_path_def cgroup_dir_def is_pseudo_def)
  then have "node_at w1 [''run'', ''clonebox''] = Some Dir"
    using assms(1) keeps_removes(1) [of K "cgroup_dir []" UNIV] unfolding w1_def keeps_def by simp
  then have "fs_remove_dir_all K (get_bundle_path []) w1 =
      (Inr (), remove_tree [''run'', ''clonebox''] (log_op (Op_rmtree (get_bundle_path [])) True w1))"
    using assms(2) by (simp add: fs_remove_dir_all_def Let_def q is_pseudo_def comp_simps)
  then have "delete K [] True w =
      (Inr (), remove_tree [''run'', ''clonebox''] (log_op (Op_rmtree (get_bundle_path [])) True w1))"
    by (simp add: delete_def cleanup_force w1_def)
  moreover have "stored K (remove_tree [''run'', ''clonebox''] v) c = None" for v c
    by (simp add: stored_def state_comps_def bundle_comps_def)
  ultimately show ?thesis by blast
qed

section \<open>The commands do succeed\<close>

text \<open>A kernel that fails no call.\<close>

definition obliging :: "('k) kernel_scheme \<Rightarrow> bool" where
  "obliging K \<longleftrightarrow> (\<forall>op w. k_io K op w = None) \<and> (\<forall>op w. k_errno K op w = None)"

definition intact :: "('k) state_kernel_scheme \<Rightarrow> world \<Rightarrow> string \<Rightarrow> State \<Rightarrow> bool" where
  "intact K w c s \<longleftrightarrow> stored K w c = Some s \<and> node_at w (bundle_comps c) = Some Dir"

lemma intact_log [simp]: "intact K (log_op op ok w) c s = intact K w c s"
  by (simp add: intact_def)

lemma write_state_intact:
  assumes "plain_id c" "state_codec K" "obliging K" "intact K w c s"
  shows "\<exists>w'. write_state_file K c s' w = (Inr (), w') \<and> intact K w' c s' \<and>
    (\<forall>q. q \<noteq> state_comps c \<longrightarrow> node_at w' q = node_at w q)"
proof -
  have node: "node_at w (state_comps c) \<noteq> Some Dir" "node_at w (state_comps c) \<noteq> Some Sock"
    using assms(4) by (auto simp: intact_def stored_def split: option.splits node.splits)
  have dir: "is_dir w (bundle_comps c)" "\<And>op w. k_io K op w = None"
    using assms(3,4) by (simp_all add: intact_def is_dir_def obliging_def)
  have "bundle_comps c \<noteq> state_comps c" by (metis state_comps_simps(6))
  then show ?thesis
    using write_state_file_run [OF assms(1,2) dir(1) node dir(2), of s'] assms(4) by (metis intact_def)
qed

lemma update_state_run:
  assumes "plain_id c" "state_codec K" "obliging K" "intact K w c s"
  obtains w' where "update_state K c f w = (Inr (f s), w')" "intact K w' c (f s)"
    "\<And>q. q \<noteq> state_comps c \<Longrightarrow> node_at w' q = node_at w q"
proof -
  let ?w1 = "log_op (Op_read (get_state_path c)) True w"
  have rd: "read_state_file K c w = (Inr s, ?w1)"
    using assms by (intro read_state_file_stored) (auto simp: obliging_def intact_def)
  obtain w' where w': "write_state_file K c (f s) ?w1 = (Inr (), w')" "intact K w' c (f s)"
    "\<forall>q. q \<noteq> state_comps c \<longrightarrow> node_at w' q = node_at ?w1 q"
    using write_state_intact [OF assms(1-3), of ?w1 s] assms(4) by auto
  then have "update_state K c f w = (Inr (f s), w')"
    using rd by (simp add: update_state_def thenE_def bindE_def comp_simps)
  with w' that show ?thesis by simp
qed

lemma set_freeze_run:
  assumes "plain_id c" "obliging K"
  obtains w' where "set_cgroup K (cgroup_dir c) ''cgroup'' ''freeze'' v w = (Inr (), w')" "node_at w' = node_at w"
    "hist w' = hist w @ [(Op_create (cgroup_dir c @ ''/cgroup.freeze''), True),
                         (Op_write (cgroup_dir c @ ''/cgroup.freeze'') v, True)]"
proof -
  have "is_pseudo (norm_path (k_cwd K) (cgroup_dir c @ ''/cgroup.freeze''))"
    using child_cgroup_file_pseudo [of c "''cgroup.freeze''" "k_cwd K"] assms(1)
    unfolding cgroup_dir_child by (simp add: plain_id_def)
  with that assms(2) show ?thesis
    by (simp add: set_cgroup_def fs_write_pseudo Let_def obliging_def comp_simps bindE_def map_err_def)
qed

lemma freeze_step:
  assumes "plain_id c" "state_codec K" "obliging K" "intact K w c s"
  obtains w' where "thenE (set_cgroup K (cgroup_dir c) ''cgroup'' ''freeze'' v) (thenE (update_state K c f) (ret ()))
      (log_op (Op_read (get_state_path c)) True w) = (Inr (), w')" "intact K w' c (f s)"
proof -
  let ?w1 = "log_op (Op_read (get_state_path c)) True w"
  obtain w2 where w2: "set_cgroup K (cgroup_dir c) ''cgroup'' ''freeze'' v ?w1 = (Inr (), w2)" "node_at w2 = node_at ?w1"
    using set_freeze_run [OF assms(1,3)] by metis
  have "intact K w2 c s"
    using w2(2) assms(4) stored_cong [of w2 c ?w1 K] by (simp add: intact_def)
  from update_state_run [OF assms(1-3) this] obtain w' where "update_state K c f w2 = (Inr (f s), w')" "intact K w' c (f s)"
    by metis
  with that w2(1) show ?thesis by (simp add: comp_simps)
qed

lemma obliging_read: "obliging K \<Longrightarrow> intact K w c s \<Longrightarrow> plain_id c \<Longrightarrow>
  bindE (read_state_file K c) f w = f s (log_op (Op_read (get_state_path c)) True w)"
  by (rule read_ok_run) (auto simp: obliging_def intact_def)

text \<open>
  C36. Pausing and resuming succeed and undo each other: on a running container whose bundle is in
  place, and a kernel that fails no call, \<open>pause\<close> succeeds and stores the state as paused,
  \<open>resume\<close> then succeeds, and the stored state is the original one.
\<close>

theorem pause_resume:
  assumes "plain_id c" "state_codec K" "obliging K"
    and "stored K w c = Some s" "s_status s = Running" "node_at w (bundle_comps c) = Some Dir"
  shows "\<exists>w1 w2. pause K c w = (Inr (), w1) \<and> stored K w1 c = Some (s\<lparr>s_status := Paused\<rparr>) \<and>
                 resume K c w1 = (Inr (), w2) \<and> stored K w2 c = Some s"
proof -
  have i: "intact K w c s" using assms by (simp add: intact_def)
  obtain w1 where "thenE (set_cgroup K (cgroup_dir c) ''cgroup'' ''freeze'' ''1'') (thenE (update_state K c set_paused) (ret ()))
      (log_op (Op_read (get_state_path c)) True w) = (Inr (), w1)" and i1: "intact K w1 c (set_paused s)"
    by (rule freeze_step [OF assms(1-3) i])
  then have w1: "pause K c w = (Inr (), w1)"
    unfolding pause_def obliging_read [OF assms(3) i assms(1)] using assms(5) by simp
  have paused: "s_status (set_paused s) = Paused" by (simp add: set_paused_def)
  obtain w2 where "thenE (set_cgroup K (cgroup_dir c) ''cgroup'' ''freeze'' ''0'') (thenE (update_state K c set_running) (ret ()))
      (log_op (Op_read (get_state_path c)) True w1) = (Inr (), w2)"
    and i2: "intact K w2 c (set_running (set_paused s))"
    by (rule freeze_step [OF assms(1-3) i1])
  then have w2: "resume K c w1 = (Inr (), w2)"
    unfolding resume_def obliging_read [OF assms(3) i1 assms(1)] using paused by simp
  have "set_running (set_paused s) = s"
    using assms(5) by (simp add: set_running_def set_paused_def)
  with w1 w2 i1 i2 show ?thesis by (auto simp: intact_def set_paused_def)
qed

text \<open>
  \<open>start\<close> succeeds when it should: the stored state is created, the supervisor's socket is
  bound and the kernel fails no call. The state is then running with the same pid.
\<close>

theorem start_succeeds:
  assumes "plain_id c" "state_codec K" "obliging K"
    and "stored K w c = Some s" "s_status s = Created" "node_at w (bundle_comps c) = Some Dir"
    and "node_at w (socket_comps c) = Some Sock"
  shows "\<exists>w'. start K c w = (Inr (), w') \<and> stored K w' c = Some (s\<lparr>s_status := Running\<rparr>)"
proof -
  have i: "intact K w c s" using assms by (simp add: intact_def)
  let ?w1 = "log_op (Op_read (get_state_path c)) True w"
  have "\<exists>w2. connect_create_process K c ?w1 = (Inr (), w2) \<and> node_at w2 = node_at ?w1"
    using assms(1,3,7)
    by (simp add: connect_create_process_def get_socket_fd_def nix_int_def nix_connect_def connect_errno_def obliging_def Let_def
        thenE_def bindE_def map_err_def comp_simps)
  then obtain w2 where w2: "connect_create_process K c ?w1 = (Inr (), w2)" "node_at w2 = node_at ?w1" by blast
  then have "intact K w2 c s"
    using i stored_cong [of w2 c ?w1 K] by (simp add: intact_def)
  from update_state_run [OF assms(1-3) this, of set_running] obtain w' where
    "update_state K c set_running w2 = (Inr (set_running s), w')" "intact K w' c (set_running s)" by metis
  then show ?thesis
    unfolding start_def obliging_read [OF assms(3) i assms(1)]
    using w2(1) assms(5) by (simp add: comp_simps intact_def set_running_def)
qed

end
