(* ===== verification/Create.thy ===== *)
theory Create
  imports Container
begin

text \<open>
  What \<open>create\<close> and \<open>exec\<close> of \<open>clonebox-core/src/container.rs\<close> do, as sequences of
  calls: the order of the child's set-up, the events the supervisor sends, what is left behind
  when something fails, and the namespaces that \<open>exec\<close> enters and leaves.
\<close>

section \<open>Calls that send no event, start no process and wait for none\<close>

definition is_stream :: "sysop \<Rightarrow> bool" where
  "is_stream op = (case op of Op_stream_write _ _ \<Rightarrow> True | _ \<Rightarrow> False)"

definition sent :: "world \<Rightarrow> sysop list" where
  "sent w = filter is_stream (map fst (hist w))"

text \<open>\<open>clone3\<close> starts the container's process and \<open>waitpid\<close> waits for it.\<close>

definition is_process :: "sysop \<Rightarrow> bool" where
  "is_process op = (case op of Op_clone3 _ \<Rightarrow> True | Op_waitpid _ \<Rightarrow> True | _ \<Rightarrow> False)"

text \<open>From one world to another, no process was started and none waited for.\<close>

definition calm :: "world \<Rightarrow> world \<Rightarrow> bool" where
  "calm w w' \<longleftrightarrow> (\<exists>h. hist w' = hist w @ h \<and> (\<forall>e \<in> set h. \<not> is_process (fst e)))"

lemma calm_refl [simp]: "calm w w"
  by (simp add: calm_def)

lemma calm_trans [trans]: "calm u v \<Longrightarrow> calm v w \<Longrightarrow> calm u w"
  unfolding calm_def by (metis Un_iff append_assoc set_append)

lemma emits_calm: "emits (\<lambda>op. \<not> is_process op) m \<Longrightarrow> m w = (r, w') \<Longrightarrow> calm w w'"
  unfolding calm_def by (rule emitsD)

abbreviation silent :: "(world, 'e, 'a) comp \<Rightarrow> bool" where
  "silent m \<equiv> emits (\<lambda>op. \<not> is_stream op \<and> \<not> is_process op) m"

lemma silent_sent: "silent m \<Longrightarrow> m w = (r, w') \<Longrightarrow> sent w' = sent w"
  by (drule (1) emitsD) (auto simp: sent_def filter_empty_conv)

lemma silent_calm: "silent m \<Longrightarrow> m w = (r, w') \<Longrightarrow> calm w w'"
  unfolding calm_def by (drule (1) emitsD) blast

lemma is_process_simps [simp]:
  "is_process (Op_clone3 l)" "is_process (Op_waitpid q)" "\<not> is_process (Op_exists p)" "\<not> is_process (Op_read p)"
  "\<not> is_process (Op_create p)" "\<not> is_process (Op_write p t)" "\<not> is_process (Op_mkdir_all p)" "\<not> is_process (Op_chmod p n)"
  "\<not> is_process (Op_open p)" "\<not> is_process (Op_open_append p)" "\<not> is_process (Op_append p t)"
  "\<not> is_process (Op_stream_connect p)" "\<not> is_process (Op_stream_write p t)" "\<not> is_process Op_pipe2"
  "\<not> is_process Op_pipe_read" "\<not> is_process Op_pipe_write" "\<not> is_process Op_socket_unix" "\<not> is_process (Op_unix_addr p)"
  "\<not> is_process (Op_backlog b)" "\<not> is_process (Op_bind p)" "\<not> is_process (Op_connect p)" "\<not> is_process Op_listen"
  "\<not> is_process Op_accept" "\<not> is_process (Op_setns p t)" "\<not> is_process Op_socket_netlink" "\<not> is_process Op_bind_netlink"
  "\<not> is_process (Op_nl_send b8)" "\<not> is_process Op_nl_recv" "\<not> is_process (Op_command p l')"
  by (simp_all add: is_process_def)

lemma is_stream_simps [simp]:
  "is_stream (Op_stream_write p t)" "\<not> is_stream (Op_exists p)" "\<not> is_stream (Op_read p)" "\<not> is_stream (Op_create p)"
  "\<not> is_stream (Op_write p t)" "\<not> is_stream (Op_mkdir_all p)" "\<not> is_stream (Op_chmod p n)" "\<not> is_stream (Op_open p)"
  "\<not> is_stream (Op_open_append p)" "\<not> is_stream (Op_append p t)" "\<not> is_stream (Op_stream_connect p)"
  "\<not> is_stream (Op_clone3 l)" "\<not> is_stream Op_pipe2" "\<not> is_stream Op_pipe_read" "\<not> is_stream Op_pipe_write"
  "\<not> is_stream Op_socket_unix" "\<not> is_stream (Op_unix_addr p)" "\<not> is_stream (Op_backlog b)" "\<not> is_stream (Op_bind p)"
  "\<not> is_stream (Op_connect p)" "\<not> is_stream Op_listen" "\<not> is_stream Op_accept" "\<not> is_stream (Op_waitpid q)" "\<not> is_stream (Op_setns p t)"
  "\<not> is_stream Op_socket_netlink" "\<not> is_stream Op_bind_netlink" "\<not> is_stream (Op_nl_send b8)" "\<not> is_stream Op_nl_recv"
  "\<not> is_stream (Op_command p l')"
  by (simp_all add: is_stream_def)

lemma emits_case_prod [frames]: "(\<And>a b. emits A (f a b)) \<Longrightarrow> emits A (case p of (a, b) \<Rightarrow> f a b)"
  by (cases p) simp

lemma emits_nl_recv [frames]: "A Op_nl_recv \<Longrightarrow> emits A (nl_recv K)"
  unfolding emits_def nl_recv_def
  by (auto simp: bindE_def map_err_def nix_call_def comp_simps split: option.splits)

lemma silent_nl [frames]: "silent (nl_answer K b)" "silent (nl_send K m)" "silent (recv_ack K)"
  unfolding nl_answer_def nl_send_def recv_ack_def Let_def by (intro frames | simp add: nl_answer_def Let_def)+

lemma silent_requests [frames]:
  "silent (create_netlink_socket K)" "silent (create_veth_pair K m host peer)" "silent (set_interface_up K m i)"
  "silent (set_ip_addr K m i ip n)" "silent (move_to_netns K m i fd)" "silent (get_interface_index K m name)"
  "silent (add_default_route K m ip)" "silent (setns_net K p what)"
  unfolding create_netlink_socket_def create_veth_pair_def set_interface_up_def set_ip_addr_def
    move_to_netns_def get_interface_index_def add_default_route_def setns_net_def
  by (intro frames; simp)+

lemma silent_create_network [frames]: "silent (create_network K cid pid)"
  unfolding create_network_def Let_def by (intro frames; simp)

lemma silent_parent_proc_socket [frames]: "silent (parent_proc_socket K cid rt)"
  unfolding parent_proc_socket_def get_socket_fd_def Let_def by (intro frames; simp)

lemma silent_path_exists [frames]: "silent (path_exists K p)"
  by (auto simp: emits_def path_exists_def fs_exists_def Let_def)

lemma silent_pipe [frames]: "silent (parent_child_pipe K rt)" "silent (unfreeze_child K rt)"
  using emits_runtime [of "\<lambda>op. \<not> is_stream op \<and> \<not> is_process op" "[]"] by simp_all

lemma container_clone_ok:
  assumes "container_clone K fd w = (Inr pid, w')"
  obtains a where "pid = k_int K (Op_clone3 a) w" "hist w' = hist w @ [(Op_clone3 a, True)]"
  using assms by (auto simp: container_clone_def clone3_build_def Let_def comp_ok io_call_ok comp_simps throw_def split: option.splits)

lemma nix_waitpid_ok:
  assumes "nix_waitpid K pid w = (Inr st, w')"
  shows "st = k_wait K pid w" "hist w' = hist w @ [(Op_waitpid pid, True)]"
  using assms by (auto simp: nix_waitpid_def nix_blocking_def nix_call_ok comp_ok comp_simps)

lemma emits_notify_calm [frames]: "emits (\<lambda>op. \<not> is_process op) (notify K sp ev)"
  by (auto simp: notify_def intro!: frames split: option.split)

lemma silent_steps [frames]:
  "silent (config_load K1 p)" "silent (fs_create_dir_all K2 p)" "silent (fs_set_permissions K3 p mode)"
  "silent (open_log_file K4 p)" "silent (write_state_file K5 c s)" "silent (update_state K6 c f)"
  "silent (create_cgroup K7 c)" "silent (init_resources K8 p rs)" "silent (set_cgroup K9 p res key v)"
  "silent (write_log_file K10 fd t)"
  by (intro frames; simp)+

lemma notify_sent:
  assumes "event_codec K" "notify K (Some sp) ev w = (Inr u, w')"
  shows "\<exists>t. sent w' = sent w @ [Op_stream_write sp (t @ newline)] \<and> j_event_from_str K t = Inr ev"
  using send_event_hist [OF assms(1)] assms(2) by (fastforce simp: notify_def sent_def)

lemma container_exec_never_returns: "container_exec K args env cwd fd w \<noteq> (Inr u, w')"
  by (auto simp: container_exec_def execve_failed_def die_def comp_ok attempt_ok comp_simps
      split: list.splits if_splits option.splits sum.splits)

lemma create_child_never_returns: "create_child K b cfg rt fd w \<noteq> (Inr u, w')"
  by (auto simp: create_child_def Let_def comp_ok container_exec_never_returns)

text \<open>\<open>create\<close> from its first look at the bundle to the clone.\<close>

definition create_front ::
    "('k) config_kernel_scheme \<Rightarrow> string \<Rightarrow> string \<Rightarrow> string option \<Rightarrow> (Config \<times> string \<times> Runtime \<times> i32) core" where
  "create_front K container_id config_path socket_path =
     (let bundle_path = get_bundle_path container_id; resources = [''cpu'', ''memory''] in
      bindE (config_load K config_path) (\<lambda>config.
      thenE (map_err (\<lambda>e. SystemError (system_error.Io e bundle_path)) (fs_create_dir_all K bundle_path))
     (thenE (map_err (\<lambda>e. SystemError (system_error.Io e bundle_path)) (fs_set_permissions K bundle_path 0x1C0))
     (bindE (open_log_file K bundle_path) (\<lambda>log_fd.
      thenE (notify K socket_path (Event_new container_id Creating (Some 0)))
     (thenE (write_state_file K container_id
               (State_new (c_oci_version config) container_id Creating None bundle_path None))
     (bindE (create_cgroup K container_id) (\<lambda>cg.
      thenE (init_resources K get_root_cgroup_path resources)
     (thenE (init_resources K get_app_cgroup_path resources)
     (bindE (parent_child_pipe K (Runtime_new None None None)) (\<lambda>runtime.
      bindE (container_clone K (snd cg)) (\<lambda>child_pid.
      ret (config, log_fd, runtime, child_pid)))))))))))))"

lemma bind_ret: "bindE (ret x) f = f x"
  by (simp add: fun_eq_iff bindE_def ret_def)

lemma create_eq:
  "create K c cfg sp =
     bindE (path_exists K (get_bundle_path c)) (\<lambda>found.
     if found then throw (ContainerAlreadyExists c)
     else bindE (create_front K c cfg sp) (\<lambda>(config, log_fd, runtime, child_pid).
       if child_pid = 0 then create_child K (get_bundle_path c) config runtime log_fd
       else create_parent K c sp (Event_new c Creating (Some 0)) runtime child_pid log_fd))"
  unfolding create_def create_front_def Let_def thenE_def bindE_assoc bind_ret split_def fst_conv snd_conv ..

text \<open>What a run of \<open>create\<close> that returns has gone through, up to the clone and after it.\<close>

lemma create_front_ok:
  assumes "create_front K c cfg sp w = (Inr (config, fd, rt, pid), w')"
  obtains w1 w2 w3 wc a where
    "notify K sp (Event_new c Creating (Some 0)) w1 = (Inr (), w2)"
    "write_state_file K c (State_new (c_oci_version config) c Creating None (get_bundle_path c) None) w2 = (Inr (), w3)"
    "sent w1 = sent w" "sent w' = sent w3" "fd = log_path c"
    "calm w wc" "pid = k_int K (Op_clone3 a) wc" "hist w' = hist wc @ [(Op_clone3 a, True)]"
proof -
  from assms obtain wa wb wc w1 w2 w3 cg wd we wf wg where
    e1: "config_load K cfg w = (Inr config, wa)"
    and e2: "fs_create_dir_all K (get_bundle_path c) wa = (Inr (), wb)"
    and e3: "fs_set_permissions K (get_bundle_path c) 0x1C0 wb = (Inr (), wc)"
    and e4: "open_log_file K (get_bundle_path c) wc = (Inr fd, w1)"
    and n: "notify K sp (Event_new c Creating (Some 0)) w1 = (Inr (), w2)"
    and s: "write_state_file K c (State_new (c_oci_version config) c Creating None (get_bundle_path c) None) w2 = (Inr (), w3)"
    and e5: "create_cgroup K c w3 = (Inr cg, wd)"
    and e6: "init_resources K get_root_cgroup_path [''cpu'', ''memory''] wd = (Inr (), we)"
    and e7: "init_resources K get_app_cgroup_path [''cpu'', ''memory''] we = (Inr (), wf)"
    and e8: "parent_child_pipe K (Runtime_new None None None) wf = (Inr rt, wg)"
    and e9: "container_clone K (snd cg) wg = (Inr pid, w')"
    unfolding create_front_def Let_def by (auto simp: comp_ok comp_simps)
  obtain a where a: "pid = k_int K (Op_clone3 a) wg" "hist w' = hist wg @ [(Op_clone3 a, True)]"
    by (rule container_clone_ok [OF e9])
  have "sent w1 = sent w"
    using silent_sent [OF silent_steps(1) e1] silent_sent [OF silent_steps(2) e2]
      silent_sent [OF silent_steps(3) e3] silent_sent [OF silent_steps(4) e4] by simp
  moreover have "sent w' = sent w3"
    using silent_sent [OF silent_steps(7) e5] silent_sent [OF silent_steps(8) e6]
      silent_sent [OF silent_steps(8) e7] silent_sent [OF silent_pipe(1) e8] a(2) by (simp add: sent_def)
  moreover have "calm w wg"
    by (rule calm_trans [OF silent_calm [OF silent_steps(1) e1] calm_trans [OF silent_calm [OF silent_steps(2) e2]
      calm_trans [OF silent_calm [OF silent_steps(3) e3] calm_trans [OF silent_calm [OF silent_steps(4) e4]
      calm_trans [OF emits_calm [OF emits_notify_calm n] calm_trans [OF silent_calm [OF silent_steps(5) s]
      calm_trans [OF silent_calm [OF silent_steps(7) e5] calm_trans [OF silent_calm [OF silent_steps(8) e6]
      calm_trans [OF silent_calm [OF silent_steps(8) e7] silent_calm [OF silent_pipe(1) e8]]]]]]]]]])
  moreover have "fd = log_path c"
    using open_log_file_fd [OF e4] by (simp add: log_path_def)
  ultimately show ?thesis using a by (intro that [OF n s])
qed

lemma create_ok:
  assumes "create K c cfg sp w = (Inr u, w')"
  obtains config :: Config and w1 fd w2 w3 rt pid wc w5 a where
    "notify K sp (Event_new c Creating (Some 0)) w1 = (Inr (), w2)"
    "write_state_file K c (State_new (c_oci_version config) c Creating None (get_bundle_path c) None) w2 = (Inr (), w3)"
    "create_parent K c sp (Event_new c Creating (Some 0)) rt pid fd w5 = (Inr u, w')"
    "sent w1 = sent w" "sent w5 = sent w3" "pid \<noteq> 0" "fd = log_path c"
    "calm w wc" "pid = k_int K (Op_clone3 a) wc" "hist w5 = hist wc @ [(Op_clone3 a, True)]"
proof -
  from assms obtain w0 config fd rt pid w5 where ex: "path_exists K (get_bundle_path c) w = (Inr False, w0)"
    and front: "create_front K c cfg sp w0 = (Inr (config, fd, rt, pid), w5)"
    and p: "pid \<noteq> 0" "create_parent K c sp (Event_new c Creating (Some 0)) rt pid fd w5 = (Inr u, w')"
    unfolding create_eq
    by (auto simp: comp_ok comp_simps create_child_never_returns split: if_splits prod.splits)
  obtain w1 w2 w3 wc a where n: "notify K sp (Event_new c Creating (Some 0)) w1 = (Inr (), w2)"
    and s: "write_state_file K c (State_new (c_oci_version config) c Creating None (get_bundle_path c) None) w2 = (Inr (), w3)"
    and h: "sent w1 = sent w0" "sent w5 = sent w3" "fd = log_path c"
      "calm w0 wc" "pid = k_int K (Op_clone3 a) wc" "hist w5 = hist wc @ [(Op_clone3 a, True)]"
    by (rule create_front_ok [OF front])
  have "sent w1 = sent w" using h(1) silent_sent [OF silent_path_exists ex] by simp
  moreover have "calm w wc" by (rule calm_trans [OF silent_calm [OF silent_path_exists ex] h(4)])
  ultimately show ?thesis using h by (intro that [OF n s p(2)] p(1))
qed

lemma create_parent_ok:
  assumes "create_parent K c sp ev rt pid fd w = (Inr u, w')"
  obtains w1 w2 w4 st wx w5 w6 s where
    "notify K sp (event_update_state Created ev) w1 = (Inr (), w2)"
    "notify K sp (event_update_state Stopped
        (case st of WExited _ i \<Rightarrow> event_update_exit_code i (event_update_state Created ev)
         | _ \<Rightarrow> event_update_state Created ev)) w4 = (Inr (), w5)"
    "update_state K c set_stopped w5 = (Inr s, w6)"
    "write_log_file K fd (k_debug_wait K st @ newline) w6 = (Inr u, w')"
    "st = k_wait K pid wx" "sent w1 = sent w" "sent w4 = sent w2" "sent w' = sent w5"
    "calm w wx" "hist w4 = hist wx @ [(Op_waitpid pid, True)]" "calm w4 w'"
proof -
  from assms obtain wa wb w1 w2 s1 wc rt' wd we st w4 w5 s w6 where
    e1: "create_network K c pid w = (Inr (), wa)"
    and e2: "set_cgroup K (get_child_cgroup_path c) ''cpu'' ''max'' ''100000 100000'' wa = (Inr (), wb)"
    and e3: "set_cgroup K (get_child_cgroup_path c) ''memory'' ''max'' ''256M'' wb = (Inr (), w1)"
    and n1: "notify K sp (event_update_state Created ev) w1 = (Inr (), w2)"
    and e4: "update_state K c (set_created pid) w2 = (Inr s1, wc)"
    and e5: "parent_proc_socket K c rt wc = (Inr rt', wd)"
    and e6: "unfreeze_child K rt' wd = (Inr (), we)"
    and e7: "nix_waitpid K pid we = (Inr st, w4)"
    and n2: "notify K sp (event_update_state Stopped
        (case st of WExited _ i \<Rightarrow> event_update_exit_code i (event_update_state Created ev)
         | _ \<Rightarrow> event_update_state Created ev)) w4 = (Inr (), w5)"
    and e8: "update_state K c set_stopped w5 = (Inr s, w6)"
    and e9: "write_log_file K fd (k_debug_wait K st @ newline) w6 = (Inr u, w')"
    unfolding create_parent_def Let_def by (auto simp: comp_ok)
  note wait = nix_waitpid_ok [OF e7]
  have "sent w1 = sent w"
    using silent_sent [OF silent_create_network e1] silent_sent [OF silent_steps(9) e2]
      silent_sent [OF silent_steps(9) e3] by simp
  moreover have "sent w4 = sent w2"
    using silent_sent [OF silent_steps(6) e4] silent_sent [OF silent_parent_proc_socket e5]
      silent_sent [OF silent_pipe(2) e6] wait(2) by (simp add: sent_def)
  moreover have "sent w' = sent w5"
    using silent_sent [OF silent_steps(6) e8] silent_sent [OF silent_steps(10) e9] by simp
  moreover have "calm w we"
    by (rule calm_trans [OF silent_calm [OF silent_create_network e1]
      calm_trans [OF silent_calm [OF silent_steps(9) e2]
      calm_trans [OF silent_calm [OF silent_steps(9) e3]
      calm_trans [OF emits_calm [OF emits_notify_calm n1]
      calm_trans [OF silent_calm [OF silent_steps(6) e4]
      calm_trans [OF silent_calm [OF silent_parent_proc_socket e5]
      silent_calm [OF silent_pipe(2) e6]]]]]]])
  moreover have "calm w4 w'"
    by (rule calm_trans [OF emits_calm [OF emits_notify_calm n2]
      calm_trans [OF silent_calm [OF silent_steps(6) e8]
      silent_calm [OF silent_steps(10) e9]]])
  ultimately show ?thesis using that n1 n2 e8 e9 wait by blast
qed

section \<open>Properties\<close>

text \<open>
  When the bundle directory exists, \<open>create\<close> fails with \<open>ContainerAlreadyExists\<close>, and
  when the configuration cannot be loaded it fails with that error; in both cases no file has
  changed and nothing was sent, so the container that has the id is not disturbed.
\<close>

theorem create_refuses:
  assumes "plain_id c" "k_io K (Op_exists (get_bundle_path c)) w = None"
    and "node_at w (bundle_comps c) \<noteq> None \<or> config_load K cfg (log_op (Op_exists (get_bundle_path c)) True w) = (Inl (Fail e), w1)"
  shows "\<exists>w'. create K c cfg sp w =
      (Inl (Fail (if node_at w (bundle_comps c) \<noteq> None then ContainerAlreadyExists c else e)), w') \<and>
      node_at w' = node_at w \<and> sent w' = sent w"
proof -
  have ex: "path_exists K (get_bundle_path c) w =
      (Inr (node_at w (bundle_comps c) \<noteq> None), log_op (Op_exists (get_bundle_path c)) True w)"
    using assms(1,2) by (simp add: path_exists_def fs_exists_def Let_def)
  show ?thesis
  proof (cases "node_at w (bundle_comps c) = None")
    case False
    then show ?thesis
      using ex by (auto simp: create_def Let_def bindE_def comp_simps sent_def)
  next
    case True
    with assms(3) have cl: "config_load K cfg (log_op (Op_exists (get_bundle_path c)) True w) = (Inl (Fail e), w1)" by simp
    have "node_at w1 q = node_at w q" for q
      using keepsD [OF keeps_config_load [of UNIV] cl, of q] by simp
    moreover have "sent w1 = sent w"
      using silent_sent [OF silent_steps(1) cl] by (simp add: sent_def)
    ultimately show ?thesis
      using ex True cl by (auto simp: create_def Let_def bindE_def comp_simps)
  qed
qed

text \<open>
  A run from \<open>w\<close> to \<open>w'\<close> starts one process, with the pid \<open>pid\<close>, and waits once for that
  process, at \<open>wx\<close>; both moments are found in its history.
\<close>

definition waited_for :: "('k) kernel_scheme \<Rightarrow> world \<Rightarrow> world \<Rightarrow> i32 \<Rightarrow> world \<Rightarrow> bool" where
  "waited_for K w w' pid wx \<longleftrightarrow>
     (\<exists>wc a h1 h2 h3. hist wc = hist w @ h1 \<and> pid = k_int K (Op_clone3 a) wc \<and>
        hist wx = hist wc @ (Op_clone3 a, True) # h2 \<and> hist w' = hist wx @ (Op_waitpid pid, True) # h3 \<and>
        (\<forall>e \<in> set (h1 @ h2 @ h3). \<not> is_process (fst e)))"

lemma waited_forI:
  assumes "calm w wc" "pid = k_int K (Op_clone3 a) wc" "hist w1 = hist wc @ [(Op_clone3 a, True)]" "calm w1 wx"
    and "hist w2 = hist wx @ [(Op_waitpid pid, True)]" "calm w2 w'"
  shows "waited_for K w w' pid wx"
proof -
  from assms(1,4,6) obtain h1 h2 h3 where "hist wc = hist w @ h1" "hist wx = hist w1 @ h2" "hist w' = hist w2 @ h3"
    "\<forall>e \<in> set (h1 @ h2 @ h3). \<not> is_process (fst e)"
    unfolding calm_def by (metis Un_iff set_append)
  with assms(2,3,5) show ?thesis
    unfolding waited_for_def by (intro exI [of _ wc] exI [of _ a] exI [of _ h1] exI [of _ h2] exI [of _ h3]) simp
qed

lemma create_sends:
  assumes "event_codec K" "create K c cfg (Some sp) w = (Inr u, w')"
  shows "\<exists>t1 t2 t3 pid wx. waited_for K w w' pid wx \<and>
    sent w' = sent w @ [Op_stream_write sp (t1 @ newline), Op_stream_write sp (t2 @ newline), Op_stream_write sp (t3 @ newline)] \<and>
    j_event_from_str K t1 = Inr \<lparr>e_id = c, e_state = Creating, e_exit_code = Some 0\<rparr> \<and>
    j_event_from_str K t2 = Inr \<lparr>e_id = c, e_state = Created, e_exit_code = Some 0\<rparr> \<and>
    j_event_from_str K t3 = Inr \<lparr>e_id = c, e_state = Stopped,
      e_exit_code = Some (case k_wait K pid wx of WExited _ i \<Rightarrow> i | _ \<Rightarrow> 0)\<rparr>"
proof -
  obtain config :: Config and w1 fd w2 w3 rt pid wc w5 a where
    n1: "notify K (Some sp) (Event_new c Creating (Some 0)) w1 = (Inr (), w2)"
    and ws: "write_state_file K c (State_new (c_oci_version config) c Creating None (get_bundle_path c) None) w2 = (Inr (), w3)"
    and cp: "create_parent K c (Some sp) (Event_new c Creating (Some 0)) rt pid fd w5 = (Inr u, w')"
    and s: "sent w1 = sent w" "sent w5 = sent w3" and "pid \<noteq> 0" "fd = log_path c"
    and h: "calm w wc" "pid = k_int K (Op_clone3 a) wc" "hist w5 = hist wc @ [(Op_clone3 a, True)]"
    by (rule create_ok [OF assms(2)])
  obtain v1 v2 v4 st wx v5 v6 s' where
    n2: "notify K (Some sp) (event_update_state Created (Event_new c Creating (Some 0))) v1 = (Inr (), v2)"
    and n3: "notify K (Some sp) (event_update_state Stopped
        (case st of WExited _ i \<Rightarrow> event_update_exit_code i (event_update_state Created (Event_new c Creating (Some 0)))
         | _ \<Rightarrow> event_update_state Created (Event_new c Creating (Some 0)))) v4 = (Inr (), v5)"
    and "update_state K c set_stopped v5 = (Inr s', v6)"
      "write_log_file K fd (k_debug_wait K st @ newline) v6 = (Inr u, w')"
    and v: "st = k_wait K pid wx" "sent v1 = sent w5" "sent v4 = sent v2" "sent w' = sent v5"
      "calm w5 wx" "hist v4 = hist wx @ [(Op_waitpid pid, True)]" "calm v4 w'"
    by (rule create_parent_ok [OF cp])
  have ev: "event_update_state Stopped
        (case st of WExited _ i \<Rightarrow> event_update_exit_code i (event_update_state Created (Event_new c Creating (Some 0)))
         | _ \<Rightarrow> event_update_state Created (Event_new c Creating (Some 0))) =
      \<lparr>e_id = c, e_state = Stopped, e_exit_code = Some (case st of WExited _ i \<Rightarrow> i | _ \<Rightarrow> 0)\<rparr>"
    by (cases st) (simp_all add: event_defs)
  obtain t1 where t1: "sent w2 = sent w1 @ [Op_stream_write sp (t1 @ newline)]"
    "j_event_from_str K t1 = Inr (Event_new c Creating (Some 0))"
    using notify_sent [OF assms(1) n1] by blast
  obtain t2 where t2: "sent v2 = sent v1 @ [Op_stream_write sp (t2 @ newline)]"
    "j_event_from_str K t2 = Inr (event_update_state Created (Event_new c Creating (Some 0)))"
    using notify_sent [OF assms(1) n2] by blast
  obtain t3 where t3: "sent v5 = sent v4 @ [Op_stream_write sp (t3 @ newline)]"
    "j_event_from_str K t3 = Inr \<lparr>e_id = c, e_state = Stopped, e_exit_code = Some (case st of WExited _ i \<Rightarrow> i | _ \<Rightarrow> 0)\<rparr>"
    using notify_sent [OF assms(1) n3 [unfolded ev]] by blast
  have "sent w3 = sent w2" by (rule silent_sent [OF silent_steps(5) ws])
  moreover have "waited_for K w w' pid wx" by (rule waited_forI [OF h v(5-7)])
  ultimately show ?thesis using s v t1 t2 t3
    by (intro exI [of _ t1] exI [of _ t2] exI [of _ t3] exI [of _ pid] exI [of _ wx]) (simp add: event_defs)
qed

text \<open>
  C6. A \<open>create\<close> with an event socket that returns has sent exactly three events, in this
  order: creating, created and stopped. The last one carries the exit code that the wait status
  of the process started by this run has when it exited, and still 0 when it was killed by a signal.
\<close>

theorem create_events:
  assumes "event_codec K" "create K c cfg (Some sp) w = (Inr u, w')"
  shows "\<exists>t1 t2 t3 pid wx. waited_for K w w' pid wx \<and>
    sent w' = sent w @ [Op_stream_write sp (t1 @ newline), Op_stream_write sp (t2 @ newline), Op_stream_write sp (t3 @ newline)] \<and>
    j_event_from_str K t1 = Inr \<lparr>e_id = c, e_state = Creating, e_exit_code = Some 0\<rparr> \<and>
    j_event_from_str K t2 = Inr \<lparr>e_id = c, e_state = Created, e_exit_code = Some 0\<rparr> \<and>
    j_event_from_str K t3 = Inr \<lparr>e_id = c, e_state = Stopped,
      e_exit_code = Some (case k_wait K pid wx of WExited _ i \<Rightarrow> i | _ \<Rightarrow> 0)\<rparr>"
  using assms by (rule create_sends)

text \<open>
  C25. When \<open>create\<close> returns, the container has run and is over: whatever other processes did
  to the state file while \<open>create\<close> was blocked in \<open>accept\<close> or \<open>waitpid\<close>, the stored state is stopped
  and has no pid. The write that stores it is one step here; what a command of another process
  does when it comes between that write and the end of \<open>create\<close>, or between its two calls, is the
  subject of the theory \<open>Race\<close>.
\<close>

theorem create_ends_stopped:
  assumes "plain_id c" "state_codec K" "create K c cfg sp w = (Inr u, w')"
  shows "\<exists>s. stored K w' c = Some s \<and> s_status s = Stopped \<and> s_pid s = None"
proof -
  obtain rt pid fd w5 where
    cp: "create_parent K c sp (Event_new c Creating (Some 0)) rt pid fd w5 = (Inr u, w')" and fd: "fd = log_path c"
    by (rule create_ok [OF assms(3)])
  obtain v5 v6 s st where up: "update_state K c set_stopped v5 = (Inr s, v6)"
    and lg: "write_log_file K fd (k_debug_wait K st @ newline) v6 = (Inr u, w')"
    by (rule create_parent_ok [OF cp])
  obtain t where "stored K v6 c = Some (set_stopped t)"
    using update_state_ok [OF assms(1,2) up] by blast
  moreover have k: "keeps {state_comps c} (write_log_file K fd (k_debug_wait K st @ newline))"
    unfolding fd using assms(1) by (intro frames) simp_all
  ultimately show ?thesis
    using stored_keeps [OF k lg, of K] by (simp add: set_stopped_def)
qed

text \<open>The child's set-up, up to the read of the pipe, is a script.\<close>

definition setup_ops :: "string \<Rightarrow> Config \<Rightarrow> sysop list" where
  "setup_ops b config =
     (let ms = unwrap_or_default (c_mounts config); root = get_root_path config in
      Op_mount None ''/'' None (MS_PRIVATE OR MS_REC) None #
      Op_sethostname (case c_hostname config of Some h \<Rightarrow> h | None \<Rightarrow> ''none'') #
      pre_pivot_ops b root ms @ pivot_ops (pre_pivot_root b root ms) @ tmpfs_ops ms @ default_ops)"

definition child_setup :: "('k) kernel_scheme \<Rightarrow> string \<Rightarrow> Config \<Rightarrow> unit core" where
  "child_setup K b config =
     (let ms = unwrap_or_default (c_mounts config) in
      thenE (make_child_private K)
     (thenE (set_child_hostname K (case c_hostname config of Some h \<Rightarrow> h | None \<Rightarrow> ''none''))
     (bindE (pre_pivot_mount K b (get_root_path config) ms) (\<lambda>new_root.
      thenE (do_pivot_root K new_root) (thenE (post_pivot_mount K ms) (do_default_mounts K))))))"

lemma thenE_assoc: "thenE (thenE a b) d = thenE a (thenE b d)" "thenE (bindE a f) d = bindE a (\<lambda>x. thenE (f x) d)"
  by (simp_all add: thenE_def bindE_assoc)

lemma create_child_split:
  "create_child K b config rt fd =
     thenE (child_setup K b config)
    (thenE (freeze_child K rt)
       (container_exec K (get_process_args config) (get_process_env config) (Some (get_process_cwd config)) fd))"
  by (simp add: create_child_def child_setup_def Let_def thenE_assoc)

lemma scripted_child_setup: "scripted (setup_ops b config) (child_setup K b config) ()"
  unfolding child_setup_def setup_ops_def Let_def make_child_private_def set_child_hostname_def
  by (intro scripted_step scripted_try_nix scripted_bind [OF scripted_pre_pivot] scripted_then [where v = "()"]
      scripted_pivot scripted_post_pivot scripted_default)

lemma attempt_nix_run:
  "attempt (nix_call K op) w =
     (Inr (case k_errno K op w of None \<Rightarrow> Inr () | Some e \<Rightarrow> Inl e), log_op op (k_errno K op w = None) w)"
  by (simp add: attempt_def nix_call_def split: option.splits)

lemma die_run: "die K msg w = (Inl (Exited 1), log_op (Op_stderr msg) (k_errno K (Op_stderr msg) w = None) w)"
  by (simp add: die_def bindE_def attempt_nix_run comp_simps)

lemma write_log_attempt: "\<exists>r w'. (attempt (write_log_file K fd t) :: (core_error + unit) core) w = (Inr r, w')"
  by (auto simp: attempt_def write_log_file_def map_err_def fs_append_def Let_def bindE_def io_call_def
      split: option.splits)

lemma execve_failed_exits: "fst (execve_failed K fd e w) = Inl (Exited 1)"
  using write_log_attempt [of K fd "''Execve failure: '' @ k_errno_text K e @ newline" w]
  unfolding execve_failed_def bindE_def by (auto simp: comp_simps)

lemma container_exec_replaced:
  assumes "container_exec K args env (Some d) fd w = (Inl Replaced, w')"
  shows "\<exists>path rest ok. args = Some (path # rest) \<and>
    hist w' = hist w @ [(Op_chdir d, ok), (Op_execve path (path # rest) (unwrap_or_default env), True)]"
proof (cases "unwrap_or_default args")
  case Nil
  with assms show ?thesis by (simp add: container_exec_def die_run)
next
  case (Cons path rest)
  then have args: "args = Some (path # rest)" by (auto simp: unwrap_or_default_def split: option.splits)
  let ?op = "Op_execve path (path # rest) (unwrap_or_default env)"
  let ?w1 = "log_op (Op_chdir d) (k_errno K (Op_chdir d) w = None) w"
  have ok: "\<not> has_nul path" "\<not> list_ex has_nul (path # rest)" "\<not> list_ex has_nul (unwrap_or_default env)" "\<not> has_nul d"
    using assms Cons by (auto simp: container_exec_def die_run to_cstring_vec_def comp_simps thenE_def bindE_def
        split: if_splits)
  have "container_exec K args env (Some d) fd w =
      bindE (attempt (nix_call K ?op)) (\<lambda>r. case r of Inr _ \<Rightarrow> stop_with Replaced | Inl e \<Rightarrow> execve_failed K fd e) ?w1"
    using Cons ok by (simp add: container_exec_def to_cstring_vec_def thenE_def bindE_def attempt_nix_run comp_simps)
  with assms have run: "(case k_errno K ?op ?w1 of None \<Rightarrow> (stop_with Replaced :: unit core) | Some e \<Rightarrow> execve_failed K fd e)
      (log_op ?op (k_errno K ?op ?w1 = None) ?w1) = (Inl Replaced, w')"
    by (simp add: bindE_def attempt_nix_run split: option.splits)
  have "k_errno K ?op ?w1 = None"
  proof (rule ccontr)
    assume "k_errno K ?op ?w1 \<noteq> None"
    then obtain e where "k_errno K ?op ?w1 = Some e" by auto
    with run have "(execve_failed K fd e :: unit core) (log_op ?op False ?w1) = (Inl Replaced, w')" by simp
    then have "fst ((execve_failed K fd e :: unit core) (log_op ?op False ?w1)) = Inl Replaced" by simp
    then show False by (simp add: execve_failed_exits)
  qed
  with run have "w' = log_op ?op True ?w1"
    by (simp add: bindE_def attempt_nix_run comp_simps)
  with args show ?thesis by simp
qed

text \<open>
  C11. The container's program runs last: if the child of \<open>create\<close> replaces its image, then the
  whole set-up came first, every call of it succeeded and in this order, then the read of the
  pipe that \<open>start\<close> releases, and the program is the one the configuration names, with its
  arguments and environment.
\<close>

theorem child_runs_last:
  assumes "create_child K b config rt fd w = (Inl Replaced, w')" "child_end rt = Some rd"
  shows "\<exists>path rest ok. get_process_args config = Some (path # rest) \<and>
    hist w' = hist w @ map (\<lambda>op. (op, True)) (setup_ops b config) @
      [(Op_pipe_read, True), (Op_chdir (get_process_cwd config), ok),
       (Op_execve path (path # rest) (unwrap_or_default (get_process_env config)), True)]"
proof -
  obtain r w1 where su: "child_setup K b config w = (r, w1)" by fastforce
  have "r = Inr ()" and h1: "hist w1 = hist w @ map (\<lambda>op. (op, True)) (setup_ops b config)"
  proof -
    have "r \<noteq> Inl (Exited 1)"
      using assms(1) su by (auto simp: create_child_split thenE_def bindE_def)
    then show "r = Inr ()" "hist w1 = hist w @ map (\<lambda>op. (op, True)) (setup_ops b config)"
      using scripted_child_setup [of b config K] su unfolding scripted_def by (metis fst_conv snd_conv)+
  qed
  with assms(1) su have "thenE (freeze_child K rt)
      (container_exec K (get_process_args config) (get_process_env config) (Some (get_process_cwd config)) fd) w1 =
      (Inl Replaced, w')"
    by (simp add: create_child_split comp_simps)
  then obtain w2 where fr: "freeze_child K rt w1 = (Inr (), w2)"
    and ex: "container_exec K (get_process_args config) (get_process_env config) (Some (get_process_cwd config)) fd w2 =
      (Inl Replaced, w')"
    using assms(2)
    by (auto simp: thenE_stop freeze_child_def map_err_stop nix_blocking_def nix_call_stop)
  have "hist w2 = hist w1 @ [(Op_pipe_read, True)]"
    using fr assms(2) by (auto simp: freeze_child_def map_err_ok nix_blocking_def nix_call_ok)
  with container_exec_replaced [OF ex] h1 show ?thesis by auto
qed

section \<open>Where an error comes from\<close>

definition errs :: "(core_error \<Rightarrow> bool) \<Rightarrow> 'a core \<Rightarrow> bool" where
  "errs P m \<longleftrightarrow> (\<forall>w e w'. m w = (Inl (Fail e), w') \<longrightarrow> P e)"

lemma errsD: "errs P m \<Longrightarrow> m w = (Inl (Fail e), w') \<Longrightarrow> P e"
  by (auto simp: errs_def)

lemma map_stop_Fail: "Fail e = map_stop f s \<longleftrightarrow> (\<exists>x. s = Fail x \<and> e = f x)"
  by (cases s) auto

lemma errs_rules [frames]:
  "errs P (ret x)" "P e \<Longrightarrow> errs P (throw e)" "errs P (stop_with Panicked)" "errs P (stop_with (Exited n))"
  "errs P (stop_with Replaced)"
  "(\<And>x. P (f x)) \<Longrightarrow> errs P (map_err f m)"
  "(\<And>x. P (g x)) \<Longrightarrow> errs P (lift_result (map_sum g h r))"
  by (auto simp: errs_def comp_simps map_err_stop map_stop_Fail lift_result_def map_sum_def split: sum.splits)

lemma errs_attempt [frames]: "errs P (attempt m)"
  by (auto simp: errs_def attempt_def split: prod.splits sum.splits stop.splits)

lemma errs_bind [frames]:
  "errs P m \<Longrightarrow> (\<And>x. errs P (f x)) \<Longrightarrow> errs P (bindE m f)"
  "errs P m' \<Longrightarrow> errs P m'' \<Longrightarrow> errs P (thenE m' m'')"
  unfolding errs_def bindE_stop thenE_stop by blast+

lemma errs_cases [frames]:
  "(b \<Longrightarrow> errs P m) \<Longrightarrow> (\<not> b \<Longrightarrow> errs P m') \<Longrightarrow> errs P (if b then m else m')"
  "(\<And>e. errs P (f1 e)) \<Longrightarrow> (\<And>x. errs P (g1 x)) \<Longrightarrow> errs P (case r of Inl e \<Rightarrow> f1 e | Inr x \<Rightarrow> g1 x)"
  "errs P f2 \<Longrightarrow> (\<And>x. errs P (g2 x)) \<Longrightarrow> errs P (case v of None \<Rightarrow> f2 | Some x \<Rightarrow> g2 x)"
  "(\<And>a b. errs P (h a b)) \<Longrightarrow> errs P (case p of (a, b) \<Rightarrow> h a b)"
  by (auto split: sum.splits option.splits prod.splits)

lemma errs_for_each [frames]: "(\<And>x. errs P (f x)) \<Longrightarrow> errs P (for_each xs f)"
  by (induction xs) (auto intro: frames)

definition not_network :: "core_error \<Rightarrow> bool" where
  "not_network e \<longleftrightarrow> (\<forall>n. e \<noteq> from_network n)"

lemma not_network_simps [simp]:
  "not_network (from_runtime a)" "not_network (from_clone b)" "not_network (from_cgroup c)" "not_network (from_log d)"
  "not_network (from_event e)" "not_network (ConfigError f)" "not_network (StateError g)"
  "not_network (SystemError (Wait h))" "not_network (SystemError (system_error.Io i j))"
  "not_network (ContainerAlreadyExists k)" "not_network (ContainerNotFound l)"
  by (simp_all add: not_network_def from_defs)

lemma errs_steps [frames]:
  "errs not_network (config_load K1 p)" "errs not_network (open_log_file K2 p)"
  "errs not_network (write_state_file K3 c st)" "errs not_network (read_state_file K3 c)"
  "errs not_network (create_cgroup K4 c)" "errs not_network (init_resources K5 p rs)"
  "errs not_network (set_cgroup K6 p res key v)" "errs not_network (write_log_file K7 fd t)"
  "errs not_network (unfreeze_child K8 rt)" "errs not_network (freeze_child K8 rt)"
  "errs not_network (send_event K9 sp ev)" "errs not_network (container_clone K10 cfd)"
  "errs not_network (parent_proc_socket K11 c rt)"
  unfolding config_load_def open_log_file_def write_state_file_def read_state_file_def create_cgroup_def
    init_resources_def enable_controller_def set_cgroup_def write_log_file_def unfreeze_child_def freeze_child_def
    send_event_def get_stream_sk_def container_clone_def parent_proc_socket_def get_socket_fd_def Let_def
  by (intro frames; simp)+

lemma errs_update [frames]: "errs not_network (update_state K c f)" "errs not_network (notify K' sp ev)"
  unfolding update_state_def notify_def by (intro frames)+

lemma errs_pipe [frames]: "errs not_network (parent_child_pipe K rt)"
  by (auto simp: errs_def parent_child_pipe_def bindE_stop map_err_stop map_stop_Fail comp_simps)

lemma errs_path_exists [frames]: "errs P (path_exists K p)"
  by (simp add: errs_def path_exists_def Let_def split_def)

lemma errs_container_exec [frames]: "errs P (container_exec K args env cwd fd)"
  unfolding container_exec_def die_def execve_failed_def
  by (auto intro!: frames split: list.splits option.splits)

lemma errs_exits: "only_exits m \<Longrightarrow> errs P m"
  by (auto simp: errs_def only_exits_def)

lemma errs_create_child [frames]: "errs not_network (create_child K b config rt fd)"
  unfolding create_child_def Let_def by (intro frames errs_exits)

lemma keeps_clone [frames]: "keeps S (container_clone K fd)"
  unfolding container_clone_def by (intro frames)

lemma create_parent_network_error:
  assumes "create_parent K c sp ev rt pid fd w = (Inl (Fail (from_network e)), w')"
  shows "create_network K c pid w = (Inl (Fail (from_network e)), w')"
proof -
  have after: "errs not_network
     (thenE (set_cgroup K (get_child_cgroup_path c) ''cpu'' ''max'' ''100000 100000'')
     (thenE (set_cgroup K (get_child_cgroup_path c) ''memory'' ''max'' ''256M'')
     (thenE (notify K sp (event_update_state Created ev))
     (thenE (update_state K c (set_created pid))
     (bindE (parent_proc_socket K c rt) (\<lambda>runtime.
      thenE (unfreeze_child K runtime)
     (bindE (map_err (\<lambda>e. SystemError (Wait e)) (nix_waitpid K pid)) (\<lambda>child_return.
      thenE (notify K sp (event_update_state Stopped (case child_return of
          WExited _ i \<Rightarrow> event_update_exit_code i (event_update_state Created ev)
        | _ \<Rightarrow> event_update_state Created ev)))
     (thenE (update_state K c set_stopped)
            (write_log_file K fd (k_debug_wait K child_return @ newline)))))))))))"
    by (intro frames; simp)
  show ?thesis
    using assms errsD [OF after] unfolding create_parent_def Let_def
    by (auto simp: thenE_stop [where m = "create_network K c pid"] not_network_def)
qed

lemma not_network_stop: "errs not_network m \<Longrightarrow> m w = (Inl (Fail (from_network e)), w') \<Longrightarrow> False"
  by (drule (1) errsD) (auto simp: not_network_def)

lemma network_error_later:
  "errs not_network m \<Longrightarrow> bindE m f w = (Inl (Fail (from_network e)), w') \<longleftrightarrow>
     (\<exists>x w1. m w = (Inr x, w1) \<and> f x w1 = (Inl (Fail (from_network e)), w'))"
  "errs not_network m' \<Longrightarrow> thenE m' m'' w = (Inl (Fail (from_network e)), w') \<longleftrightarrow>
     (\<exists>x w1. m' w = (Inr x, w1) \<and> m'' w1 = (Inl (Fail (from_network e)), w'))"
  by (auto simp: bindE_stop thenE_stop dest: not_network_stop)

lemma create_network_error:
  assumes "create K c cfg sp w = (Inl (Fail (from_network e)), w')"
  obtains config :: Config and w2 w3 cg w4 w5 w6 rt w7 pid w8 where
    "write_state_file K c (State_new (c_oci_version config) c Creating None (get_bundle_path c) None) w2 = (Inr (), w3)"
    "create_cgroup K c w3 = (Inr cg, w4)" "init_resources K get_root_cgroup_path [''cpu'', ''memory''] w4 = (Inr (), w5)"
    "init_resources K get_app_cgroup_path [''cpu'', ''memory''] w5 = (Inr (), w6)"
    "parent_child_pipe K (Runtime_new None None None) w6 = (Inr rt, w7)"
    "container_clone K (snd cg) w7 = (Inr pid, w8)" "pid \<noteq> 0"
    "create_network K c pid w8 = (Inl (Fail (from_network e)), w')"
proof -
  have no_child: "create_child K (get_bundle_path c) config rt fd v \<noteq> (Inl (Fail (from_network e)), w')" for config rt fd v
    using errsD [OF errs_create_child] by (fastforce simp: not_network_def)
  have no_exists: "throw (ContainerAlreadyExists c) v \<noteq> (Inl (Fail (from_network e)), w')" for v
    by (simp add: comp_simps from_defs)
  show ?thesis
    using assms that unfolding create_def Let_def
    by (auto simp: network_error_later frames no_child no_exists split: if_splits prod.splits
        dest!: create_parent_network_error)
qed

text \<open>
  C32. A failure of the network set-up leaves the container behind: the bundle's state file still
  says creating and does not name the pid of the child that was cloned, and a second
  \<open>create\<close> of the same id fails with \<open>ContainerAlreadyExists\<close>.
\<close>

theorem network_failure_leaves_container:
  assumes "plain_id c" "state_codec K"
    and "create K c cfg sp w = (Inl (Fail (from_network e)), w')"
  shows "(\<exists>s. stored K w' c = Some s \<and> s_status s = Creating \<and> s_pid s = None) \<and>
    (k_io K (Op_exists (get_bundle_path c)) w' = None \<longrightarrow>
       fst (create K c cfg' sp' w') = Inl (Fail (ContainerAlreadyExists c)))"
proof -
  obtain config :: Config and w2 w3 cg w4 w5 w6 rt w7 pid w8 where
    ws: "write_state_file K c (State_new (c_oci_version config) c Creating None (get_bundle_path c) None) w2 = (Inr (), w3)"
    and e1: "create_cgroup K c w3 = (Inr cg, w4)"
    and e2: "init_resources K get_root_cgroup_path [''cpu'', ''memory''] w4 = (Inr (), w5)"
    and e3: "init_resources K get_app_cgroup_path [''cpu'', ''memory''] w5 = (Inr (), w6)"
    and e4: "parent_child_pipe K (Runtime_new None None None) w6 = (Inr rt, w7)"
    and e5: "container_clone K (snd cg) w7 = (Inr pid, w8)" and "pid \<noteq> 0"
    and e6: "create_network K c pid w8 = (Inl (Fail (from_network e)), w')"
    by (rule create_network_error [OF assms(3)])
  have same: "node_at w' q = node_at w3 q" for q
    using keepsD [OF keeps_create_cgroup [OF assms(1), of UNIV] e1, of q]
      keepsD [OF keeps_init_resources(1) [of UNIV] e2, of q] keepsD [OF keeps_init_resources(2) [of UNIV] e3, of q]
      keepsD [OF keeps_pipe [of UNIV] e4, of q] keepsD [OF keeps_clone [of UNIV] e5, of q]
      keepsD [OF keeps_create_network [of UNIV] e6, of q] by simp
  from write_state_file_ok [OF assms(1,2) ws] have s: "is_dir w2 (bundle_comps c)"
    "stored K w3 c = Some (State_new (c_oci_version config) c Creating None (get_bundle_path c) None)" by auto
  have "state_comps c \<notin> {bundle_comps c}" by simp
  from keepsD [OF keeps_write_state [OF assms(1) this] ws] have "node_at w3 (bundle_comps c) = Some Dir"
    using s(1) by (simp add: is_dir_def)
  then have dir: "node_at w' (bundle_comps c) \<noteq> None" by (simp add: same)
  have "stored K w' c = stored K w3 c" by (rule stored_cong) (rule same)
  then have "\<exists>s. stored K w' c = Some s \<and> s_status s = Creating \<and> s_pid s = None"
    using s(2) by (simp add: State_new_def)
  moreover have "k_io K (Op_exists (get_bundle_path c)) w' = None \<Longrightarrow>
      fst (create K c cfg' sp' w') = Inl (Fail (ContainerAlreadyExists c))"
    using dir assms(1)
    by (simp add: create_def Let_def path_exists_def fs_exists_def bindE_def comp_simps)
  ultimately show ?thesis by blast
qed

section \<open>exec\<close>

definition enter_calls :: "i32 \<Rightarrow> string \<Rightarrow> (sysop \<times> bool) list" where
  "enter_calls pid ns = [(Op_open (ns_path pid ns), True), (Op_setns (ns_path pid ns) ns, True)]"

lemma enter_namespace_ok:
  "enter_namespace K pid ns w = (Inr u, w') \<Longrightarrow> hist w' = hist w @ enter_calls pid ns"
  by (auto simp: enter_namespace_def Let_def comp_ok nix_call_ok enter_calls_def dest!: fs_open_hist)

lemma run_in_fork_ok:
  "run_in_fork K cmd fd w = (Inr u, w') \<Longrightarrow>
     \<exists>child. child \<noteq> 0 \<and> hist w' = hist w @ [(Op_fork, True), (Op_waitpid child, True)]"
  by (auto simp: run_in_fork_def comp_ok nix_int_def nix_call_ok nix_waitpid_def nix_blocking_def comp_simps
      container_exec_never_returns split: if_splits)

lemma leave_mnt_ok:
  "leave_mnt K pid fd w = (Inr u, w') \<Longrightarrow> hist w' = hist w @ [(Op_setns (ns_path pid ''mnt'') ''mnt'', True)]"
  by (auto simp: leave_mnt_def comp_ok attempt_ok nix_call_ok comp_simps)

lemma open_log_hist:
  "open_log_file K b w = (Inr fd, w') \<Longrightarrow> hist w' = hist w @ [(Op_open_append (b @ ''/container.log''), True)]"
  by (auto simp: open_log_file_def map_err_ok fs_open_append_def Let_def bindE_ok io_call_ok
      split: if_splits option.splits node.splits)

text \<open>
  C29. A successful \<open>exec\<close> needs a running container with a pid, enters its four namespaces in
  the order uts, pid, net, mnt, forks and waits for the command, and comes back to its own
  namespaces, the mount namespace through the descriptor it opened before it left.
\<close>

theorem exec_enters_and_leaves:
  assumes "plain_id c" "state_codec K" "exec K c cmd w = (Inr u, w')"
  shows "\<exists>s p me child. stored K w c = Some s \<and> s_status s = Running \<and> s_pid s = Some p \<and> child \<noteq> 0 \<and>
    hist w' = hist w @
      [(Op_read (get_state_path c), True), (Op_open_append (log_path c), True), (Op_getpid, True),
       (Op_open (ns_path me ''mnt''), True)] @
      enter_calls p ''uts'' @ enter_calls p ''pid'' @ enter_calls p ''net'' @ enter_calls p ''mnt'' @
      [(Op_fork, True), (Op_waitpid child, True), (Op_setns (ns_path me ''mnt'') ''mnt'', True)] @
      enter_calls me ''uts'' @ enter_calls me ''pid'' @ enter_calls me ''net''"
proof -
  have ok: "store_ok K c" using assms by (simp add: store_ok_def)
  let ?w1 = "log_op (Op_read (get_state_path c)) True w"
  from guarded_read [OF ok assms(3) [unfolded exec_def]] obtain s where s: "stored K w c = Some s" "s_status s = Running"
    and rest: "bindE (open_log_file K (get_bundle_path c)) (\<lambda>log_fd.
     case s_pid s of
       None \<Rightarrow> throw (ContainerNotRunning c)
     | Some child_pid \<Rightarrow>
     bindE (getpid K) (\<lambda>parent_pid.
     thenE (map_err (\<lambda>e. SystemError (system_error.Io e (ns_path parent_pid ''mnt'')))
              (fs_open K (ns_path parent_pid ''mnt'')))
    (thenE (enter_namespace K child_pid ''uts'')
    (thenE (enter_namespace K child_pid ''pid'')
    (thenE (enter_namespace K child_pid ''net'')
    (thenE (enter_namespace K child_pid ''mnt'')
    (thenE (run_in_fork K cmd log_fd)
    (thenE (leave_mnt K parent_pid log_fd)
    (thenE (enter_namespace K parent_pid ''uts'')
    (thenE (enter_namespace K parent_pid ''pid'')
           (enter_namespace K parent_pid ''net''))))))))))) ?w1 = (Inr u, w')" by auto
  from rest obtain p where p: "s_pid s = Some p"
    by (cases "s_pid s") (auto simp: comp_ok comp_simps)
  from rest obtain fd w2 me w3 w4 wa wb wc wd we wf wg wh where
    "open_log_file K (get_bundle_path c) ?w1 = (Inr fd, w2)" and gp: "getpid K w2 = (Inr me, w3)"
    and "\<exists>f. fs_open K (ns_path me ''mnt'') w3 = (Inr f, w4)"
    and "enter_namespace K p ''uts'' w4 = (Inr (), wa)" "enter_namespace K p ''pid'' wa = (Inr (), wb)"
      "enter_namespace K p ''net'' wb = (Inr (), wc)" "enter_namespace K p ''mnt'' wc = (Inr (), wd)"
    and fork: "run_in_fork K cmd fd wd = (Inr (), we)"
    and "leave_mnt K me fd we = (Inr (), wf)" "enter_namespace K me ''uts'' wf = (Inr (), wg)"
      "enter_namespace K me ''pid'' wg = (Inr (), wh)" "enter_namespace K me ''net'' wh = (Inr u, w')"
    unfolding p option.case comp_ok by auto
  note calls = this
  have "hist w3 = hist w2 @ [(Op_getpid, True)]"
    using gp by (auto simp: getpid_def)
  moreover obtain child where "child \<noteq> 0" "hist we = hist wd @ [(Op_fork, True), (Op_waitpid child, True)]"
    using run_in_fork_ok [OF fork] by blast
  ultimately show ?thesis
    using s p calls(1,3-7,9-12)
    by (intro exI [of _ s] exI [of _ p] exI [of _ me] exI [of _ child])
       (auto simp: log_path_def dest!: open_log_hist fs_open_hist enter_namespace_ok leave_mnt_ok)
qed

end
