(* ===== verification/Progress.thy ===== *)
theory Progress
  imports Create
begin

text \<open>
  \<open>create\<close> does run to its end: on a kernel that fails no call and answers sensibly, with a
  valid configuration and an unused id, the supervisor creates the container, waits for it and
  returns. The calculus \<open>succeeds\<close> proves this call by call.
\<close>

section \<open>Calls that always succeed\<close>

named_theorems progress \<open>operations that succeed on a friendly kernel\<close>

definition succeeds :: "(world, 'e, 'a) comp \<Rightarrow> bool" where
  "succeeds m \<longleftrightarrow> (\<forall>w. \<exists>x w'. m w = (Inr x, w'))"

lemma succeedsD: "succeeds m \<Longrightarrow> \<exists>x w'. m w = (Inr x, w')"
  by (simp add: succeeds_def)

lemma succeeds_rules [progress]:
  "succeeds (ret x)"
  "succeeds m \<Longrightarrow> (\<And>x. succeeds (f x)) \<Longrightarrow> succeeds (bindE m f)"
  "succeeds m1 \<Longrightarrow> succeeds m2 \<Longrightarrow> succeeds (thenE m1 m2)"
  "succeeds m3 \<Longrightarrow> succeeds (map_err g m3)"
  by (auto simp: succeeds_def comp_simps bindE_ok thenE_ok map_err_ok) metis+

lemma succeeds_case_prod [progress]: "(\<And>a b. succeeds (f a b)) \<Longrightarrow> succeeds (case p of (a, b) \<Rightarrow> f a b)"
  by (cases p) simp

lemma succeeds_for_each: "(\<And>x. x \<in> set xs \<Longrightarrow> succeeds (f x)) \<Longrightarrow> succeeds (for_each xs f)"
  by (induction xs) (auto intro: progress)

text \<open>What a sensible kernel does besides failing nothing.\<close>

definition cooperative :: "('k) kernel_scheme \<Rightarrow> bool" where
  "cooperative K \<longleftrightarrow>
     obliging K \<and>
     (\<forall>q w. sublist ''cpu'' (k_pseudo_read K q w) \<and> sublist ''memory'' (k_pseudo_read K q w)) \<and>
     (\<forall>op w. k_others K op w = files w) \<and>
     (\<forall>a w. k_int K (Op_clone3 a) w \<noteq> 0)"

definition friendly :: "('k) kernel_scheme \<Rightarrow> bool" where
  "friendly K \<longleftrightarrow>
     cooperative K \<and> (\<forall>w. nlmsg_type (nlmsghdr_parse (take 16 (recv_buf (k_recv K w)))) \<noteq> NLMSG_ERROR)"

lemma friendly_cooperative: "friendly K \<Longrightarrow> cooperative K"
  by (simp add: friendly_def)

lemma cooperative_obliging: "cooperative K \<Longrightarrow> obliging K"
  by (simp add: cooperative_def)

lemmas friendly_obliging = cooperative_obliging [OF friendly_cooperative]

lemma obliging_calls [progress]:
  "obliging K \<Longrightarrow> succeeds (io_call K op)" "obliging K \<Longrightarrow> succeeds (nix_call K op)"
  "obliging K \<Longrightarrow> succeeds (nix_int K op)" "obliging K \<Longrightarrow> succeeds (nix_blocking K op)"
  "obliging K \<Longrightarrow> succeeds (nix_waitpid K p)"
  by (simp_all add: succeeds_def obliging_def nix_int_def nix_blocking_def nix_waitpid_def bindE_def comp_simps)

lemma obliging_pseudo [progress]:
  assumes "obliging K" "is_pseudo (norm_path (k_cwd K) p)"
  shows "succeeds (fs_open K p)" "succeeds (fs_write K p s)" "succeeds (fs_create_dir_all K p)"
    "succeeds (fs_read_to_string K p)"
  using assms
  by (simp_all add: succeeds_def obliging_def fs_open_def fs_write_pseudo fs_create_dir_all_def fs_read_to_string_def
      Let_def bindE_def comp_simps)

lemma friendly_answer: "friendly K \<Longrightarrow> nl_recv K w = (Inr b, w') \<Longrightarrow> nl_answer K b = ret ()"
  by (drule nl_recv_ok) (simp add: friendly_def nl_answer_def)

lemma friendly_recv [progress]:
  assumes "friendly K"
  shows "succeeds (nl_recv K)" "succeeds (recv_ack K)"
    "succeeds (bindE (nl_recv K) (\<lambda>b. thenE (nl_answer K b) (ret (f b))))"
proof -
  have r: "\<exists>b w'. nl_recv K w = (Inr b, w')" for w
    using friendly_obliging [OF assms] by (simp add: nl_recv_def obliging_def bindE_def map_err_def comp_simps)
  then show "succeeds (nl_recv K)" by (simp add: succeeds_def)
  show "succeeds (recv_ack K)"
    unfolding succeeds_def recv_ack_def bindE_ok
    using r friendly_answer [OF assms] by (metis ret_run)
  show "succeeds (bindE (nl_recv K) (\<lambda>b. thenE (nl_answer K b) (ret (f b))))"
    unfolding succeeds_def bindE_ok
    using r friendly_answer [OF assms] by (metis ret_run thenE_ret)
qed

lemma friendly_send [progress]: "friendly K \<Longrightarrow> succeeds (nl_send K (Some m))"
  unfolding nl_send_def option.case by (intro progress friendly_obliging)

lemma friendly_exchange:
  "friendly K \<Longrightarrow> \<exists>w'. bindE (nl_send K (Some m)) (\<lambda>w. thenE (recv_ack K) (ret w)) w = (Inr empty_writer, w')"
proof -
  assume K: "friendly K"
  have "succeeds (bindE (nl_send K (Some m)) (\<lambda>w. thenE (recv_ack K) (ret w)))"
    by (intro progress K)
  from succeedsD [OF this, of w] obtain x w' where
    "bindE (nl_send K (Some m)) (\<lambda>w. thenE (recv_ack K) (ret w)) w = (Inr x, w')" by blast
  with request_ok [OF this] show ?thesis by auto
qed

lemma friendly_requests:
  assumes "friendly K"
  shows "\<exists>w'. create_veth_pair K empty_writer host peer w = (Inr empty_writer, w')"
    "\<exists>w'. set_interface_up K empty_writer i w = (Inr empty_writer, w')"
    "\<exists>w'. set_ip_addr K empty_writer i ip n w = (Inr empty_writer, w')"
    "\<exists>w'. move_to_netns K empty_writer i fd w = (Inr empty_writer, w')"
    "\<exists>w'. add_default_route K empty_writer ip w = (Inr empty_writer, w')"
  unfolding create_veth_pair_def set_interface_up_def set_ip_addr_def move_to_netns_def add_default_route_def
    message_eqs by (rule friendly_exchange [OF assms])+

lemma friendly_getlink:
  assumes "friendly K"
  shows "\<exists>i w'. get_interface_index K empty_writer name w = (Inr (i, empty_writer), w')"
proof -
  have "succeeds (get_interface_index K empty_writer name)"
    unfolding get_interface_index_def message_eqs by (intro progress assms)
  then obtain i m w' where "get_interface_index K empty_writer name w = (Inr (i, m), w')"
    using succeedsD by (metis prod.collapse)
  with get_interface_index_ok [OF this] show ?thesis by auto
qed

text \<open>The same with a fact about the result: the writer comes back empty.\<close>

definition yields :: "(world, 'e, 'a) comp \<Rightarrow> ('a \<Rightarrow> bool) \<Rightarrow> bool" where
  "yields m P \<longleftrightarrow> (\<forall>w. \<exists>x w'. m w = (Inr x, w') \<and> P x)"

lemma yields_bind:
  "yields m (\<lambda>x. x = v) \<Longrightarrow> succeeds (f v) \<Longrightarrow> succeeds (bindE m f)"
  "yields m' (\<lambda>r. snd r = v) \<Longrightarrow> (\<And>i. succeeds (g i v)) \<Longrightarrow> succeeds (bindE m' (\<lambda>(i, x). g i x))"
  unfolding yields_def succeeds_def bindE_ok by (metis, metis (mono_tags, lifting) case_prod_beta)

lemma yields_requests:
  assumes "friendly K"
  shows "yields (create_veth_pair K empty_writer host peer) (\<lambda>m. m = empty_writer)"
    "yields (set_interface_up K empty_writer i) (\<lambda>m. m = empty_writer)"
    "yields (set_ip_addr K empty_writer i ip n) (\<lambda>m. m = empty_writer)"
    "yields (move_to_netns K empty_writer i fd) (\<lambda>m. m = empty_writer)"
    "yields (add_default_route K empty_writer ip) (\<lambda>m. m = empty_writer)"
    "yields (get_interface_index K empty_writer name) (\<lambda>r. snd r = empty_writer)"
  unfolding yields_def using friendly_requests [OF assms] friendly_getlink [OF assms]
  by (metis snd_conv)+

lemma dot_not_in_show_int: "CHR ''.'' \<notin> set (show_int i)"
  using show_nat_digits [of "CHR ''.''"] by (auto simp: show_int_def)

lemma ns_paths_pseudo [simp]:
  "is_pseudo (norm_path cwd host_ns_path)" "is_pseudo (norm_path cwd (peer_ns_path pid))"
  using slash_not_in_show_int [of "sint pid"] dot_not_in_show_int [of "sint pid"]
  by (auto simp: host_ns_path_def peer_ns_path_def norm_path_def is_pseudo_def split_on_append)

lemma succeeds_netlink_socket: "obliging K \<Longrightarrow> succeeds (create_netlink_socket K)"
  "obliging K \<Longrightarrow> succeeds (setns_net K p what)"
  unfolding create_netlink_socket_def setns_net_def by (intro progress; assumption)+

lemma create_network_succeeds:
  assumes "friendly K" "slice_to c (min (length c) 9) = Some host"
  shows "succeeds (create_network K c pid)"
proof -
  note ob = friendly_obliging [OF assms(1)]
  note y = yields_requests [OF assms(1)]
  have open_peer: "succeeds (map_err f (fs_open K (peer_ns_path pid)))" for f :: "io_error \<Rightarrow> core_error"
    by (intro progress ob ns_paths_pseudo)
  show ?thesis
    unfolding create_network_def assms(2) option.case Let_def
    by (intro succeeds_rules(3) succeeds_rules(2) [OF open_peer] yields_bind(1) [OF y(1)] yields_bind(1) [OF y(2)]
        yields_bind(1) [OF y(3)] yields_bind(1) [OF y(4)] yields_bind(1) [OF y(5)] yields_bind(2) [OF y(6)]
        succeeds_netlink_socket succeeds_rules(4) obliging_calls obliging_pseudo ob ns_paths_pseudo ip_forward_pseudo)
qed

section \<open>The steps of create\<close>

lemma step_keeps:
  assumes "succeeds m" "keeps UNIV m"
  obtains x w' where "m w = (Inr x, w')" "node_at w' = node_at w"
proof -
  obtain x w' where "m w = (Inr x, w')" using succeedsD [OF assms(1)] by blast
  with keepsD [OF assms(2) this] that show ?thesis by blast
qed

lemma succeeds_lift: "r = Inr t \<Longrightarrow> succeeds (lift_result (map_sum f g r))"
  by (simp add: succeeds_def lift_result_def comp_simps)

lemma succeeds_notify [progress]: "obliging K \<Longrightarrow> event_codec K \<Longrightarrow> succeeds (notify K sp ev)"
proof -
  assume K: "obliging K" "event_codec K"
  obtain t where "j_event_to_string K ev = Inr t" using K(2) by (auto simp: event_codec_def)
  then have "succeeds (send_event K p ev)" for p
    unfolding send_event_def get_stream_sk_def by (intro progress succeeds_lift K)
  then show ?thesis by (cases sp) (simp_all add: notify_def progress)
qed

lemma keeps_notify [frames]: "keeps S (notify K sp ev)"
  unfolding notify_def by (intro frames)

lemma succeeds_cgroup [progress]:
  assumes "cooperative K" "plain_id c"
  shows "succeeds (create_cgroup K c)" "succeeds (init_resources K get_root_cgroup_path [''cpu'', ''memory''])"
    "succeeds (init_resources K get_app_cgroup_path [''cpu'', ''memory''])"
    "succeeds (set_cgroup K (get_child_cgroup_path c) ''cpu'' ''max'' v)"
    "succeeds (set_cgroup K (get_child_cgroup_path c) ''memory'' ''max'' v)"
proof -
  note ob = cooperative_obliging [OF assms(1)]
  show "succeeds (create_cgroup K c)"
    unfolding create_cgroup_def by (intro progress ob cgroup_paths_pseudo assms(2))
  have en: "succeeds (enable_controller K path res)"
    if "path \<in> {get_root_cgroup_path, get_app_cgroup_path}" "res \<in> {''cpu'', ''memory''}" for path res
  proof -
    have ps: "is_pseudo (norm_path (k_cwd K) (path @ ''/cgroup.controllers''))"
      "is_pseudo (norm_path (k_cwd K) (path @ ''/cgroup.subtree_control''))"
      using that(1) by auto
    have rd: "\<exists>t w'. fs_read_to_string K p w = (Inr t, w') \<and> sublist res t"
      if "is_pseudo (norm_path (k_cwd K) p)" for p w
      using that \<open>res \<in> _\<close> assms(1)
      by (auto simp: fs_read_to_string_def Let_def bindE_def comp_simps cooperative_def obliging_def)
    show ?thesis
      unfolding succeeds_def enable_controller_def Let_def
    proof
      fix w
      obtain t1 w1 where 1: "fs_read_to_string K (path @ ''/cgroup.controllers'') w = (Inr t1, w1)" "sublist res t1"
        using rd [OF ps(1)] by blast
      obtain t2 w2 where "fs_read_to_string K (path @ ''/cgroup.subtree_control'') w1 = (Inr t2, w2)" "sublist res t2"
        using rd [OF ps(2)] by blast
      with 1 show "\<exists>x w'. bindE (map_err (\<lambda>e. from_cgroup (ReadToStringFailure e (path @ ''/cgroup.controllers'') res))
          (fs_read_to_string K (path @ ''/cgroup.controllers''))) (\<lambda>available.
          if \<not> sublist res available then throw (from_cgroup (ResourceNotAvailable (path @ ''/cgroup.controllers'') res))
          else bindE (map_err (\<lambda>e. from_cgroup (ReadToStringFailure e (path @ ''/cgroup.subtree_control'') res))
            (fs_read_to_string K (path @ ''/cgroup.subtree_control''))) (\<lambda>enabled.
            if \<not> sublist res enabled then map_err (\<lambda>e. from_cgroup (cgroup_error.WriteFailure e res))
              (fs_write K (path @ ''/cgroup.subtree_control'') (''+'' @ res)) else ret ())) w = (Inr x, w')"
        by (simp add: comp_simps)
    qed
  qed
  show "succeeds (init_resources K get_root_cgroup_path [''cpu'', ''memory''])"
    "succeeds (init_resources K get_app_cgroup_path [''cpu'', ''memory''])"
    unfolding init_resources_def by (rule succeeds_for_each, rule en; auto)+
  have ps: "is_pseudo (norm_path (k_cwd K) (get_child_cgroup_path c @ ''/cpu.max''))"
    "is_pseudo (norm_path (k_cwd K) (get_child_cgroup_path c @ ''/memory.max''))"
    using child_cgroup_file_pseudo [OF assms(2), of "''cpu.max''"] child_cgroup_file_pseudo [OF assms(2), of "''memory.max''"]
    by (simp_all add: plain_id_def)
  show "succeeds (set_cgroup K (get_child_cgroup_path c) ''cpu'' ''max'' v)"
    "succeeds (set_cgroup K (get_child_cgroup_path c) ''memory'' ''max'' v)"
    using ps unfolding set_cgroup_def Let_def by (simp_all add: progress ob)
qed

lemma succeeds_pipe [progress]: "obliging K \<Longrightarrow> succeeds (parent_child_pipe K rt)" "obliging K \<Longrightarrow> succeeds (unfreeze_child K rt)"
  by (simp_all add: succeeds_def parent_child_pipe_def unfreeze_child_def obliging_def bindE_def map_err_def comp_simps
      split: option.splits)

lemma clone_check_passes:
  "clone3_check (clone3_cgroup fd (clone3_flags (CLONE_NEWPID OR CLONE_NEWUTS OR CLONE_NEWNS OR CLONE_NEWNET)
     (Clone3_new (Some SIGCHLD)))) = None"
  by (simp add: clone3_check_def clone3_cgroup_def clone3_flags_def Clone3_new_def clone_flag_defs
      CLONE_NEWPID_def CLONE_NEWUTS_def CLONE_NEWNS_def CLONE_NEWNET_def)

lemma container_clone_run:
  assumes "cooperative K"
  obtains pid w' where "container_clone K fd w = (Inr pid, w')" "pid \<noteq> 0" "node_at w' = node_at w"
proof -
  obtain pid w' where run: "container_clone K fd w = (Inr pid, w')" "pid \<noteq> 0"
    using assms unfolding container_clone_def clone3_build_def clone_check_passes
    by (auto simp: cooperative_def obliging_def Let_def bindE_def map_err_def comp_simps)
  with that keepsD [OF keeps_clone [of UNIV] run(1)] show ?thesis by blast
qed

lemma parent_proc_socket_run:
  assumes "cooperative K" "plain_id c" "node_at w (bundle_comps c) = Some Dir" "node_at w (socket_comps c) = None"
  obtains rt' w' where "parent_proc_socket K c rt w = (Inr rt', w')"
    "\<And>q. q \<noteq> socket_comps c \<Longrightarrow> node_at w' q = node_at w q"
proof -
  have "\<exists>rt' w'. parent_proc_socket K c rt w = (Inr rt', w') \<and> (\<forall>q. q \<noteq> socket_comps c \<longrightarrow> node_at w' q = node_at w q)"
    using assms
    by (simp add: parent_proc_socket_def get_socket_fd_def nix_int_def nix_bind_def bind_errno_def nix_blocking_def
        fs_set_permissions_def cooperative_def obliging_def Let_def thenE_def bindE_def map_err_def comp_simps is_dir_def)
  with that show ?thesis by blast
qed

section \<open>create\<close>

definition fresh :: "string \<Rightarrow> world \<Rightarrow> bool" where
  "fresh c w \<longleftrightarrow>
     (\<forall>q. prefix (bundle_comps c) q \<longrightarrow> node_at w q = None) \<and>
     node_at w [''run''] \<in> {None, Some Dir} \<and> node_at w [''run'', ''clonebox''] \<in> {None, Some Dir}"

text \<open>The paths that \<open>create\<close> writes can be written: a fresh id, or one that is being created.\<close>

definition usable :: "string \<Rightarrow> world \<Rightarrow> bool" where
  "usable c w \<longleftrightarrow>
     node_at w [''run''] \<in> {None, Some Dir} \<and> node_at w [''run'', ''clonebox''] \<in> {None, Some Dir} \<and>
     node_at w (bundle_comps c) \<in> {None, Some Dir} \<and>
     node_at w (log_comps c) \<notin> {Some Dir, Some Sock} \<and> node_at w (state_comps c) \<notin> {Some Dir, Some Sock}"

lemma stored_file: "stored K w c = Some s \<Longrightarrow> \<exists>t. node_at w (state_comps c) = Some (File t)"
  by (auto simp: stored_def split: option.splits node.splits)

lemma fresh_below:
  assumes "fresh c w"
  shows "node_at w (bundle_comps c) = None" "node_at w (log_comps c) = None" "node_at w (state_comps c) = None"
    "node_at w (socket_comps c) = None"
  using assms by (simp_all add: fresh_def log_comps_def state_comps_def socket_comps_def)

lemma fresh_usable: "fresh c w \<Longrightarrow> usable c w"
  using fresh_below [of c w] by (simp add: usable_def fresh_def)

lemma create_dir_run:
  assumes "obliging K" "plain_id c" "usable c w"
  shows "\<exists>w'. fs_create_dir_all K (get_bundle_path c) w = (Inr (), w') \<and>
    (\<forall>q. node_at w' q = (if q \<in> {[''run''], [''run'', ''clonebox''], bundle_comps c} then Some Dir else node_at w q))"
proof -
  let ?ds = "filter (\<lambda>d. d \<noteq> []) (prefixes (bundle_comps c))"
  define w' where "w' = fold (\<lambda>d. put_node d Dir) ?ds (log_op (Op_mkdir_all (get_bundle_path c)) True w)"
  have ds: "set ?ds = {[''run''], [''run'', ''clonebox''], bundle_comps c}"
    by (auto simp: bundle_comps_def)
  have nodir: "\<not> (\<exists>d \<in> set (prefixes (butlast (bundle_comps c))). d \<noteq> [] \<and> node_at w d \<noteq> None \<and> node_at w d \<noteq> Some Dir)"
    using assms(3) by (auto simp: bundle_comps_def usable_def)
  have "fs_create_dir_all K (get_bundle_path c) w = (Inr (), w')"
    using assms nodir unfolding w'_def
    by (auto simp: fs_create_dir_all_def Let_def obliging_def bindE_def comp_simps usable_def)
  moreover have "node_at w' q = (if q \<in> set ?ds then Some Dir else node_at w q)" for q
    unfolding w'_def node_at_fold_put by simp
  ultimately show ?thesis unfolding ds by blast
qed

lemma open_log_run:
  assumes "obliging K" "plain_id c" "node_at w (bundle_comps c) = Some Dir"
    and "node_at w (log_comps c) \<noteq> Some Dir" "node_at w (log_comps c) \<noteq> Some Sock"
  shows "\<exists>w'. open_log_file K (get_bundle_path c) w = (Inr (log_path c), w') \<and>
    (\<forall>q. q \<noteq> log_comps c \<longrightarrow> node_at w' q = node_at w q) \<and> node_at w' (log_comps c) \<notin> {Some Dir, Some Sock}"
proof -
  have "butlast (log_comps c) = bundle_comps c" "log_comps c \<noteq> []" by (simp_all add: log_comps_def)
  then show ?thesis
    using assms
    by (cases "node_at w (log_comps c)"; cases "the (node_at w (log_comps c))")
       (simp_all add: open_log_file_def log_path_def [symmetric] fs_open_append_def Let_def obliging_def bindE_def map_err_def
        comp_simps is_dir_def)
qed

lemma config_load_run:
  assumes "obliging K" "\<not> is_pseudo (norm_path (k_cwd K) (cfg @ ''/config.json''))"
    "node_at w (norm_path (k_cwd K) (cfg @ ''/config.json'')) = Some (File raw)"
    "j_config_from_str K raw = Inr config" "get_root_path config \<noteq> []" "get_process_args config = Some (a # as)"
  shows "config_load K cfg w = (Inr config, log_op (Op_read (cfg @ ''/config.json'')) True w)"
proof -
  have "fs_read_to_string K (cfg @ ''/config.json'') w = (Inr raw, log_op (Op_read (cfg @ ''/config.json'')) True w)"
    using assms(1-3) by (intro fs_read_run) (simp_all add: obliging_def)
  then show ?thesis
    using assms(4-6) by (simp add: config_load_def bindE_def map_err_def lift_result_def comp_simps)
qed

text \<open>The supervisor from the release of the child to its end.\<close>

lemma supervise_run:
  assumes "cooperative K" "plain_id c" "state_codec K" "event_codec K" "intact K w c s"
  obtains w' where "thenE (unfreeze_child K rt)
      (bindE (map_err (\<lambda>e. SystemError (Wait e)) (nix_waitpid K pid)) (\<lambda>st.
       thenE (notify K sp (event_update_state Stopped (case st of WExited _ i \<Rightarrow> event_update_exit_code i ev | _ \<Rightarrow> ev)))
      (thenE (update_state K c set_stopped) (write_log_file K (log_path c) (k_debug_wait K st @ newline))))) w = (Inr (), w')"
    "stored K w' c = Some (set_stopped s)"
proof -
  note ob = cooperative_obliging [OF assms(1)]
  obtain u1 w1 where 1: "unfreeze_child K rt w = (Inr u1, w1)" "node_at w1 = node_at w"
    by (rule step_keeps [OF succeeds_pipe(2) [OF ob] keeps_runtime(1)])
  obtain st w2 where 2: "nix_waitpid K pid w1 = (Inr st, w2)" "node_at w2 = node_at w1"
    using assms(1) unfolding cooperative_def obliging_def
    by (simp add: nix_waitpid_def nix_blocking_def bindE_def comp_simps)
  let ?ev = "event_update_state Stopped (case st of WExited _ i \<Rightarrow> event_update_exit_code i ev | _ \<Rightarrow> ev)"
  obtain u3 w3 where 3: "notify K sp ?ev w2 = (Inr u3, w3)" "node_at w3 = node_at w2"
    by (rule step_keeps [OF succeeds_notify [OF ob assms(4)] keeps_notify])
  have "intact K w3 c s"
    using assms(5) 1 2 3 stored_cong [of w3 c w K] by (simp add: intact_def)
  from update_state_run [OF assms(2,3) ob this, of set_stopped] obtain w4 where
    4: "update_state K c set_stopped w3 = (Inr (set_stopped s), w4)" "intact K w4 c (set_stopped s)" by metis
  let ?msg = "k_debug_wait K st @ newline"
  have "\<exists>w'. write_log_file K (log_path c) ?msg w4 = (Inr (), w')"
    using ob by (simp add: write_log_file_def fs_append_def Let_def obliging_def bindE_def map_err_def comp_simps)
  then obtain w5 where 5: "write_log_file K (log_path c) ?msg w4 = (Inr (), w5)" by blast
  have "keeps {state_comps c} (write_log_file K (log_path c) ?msg)"
    using assms(2) by (intro keeps_log(2)) simp_all
  from stored_keeps [OF this 5, of K] have "stored K w5 c = Some (set_stopped s)" using 4(2) by (simp add: intact_def)
  then show ?thesis using 1(1) 2(1) 3(1) 4(1) 5 by (intro that [of w5]) (simp_all add: comp_simps)
qed

text \<open>The supervisor from the clone to its socket, step by step.\<close>

lemma parent_front_run:
  assumes "friendly K" "plain_id c" "state_codec K" "event_codec K" "slice_to c (min (length c) 9) = Some host" "intact K w c s"
  obtains u1 w1 u2 w2 u3 w3 u4 w4 w5 where "create_network K c pid w = (Inr u1, w1)"
    "set_cgroup K (get_child_cgroup_path c) ''cpu'' ''max'' ''100000 100000'' w1 = (Inr u2, w2)"
    "set_cgroup K (get_child_cgroup_path c) ''memory'' ''max'' ''256M'' w2 = (Inr u3, w3)"
    "notify K sp ev w3 = (Inr u4, w4)" "update_state K c (set_created pid) w4 = (Inr (set_created pid s), w5)"
    "intact K w5 c (set_created pid s)" "\<And>q. q \<noteq> state_comps c \<Longrightarrow> node_at w5 q = node_at w q"
proof -
  note co = friendly_cooperative [OF assms(1)]
  note ob = cooperative_obliging [OF co]
  obtain u1 w1 where 1: "create_network K c pid w = (Inr u1, w1)" "node_at w1 = node_at w"
    by (rule step_keeps [OF create_network_succeeds [OF assms(1,5)] keeps_create_network])
  obtain u2 w2 where 2: "set_cgroup K (get_child_cgroup_path c) ''cpu'' ''max'' ''100000 100000'' w1 = (Inr u2, w2)"
      "node_at w2 = node_at w1"
    by (rule step_keeps [OF succeeds_cgroup(4) [OF co assms(2)] keeps_set_cgroup [OF assms(2)]]) (simp add: plain_id_def)
  obtain u3 w3 where 3: "set_cgroup K (get_child_cgroup_path c) ''memory'' ''max'' ''256M'' w2 = (Inr u3, w3)"
      "node_at w3 = node_at w2"
    by (rule step_keeps [OF succeeds_cgroup(5) [OF co assms(2)] keeps_set_cgroup [OF assms(2)]]) (simp add: plain_id_def)
  obtain u4 w4 where 4: "notify K sp ev w3 = (Inr u4, w4)" "node_at w4 = node_at w3"
    by (rule step_keeps [OF succeeds_notify [OF ob assms(4)] keeps_notify])
  have "intact K w4 c s" using 1 2 3 4 assms(6) stored_cong [of w4 c w K] by (simp add: intact_def)
  then obtain w5 where 5: "update_state K c (set_created pid) w4 = (Inr (set_created pid s), w5)"
      "intact K w5 c (set_created pid s)" "\<And>q. q \<noteq> state_comps c \<Longrightarrow> node_at w5 q = node_at w4 q"
    using update_state_run [OF assms(2,3) ob] by metis
  show ?thesis
    by (rule that [OF 1(1) 2(1) 3(1) 4(1) 5(1,2)]) (simp add: 5(3) 4(2) 3(2) 2(2) 1(2))
qed

lemma create_parent_run:
  assumes "friendly K" "plain_id c" "state_codec K" "event_codec K" "slice_to c (min (length c) 9) = Some host"
    and "intact K w c s" "node_at w (socket_comps c) = None"
  obtains w' where "create_parent K c sp ev rt pid (log_path c) w = (Inr (), w')"
    "stored K w' c = Some (set_stopped (set_created pid s))"
proof -
  note co = friendly_cooperative [OF assms(1)]
  let ?ev1 = "event_update_state Created ev"
  obtain u1 w1 u2 w2 u3 w3 u4 w4 w5 where 1: "create_network K c pid w = (Inr u1, w1)"
    and 2: "set_cgroup K (get_child_cgroup_path c) ''cpu'' ''max'' ''100000 100000'' w1 = (Inr u2, w2)"
    and 3: "set_cgroup K (get_child_cgroup_path c) ''memory'' ''max'' ''256M'' w2 = (Inr u3, w3)"
    and 4: "notify K sp ?ev1 w3 = (Inr u4, w4)" and 5: "update_state K c (set_created pid) w4 = (Inr (set_created pid s), w5)"
      "intact K w5 c (set_created pid s)" "\<And>q. q \<noteq> state_comps c \<Longrightarrow> node_at w5 q = node_at w q"
    by (rule parent_front_run [OF assms(1-6)]) (rule that)
  have dir5: "node_at w5 (bundle_comps c) = Some Dir" using 5(2) by (simp add: intact_def)
  have sock5: "node_at w5 (socket_comps c) = None" using 5(3) assms(7) by simp
  obtain rt' w6 where 6: "parent_proc_socket K c rt w5 = (Inr rt', w6)"
      "\<And>q. q \<noteq> socket_comps c \<Longrightarrow> node_at w6 q = node_at w5 q"
    using parent_proc_socket_run [OF co assms(2) dir5 sock5, of rt] by metis
  have "bundle_comps c \<noteq> socket_comps c" by (simp add: bundle_comps_def socket_comps_def)
  then have "intact K w6 c (set_created pid s)"
    using 5(2) 6(2) stored_cong [of w6 c w5 K] by (simp add: intact_def)
  from supervise_run [OF co assms(2-4) this, of rt' pid sp ?ev1] that 1 2 3 4 5(1) 6(1) show ?thesis
    unfolding create_parent_def Let_def by (simp add: comp_simps) blast
qed

lemma create_front_ends:
  assumes "cooperative K" "plain_id c" "state_codec K" "event_codec K" "usable c w"
    and "\<not> is_pseudo (norm_path (k_cwd K) (cfg @ ''/config.json''))"
    and "node_at w (norm_path (k_cwd K) (cfg @ ''/config.json'')) = Some (File raw)"
    and "j_config_from_str K raw = Inr config" "get_root_path config \<noteq> []" "get_process_args config = Some (a # as)"
  obtains rt pid w' where "create_front K c cfg sp w = (Inr (config, log_path c, rt, pid), w')" "pid \<noteq> 0"
    "intact K w' c (State_new (c_oci_version config) c Creating None (get_bundle_path c) None)" "usable c w'"
    "\<And>q. q \<notin> {[''run''], [''run'', ''clonebox''], bundle_comps c, log_comps c, state_comps c} \<Longrightarrow> node_at w' q = node_at w q"
    "\<And>q. q \<in> {[''run''], [''run'', ''clonebox''], bundle_comps c} \<Longrightarrow> node_at w' q = Some Dir"
proof -
  note ob = cooperative_obliging [OF assms(1)]
  let ?b = "get_bundle_path c" and ?ev = "Event_new c Creating (Some 0)"
  let ?st = "State_new (c_oci_version config) c Creating None ?b None"
  let ?w0 = "log_op (Op_read (cfg @ ''/config.json'')) True w"
  let ?home = "{[''run''], [''run'', ''clonebox''], bundle_comps c}"
  have cl: "config_load K cfg w = (Inr config, ?w0)"
    using assms(7-10) by (intro config_load_run [OF ob assms(6)]) simp_all
  have "usable c ?w0" using assms(5) by (simp add: usable_def)
  from create_dir_run [OF ob assms(2) this] obtain w1 where 1: "fs_create_dir_all K ?b ?w0 = (Inr (), w1)"
    "\<And>q. node_at w1 q = (if q \<in> ?home then Some Dir else node_at w q)" by auto
  let ?w2 = "log_op (Op_chmod ?b 0x1C0) True w1"
  have 2: "fs_set_permissions K ?b 0x1C0 w1 = (Inr (), ?w2)"
    using ob assms(2) 1(2) by (simp add: fs_set_permissions_def Let_def obliging_def bindE_def comp_simps)
  have apart: "log_comps c \<notin> ?home" "state_comps c \<notin> ?home" "log_comps c \<noteq> state_comps c"
    by (simp_all add: bundle_comps_def log_comps_def state_comps_def)
  obtain w3 where 3: "open_log_file K ?b ?w2 = (Inr (log_path c), w3)" "\<And>q. q \<noteq> log_comps c \<Longrightarrow> node_at w3 q = node_at ?w2 q"
    and log3: "node_at w3 (log_comps c) \<notin> {Some Dir, Some Sock}"
    using open_log_run [OF ob assms(2), of ?w2] 1(2) assms(5) apart by (auto simp: usable_def)
  obtain u4 w4 where 4: "notify K sp ?ev w3 = (Inr u4, w4)" "node_at w4 = node_at w3"
    by (rule step_keeps [OF succeeds_notify [OF ob assms(4)] keeps_notify])
  have n4: "node_at w4 q = (if q \<in> ?home then Some Dir else node_at w q)" if "q \<noteq> log_comps c" for q
    using that by (simp add: 4(2) 3(2) 1(2))
  obtain w5 where 5: "write_state_file K c ?st w4 = (Inr (), w5)" "stored K w5 c = Some ?st"
    "\<And>q. q \<noteq> state_comps c \<Longrightarrow> node_at w5 q = node_at w4 q"
    using write_state_file_run [OF assms(2,3), of w4 ?st] n4 [of "bundle_comps c"] n4 [of "state_comps c"] apart ob assms(5)
    unfolding is_dir_def obliging_def usable_def by (metis insert_iff)
  obtain cg w6 where 6: "create_cgroup K c w5 = (Inr cg, w6)" "node_at w6 = node_at w5"
    by (rule step_keeps [OF succeeds_cgroup(1) [OF assms(1,2)] keeps_create_cgroup [OF assms(2)]])
  obtain u7 w7 where 7: "init_resources K get_root_cgroup_path [''cpu'', ''memory''] w6 = (Inr u7, w7)" "node_at w7 = node_at w6"
    by (rule step_keeps [OF succeeds_cgroup(2) [OF assms(1,2)] keeps_init_resources(1)])
  obtain u8 w8 where 8: "init_resources K get_app_cgroup_path [''cpu'', ''memory''] w7 = (Inr u8, w8)" "node_at w8 = node_at w7"
    by (rule step_keeps [OF succeeds_cgroup(3) [OF assms(1,2)] keeps_init_resources(2)])
  obtain rt w9 where 9: "parent_child_pipe K (Runtime_new None None None) w8 = (Inr rt, w9)" "node_at w9 = node_at w8"
    by (rule step_keeps [OF succeeds_pipe(1) [OF ob] keeps_pipe])
  obtain pid w10 where 10: "container_clone K (snd cg) w9 = (Inr pid, w10)" "pid \<noteq> 0" "node_at w10 = node_at w9"
    by (rule container_clone_run [OF assms(1)])
  have n10: "node_at w10 = node_at w5" using 6 7 8 9 10 by simp
  have n: "node_at w10 q = (if q \<in> ?home then Some Dir else node_at w q)" if "q \<noteq> log_comps c" "q \<noteq> state_comps c" for q
    using that by (simp add: n10 5(3) n4)
  have ne: "bundle_comps c \<noteq> log_comps c" "bundle_comps c \<noteq> state_comps c"
    by (simp_all add: bundle_comps_def log_comps_def state_comps_def)
  then have i10: "intact K w10 c ?st"
    using 5(2) n [of "bundle_comps c"] n10 stored_cong [of w10 c w5 K] by (simp add: intact_def)
  have "node_at w10 (log_comps c) = node_at w3 (log_comps c)" using apart(3) by (simp add: n10 5(3) 4(2))
  moreover have "\<exists>t. node_at w10 (state_comps c) = Some (File t)"
    using i10 stored_file [of K w10 c] by (simp add: intact_def)
  ultimately have u10: "usable c w10"
    using log3 n [of "[''run'']"] n [of "[''run'', ''clonebox'']"] n [of "bundle_comps c"] ne apart
    by (auto simp: usable_def)
  have run: "create_front K c cfg sp w = (Inr (config, log_path c, rt, pid), w10)"
    unfolding create_front_def Let_def
    using cl 1(1) 2 3(1) 4(1) 5(1) 6(1) 7(1) 8(1) 9(1) 10(1) by (simp add: comp_simps)
  show ?thesis using run 10(2) i10 u10 by (rule that) (use n ne apart in auto)
qed

lemma create_front_run:
  assumes "cooperative K" "plain_id c" "state_codec K" "event_codec K"
    and "fresh c w" "\<not> is_pseudo (norm_path (k_cwd K) (cfg @ ''/config.json''))"
    and "node_at w (norm_path (k_cwd K) (cfg @ ''/config.json'')) = Some (File raw)"
    and "j_config_from_str K raw = Inr config" "get_root_path config \<noteq> []" "get_process_args config = Some (a # as)"
  obtains rt pid w' where "create K c cfg sp w = create_parent K c sp (Event_new c Creating (Some 0)) rt pid (log_path c) w'"
    "intact K w' c (State_new (c_oci_version config) c Creating None (get_bundle_path c) None)"
    "node_at w' (socket_comps c) = None"
proof -
  note ob = cooperative_obliging [OF assms(1)]
  let ?w0 = "log_op (Op_exists (get_bundle_path c)) True w"
  have ex: "path_exists K (get_bundle_path c) w = (Inr False, ?w0)"
    using assms(2,5) ob by (simp add: path_exists_def fs_exists_def Let_def obliging_def fresh_def)
  have "usable c ?w0" using fresh_usable [OF assms(5)] by (simp add: usable_def)
  then obtain rt pid w' where w': "create_front K c cfg sp ?w0 = (Inr (config, log_path c, rt, pid), w')" "pid \<noteq> 0"
    "intact K w' c (State_new (c_oci_version config) c Creating None (get_bundle_path c) None)" "usable c w'"
    "\<And>q. q \<notin> {[''run''], [''run'', ''clonebox''], bundle_comps c, log_comps c, state_comps c} \<Longrightarrow> node_at w' q = node_at ?w0 q"
    using create_front_ends [OF assms(1-4) _ assms(6) _ assms(8-10), of ?w0 sp] assms(7) by (metis (no_types, lifting) node_at_log)
  have "socket_comps c \<notin> {[''run''], [''run'', ''clonebox''], bundle_comps c, log_comps c, state_comps c}"
    by (simp add: bundle_comps_def log_comps_def state_comps_def socket_comps_def)
  with w'(5) fresh_below(4) [OF assms(5)] have "node_at w' (socket_comps c) = None" by simp
  moreover have "create K c cfg sp w = create_parent K c sp (Event_new c Creating (Some 0)) rt pid (log_path c) w'"
    using ex w'(1,2) by (simp add: create_eq comp_simps)
  ultimately show ?thesis using w'(3) that by blast
qed

lemma create_run:
  assumes "friendly K" "plain_id c" "state_codec K" "event_codec K" "slice_to c (min (length c) 9) = Some host"
    and "fresh c w" "\<not> is_pseudo (norm_path (k_cwd K) (cfg @ ''/config.json''))"
    and "node_at w (norm_path (k_cwd K) (cfg @ ''/config.json'')) = Some (File raw)"
    and "j_config_from_str K raw = Inr config" "get_root_path config \<noteq> []" "get_process_args config = Some (a # as)"
  shows "\<exists>w'. create K c cfg sp w = (Inr (), w') \<and>
    stored K w' c = Some (State_new (c_oci_version config) c Stopped None (get_bundle_path c) None)"
proof -
  let ?st = "State_new (c_oci_version config) c Creating None (get_bundle_path c) None"
  obtain rt pid w1 where run: "create K c cfg sp w = create_parent K c sp (Event_new c Creating (Some 0)) rt pid (log_path c) w1"
    and i: "intact K w1 c ?st" "node_at w1 (socket_comps c) = None"
    by (rule create_front_run [OF friendly_cooperative [OF assms(1)] assms(2-4,6-11)])
  obtain w' where "create_parent K c sp (Event_new c Creating (Some 0)) rt pid (log_path c) w1 = (Inr (), w')"
    "stored K w' c = Some (set_stopped (set_created pid ?st))"
    using create_parent_run [OF assms(1-5) i] by metis
  with run show ?thesis by (simp add: set_state_defs State_new_def)
qed

text \<open>
  C5. \<open>create\<close> reaches its end: on a kernel that fails no call, whose netlink answers are not
  errors, that offers the cpu and memory controllers and lets no other process touch the files,
  for an unused id that can be cut after nine bytes and a valid configuration, \<open>create\<close>
  returns, and the container it created, ran and waited for is stored as stopped.
\<close>

theorem create_succeeds:
  assumes "friendly K" "plain_id c" "state_codec K" "event_codec K"
    and "\<not> (9 < length c \<and> of_char (c ! 9) \<in> {128..<192 :: nat})"
    and "fresh c w" "\<not> is_pseudo (norm_path (k_cwd K) (cfg @ ''/config.json''))"
    and "node_at w (norm_path (k_cwd K) (cfg @ ''/config.json'')) = Some (File raw)"
    and "j_config_from_str K raw = Inr config" "get_root_path config \<noteq> []" "get_process_args config = Some (a # as)"
  shows "\<exists>w'. create K c cfg sp w = (Inr (), w') \<and>
    stored K w' c = Some \<lparr>s_oci_version = c_oci_version config, s_id = c, s_status = Stopped, s_pid = None,
      s_bundle = ''/run/clonebox/'' @ c, s_annotations = None\<rparr>"
proof -
  have "slice_to c (min (length c) 9) = Some (take 9 c)" using assms(5) slice_to_9 [of c] by presburger
  from create_run [OF assms(1-4) this assms(6-11)] show ?thesis
    by (simp add: State_new_def get_bundle_path_def)
qed

end
