(* ===== verification/Demo.thy ===== *)
theory Demo
  imports Progress "HOL-Library.Char_ord" "HOL-Library.List_Lexorder"
begin

text \<open>
  A concrete kernel and concrete codecs, so that the hypotheses of the properties can be met: a
  text format for states and events that the reader inverts (\<open>state_codec\<close>,
  \<open>event_codec\<close>), a kernel that fails nothing, and a few worlds. The theory models no code;
  the witnesses evaluate the model on it.
\<close>

section \<open>A text format\<close>

definition enc_char :: "char \<Rightarrow> string" where
  "enc_char c = [char_of (65 + of_char c div 16 :: nat), char_of (65 + of_char c mod 16 :: nat)]"

definition dec_char :: "char \<Rightarrow> char \<Rightarrow> char" where
  "dec_char x y = char_of ((of_char x - 65) * 16 + (of_char y - 65) :: nat)"

definition enc_str :: "string \<Rightarrow> string" where
  "enc_str s = concat (map enc_char s) @ ''.''"

fun dec_str :: "string \<Rightarrow> (string \<times> string) option" where
  "dec_str [] = None"
| "dec_str [x] = (if x = CHR ''.'' then Some ([], []) else None)"
| "dec_str (x # y # ys) =
     (if x = CHR ''.'' then Some ([], y # ys)
      else map_option (\<lambda>(s, r). (dec_char x y # s, r)) (dec_str ys))"

lemma code_halves: "of_char c div 16 < (16 :: nat)" "of_char c mod 16 < (16 :: nat)"
  using nat_of_char_less_256 [of c] by (simp_all add: less_mult_imp_div_less)

lemma dec_enc_char: "dec_char (char_of (65 + of_char c div 16 :: nat)) (char_of (65 + of_char c mod 16 :: nat)) = c"
  using code_halves [of c] by (simp add: dec_char_def)

lemma enc_char_letters: "x \<in> set (enc_char c) \<Longrightarrow> of_char x \<in> {65..80 :: nat}"
  using code_halves [of c] by (auto simp: enc_char_def)

lemma char_of_not_dot: "n < 16 \<Longrightarrow> char_of (65 + n :: nat) \<noteq> CHR ''.''"
proof
  assume "n < 16" "char_of (65 + n :: nat) = CHR ''.''"
  then have "of_char (char_of (65 + n :: nat)) = (of_char (CHR ''.'') :: nat)" by simp
  with \<open>n < 16\<close> show False by simp
qed

lemma dec_enc_str: "dec_str (enc_str s @ r) = Some (s, r)"
proof (induction s)
  case Nil
  show ?case by (cases r) (simp_all add: enc_str_def)
next
  case (Cons c s)
  have "enc_str (c # s) @ r = char_of (65 + of_char c div 16 :: nat) # char_of (65 + of_char c mod 16 :: nat) # enc_str s @ r"
    by (simp add: enc_str_def enc_char_def)
  with Cons char_of_not_dot [OF code_halves(1) [of c]] show ?case by (simp add: dec_enc_char)
qed

lemma enc_str_chars: "x \<in> set (enc_str s) \<Longrightarrow> x \<noteq> CHR 0x0A"
  using enc_char_letters by (fastforce simp: enc_str_def)

fun dec_fields :: "nat \<Rightarrow> string \<Rightarrow> string list option" where
  "dec_fields 0 t = (if t = [] then Some [] else None)"
| "dec_fields (Suc n) t =
     (if t = [] then Some []
      else (case dec_str t of None \<Rightarrow> None | Some (x, r) \<Rightarrow> map_option (Cons x) (dec_fields n r)))"

definition enc_fields :: "string list \<Rightarrow> string" where
  "enc_fields fs = concat (map enc_str fs)"

lemma dec_enc_fields: "length fs \<le> n \<Longrightarrow> dec_fields n (enc_fields fs) = Some fs"
proof (induction fs arbitrary: n)
  case Nil
  then show ?case by (cases n) (simp_all add: enc_fields_def)
next
  case (Cons f fs)
  then obtain m where "n = Suc m" "length fs \<le> m" by (cases n) auto
  with Cons.IH [of m] dec_enc_str [of f "enc_fields fs"] show ?case
    by (simp add: enc_fields_def) (simp add: enc_str_def)
qed

lemma length_enc_fields: "length fs \<le> length (enc_fields fs)"
  by (induction fs) (auto simp: enc_fields_def enc_str_def)

lemma enc_fields_line: "CHR 0x0A \<notin> set (enc_fields fs)"
  using enc_str_chars by (fastforce simp: enc_fields_def)

definition read_fields :: "string \<Rightarrow> string list option" where
  "read_fields t = dec_fields (length t) t"

lemma read_enc_fields: "read_fields (enc_fields fs) = Some fs"
  unfolding read_fields_def by (rule dec_enc_fields [OF length_enc_fields])

section \<open>Fields of states and events\<close>

definition read_int :: "string \<Rightarrow> int" where
  "read_int s = (case s of (CHR ''-'') # t \<Rightarrow> - int (digits_value t) | _ \<Rightarrow> int (digits_value s))"

lemma read_show_int: "read_int (show_int i) = i"
proof (cases "i < 0")
  case True
  then show ?thesis by (simp add: read_int_def show_int_def digits_value_show_nat)
next
  case False
  have "show_nat (nat i) \<noteq> CHR ''-'' # t" for t
    using minus_not_digit [of "nat i"] by (metis list.set_intros(1))
  with False have "read_int (show_int i) = int (digits_value (show_nat (nat i)))"
    by (auto simp: read_int_def show_int_def split: list.splits char.splits bool.splits)
  with False show ?thesis by (simp add: digits_value_show_nat)
qed

definition opt_int :: "i32 option \<Rightarrow> string" where
  "opt_int v = (case v of None \<Rightarrow> [] | Some i \<Rightarrow> show_int (sint i))"

definition read_opt_int :: "string \<Rightarrow> i32 option" where
  "read_opt_int s = (if s = [] then None else Some (word_of_int (read_int s)))"

lemma read_opt_int: "read_opt_int (opt_int v) = v"
proof -
  have "show_int i \<noteq> []" for i using show_nat_nonempty by (simp add: show_int_def)
  then show ?thesis by (cases v) (simp_all add: read_opt_int_def opt_int_def read_show_int)
qed

definition read_status :: "string \<Rightarrow> container_state" where
  "read_status t =
     (if t = ''creating'' then Creating else if t = ''created'' then Created
      else if t = ''running'' then Running else if t = ''paused'' then Paused else Stopped)"

lemma read_status: "read_status (display_container_state st) = st"
  by (cases st) (simp_all add: read_status_def)

fun pairs :: "string list \<Rightarrow> (string \<times> string) list" where
  "pairs (k # v # r) = (k, v) # pairs r"
| "pairs _ = []"

definition unpairs :: "(string \<times> string) list \<Rightarrow> string list" where
  "unpairs kvs = concat (map (\<lambda>(k, v). [k, v]) kvs)"

lemma pairs_unpairs: "pairs (unpairs kvs) = kvs"
  by (induction kvs) (auto simp: unpairs_def)

definition state_fields :: "State \<Rightarrow> string list" where
  "state_fields s = s_oci_version s # s_id s # display_container_state (s_status s) # opt_int (s_pid s) # s_bundle s #
     (case s_annotations s of None \<Rightarrow> [] | Some ann \<Rightarrow> ''annotations'' # unpairs (sorted_list_of_fmap ann))"

fun fields_state :: "string list \<Rightarrow> State option" where
  "fields_state (ver # i # st # p # b # ann) =
     Some \<lparr>s_oci_version = ver, s_id = i, s_status = read_status st, s_pid = read_opt_int p, s_bundle = b,
           s_annotations = (case ann of [] \<Rightarrow> None | _ # r \<Rightarrow> Some (fmap_of_list (pairs r)))\<rparr>"
| "fields_state _ = None"

lemma fmap_of_sorted_list: "fmap_of_list (sorted_list_of_fmap m) = m"
  by (rule fmap_ext) (simp add: fmlookup_of_list)

lemma fields_state: "fields_state (state_fields s) = Some s"
  by (cases s) (auto simp: state_fields_def read_status read_opt_int pairs_unpairs fmap_of_sorted_list split: option.splits)

definition event_fields :: "Event \<Rightarrow> string list" where
  "event_fields e = [e_id e, display_container_state (e_state e), opt_int (e_exit_code e)]"

fun fields_event :: "string list \<Rightarrow> Event option" where
  "fields_event [i, st, x] = Some \<lparr>e_id = i, e_state = read_status st, e_exit_code = read_opt_int x\<rparr>"
| "fields_event _ = None"

lemma fields_event: "fields_event (event_fields e) = Some e"
  by (cases e) (simp add: event_fields_def read_status read_opt_int)

definition or_error :: "'a option \<Rightarrow> json_error + 'a" where
  "or_error v = (case v of None \<Rightarrow> Inl (Json_error ''bad input'') | Some x \<Rightarrow> Inr x)"

section \<open>The kernel\<close>

definition demo_config :: Config where
  "demo_config = \<lparr>c_oci_version = ''1.0'', c_process = Some \<lparr>p_env = None, p_args = Some [''/bin/sh''], p_cwd = ''/''\<rparr>,
     c_root = Some \<lparr>r_path = ''/rootfs'', r_readonly = None\<rparr>, c_mounts = None, c_hostname = None\<rparr>"

definition demo :: config_kernel where
  "demo = \<lparr>k_cwd = [], k_io = \<lambda>_ _. None, k_errno = \<lambda>_ _. None, k_pseudo_read = \<lambda>_ _. ''cpu memory'',
     k_pseudo_exists = \<lambda>_ _. False, k_int = \<lambda>_ _. 7, k_wait = \<lambda>p _. WExited p 3, k_recv = \<lambda>_. [],
     k_others = \<lambda>_ w. files w, k_io_text = \<lambda>_. ''io'', k_errno_text = \<lambda>_. ''errno'', k_debug_wait = \<lambda>_. ''status'', k_order = \<lambda>xs _. xs,
     j_state_to_string = \<lambda>s. Inr (enc_fields (state_fields s)),
     j_state_from_str = \<lambda>t. or_error (Option.bind (read_fields t) fields_state),
     j_event_to_string = \<lambda>e. Inr (enc_fields (event_fields e)),
     j_event_from_str = \<lambda>t. or_error (Option.bind (read_fields t) fields_event),
     j_config_from_str = \<lambda>_. Inr demo_config\<rparr>"

lemma demo_codecs: "state_codec demo" "event_codec demo"
  by (simp_all add: state_codec_def event_codec_def demo_def or_error_def read_enc_fields fields_state fields_event
      enc_fields_line)

lemma demo_obliging: "obliging demo"
  by (simp add: obliging_def demo_def)

lemma demo_friendly: "friendly demo"
proof -
  have "sublist ''cpu'' ''cpu memory''" "sublist ''memory'' ''cpu memory''"
    unfolding sublist_def by (rule exI [of _ "[]"], rule exI [of _ "'' memory''"], simp)
      (rule exI [of _ "''cpu ''"], rule exI [of _ "[]"], simp)
  moreover have "take 16 (recv_buf []) = replicate 16 0" by (simp add: recv_buf_def)
  moreover have "nlmsg_type (nlmsghdr_parse (replicate 16 0)) = 0"
    by (simp add: nlmsghdr_parse_def nlmsghdr_builder_def numeral_eq_Suc)
  ultimately show ?thesis
    using demo_obliging by (simp add: friendly_def cooperative_def demo_def NLMSG_ERROR_def)
qed

section \<open>Worlds\<close>

definition demo_state :: "container_state \<Rightarrow> i32 option \<Rightarrow> State" where
  "demo_state st p = \<lparr>s_oci_version = ''1.0'', s_id = ''a'', s_status = st, s_pid = p, s_bundle = ''/run/clonebox/a'',
     s_annotations = None\<rparr>"

text \<open>A container \<open>a\<close> in the given state whose supervisor has bound its socket.\<close>

definition world_with :: "State \<Rightarrow> world" where
  "world_with s = \<lparr>files = [(bundle_comps ''a'', Dir), (state_comps ''a'', File (enc_fields (state_fields s))),
     (socket_comps ''a'', Sock)], hist = []\<rparr>"

text \<open>No container; a configuration in \<open>/cfg\<close>.\<close>

definition empty_world :: world where
  "empty_world = \<lparr>files = [([''cfg'', ''config.json''], File ''{}'')], hist = []\<rparr>"

lemma demo_fields [simp]:
  "k_io demo op w = None" "k_errno demo op w = None" "k_cwd demo = []" "j_config_from_str demo t = Inr demo_config"
  "k_int demo op w = 7" "k_wait demo p w = WExited p 3" "k_others demo op w = files w" "k_recv demo w = []"
  by (simp_all add: demo_def)

lemma plain_a [simp]: "plain_id ''a''" "plain_id ''b''"
  by (simp_all add: plain_id_def)

lemma world_with_nodes [simp]:
  "node_at (world_with s) (bundle_comps ''a'') = Some Dir" "node_at (world_with s) (socket_comps ''a'') = Some Sock"
  "node_at (world_with s) (state_comps ''a'') = Some (File (enc_fields (state_fields s)))"
  by (simp_all add: node_at_def world_with_def bundle_comps_def socket_comps_def state_comps_def)

lemma stored_world_with [simp]: "stored demo (world_with s) ''a'' = Some s"
  by (simp add: stored_def demo_def or_error_def read_enc_fields fields_state)

lemma stored_world_other [simp]: "stored demo (world_with s) ''b'' = None"
  by (simp add: stored_def node_at_def world_with_def bundle_comps_def state_comps_def socket_comps_def)

lemma demo_store_ok: "store_ok demo ''a''"
  by (simp add: store_ok_def demo_codecs)

lemma intact_world_with: "intact demo (world_with s) ''a'' s"
  by (simp add: intact_def)

lemma demo_start: "\<exists>w'. start demo ''a'' (world_with (demo_state Created (Some 7))) = (Inr (), w')"
proof -
  let ?w = "world_with (demo_state Created (Some 7))"
  let ?w1 = "log_op (Op_read (get_state_path ''a'')) True ?w"
  have "\<exists>w2. connect_create_process demo ''a'' ?w1 = (Inr (), w2) \<and> node_at w2 = node_at ?w1"
    by (simp add: connect_create_process_def get_socket_fd_def nix_int_def nix_connect_def connect_errno_def Let_def
        thenE_def bindE_def map_err_def comp_simps)
  then obtain w2 where w2: "connect_create_process demo ''a'' ?w1 = (Inr (), w2)" "node_at w2 = node_at ?w1" by blast
  then have "intact demo w2 ''a'' (demo_state Created (Some 7))"
    using intact_world_with stored_cong [of w2 "''a''" ?w1 demo] by (simp add: intact_def)
  from update_state_run [OF _ demo_codecs(1) demo_obliging this, of set_running] obtain w' where
    "update_state demo ''a'' set_running w2 = (Inr (set_running (demo_state Created (Some 7))), w')" by auto
  with w2(1) show ?thesis
    unfolding start_def obliging_read [OF demo_obliging intact_world_with plain_a(1)]
    by (simp add: demo_state_def comp_simps)
qed

lemma demo_kill: "\<exists>w'. kill demo ''a'' (world_with (demo_state Running (Some 7))) = (Inr (), w')"
proof -
  let ?w = "world_with (demo_state Running (Some 7))"
  let ?w2 = "log_op (Op_kill 7 SIGKILL) True (log_op (Op_read (get_state_path ''a'')) True ?w)"
  have dir: "is_dir ?w2 (bundle_comps ''a'')" by (simp add: is_dir_def)
  obtain w' where "write_state_file demo ''a'' (set_stopped (demo_state Running (Some 7))) ?w2 = (Inr (), w')"
    by (rule write_state_file_run [OF plain_a(1) demo_codecs(1) dir]) simp_all
  then show ?thesis
    unfolding kill_def obliging_read [OF demo_obliging intact_world_with plain_a(1)]
    by (simp add: demo_state_def send_sigkill_def thenE_def bindE_def attempt_def comp_simps)
qed

lemma demo_delete: "\<exists>w'. delete demo ''a'' False (world_with (demo_state Stopped None)) = (Inr (), w')"
proof -
  have "is_pseudo (norm_path [] (cgroup_dir ''a''))" by (simp add: cgroup_dir_child)
  then show ?thesis
    unfolding delete_def if_False
    by (simp add: obliging_read [OF demo_obliging intact_world_with plain_a(1)])
       (simp add: demo_state_def cleanup_def fs_remove_dir_def fs_remove_dir_all_def Let_def thenE_def bindE_def
         map_err_def comp_simps)
qed

lemma fresh_empty: "fresh ''a'' empty_world"
  by (auto simp: fresh_def empty_world_def node_at_def bundle_comps_def)

lemma demo_create: "\<exists>w'. create demo ''a'' ''/cfg'' (Some ''/sk'') empty_world = (Inr (), w')"
proof -
  have s: "slice_to ''a'' (min (length ''a'') 9) = Some ''a''" by (simp add: slice_to_def is_char_boundary_def)
  have p: "norm_path (k_cwd demo) (''/cfg'' @ ''/config.json'') = [''cfg'', ''config.json'']" by (simp add: norm_path_def)
  show ?thesis
    using create_run [OF demo_friendly plain_a(1) demo_codecs s fresh_empty, of "''/cfg''" "''{}''" demo_config "''/bin/sh''" "[]" "Some ''/sk''"] p
    by (auto simp: is_pseudo_def empty_world_def node_at_def demo_config_def get_root_path_def get_process_args_def)
qed

end
