(* ===== verification/Daemon.thy ===== *)
theory Daemon
  imports Create "HOL-Library.Multiset"
begin

text \<open>
  The daemon \<open>cloneboxd\<close>: its table of containers (\<open>entry.rs\<close>), the event loop
  (\<open>event.rs\<close>), the gRPC handlers (\<open>daemon.rs\<close>), the conversions of \<open>convert.rs\<close> and the
  recovery at start-up (\<open>recovery.rs\<close>).

  A \<open>tokio\<close> oneshot channel is a cell that is pending, holds the value that was sent, or has
  lost its sender; a sender is the index of its cell. A handler that awaits a channel is two
  definitions: what it does up to the await, and its reply once the cell is no longer pending.
  The mutex makes each block that holds it one step. Log output is not modelled.
\<close>

section \<open>entry.rs\<close>

datatype 'a chan = Pending | Sent 'a | Dropped

record ContainerEntry =
  ce_state :: container_state
  created_waiter :: "nat option"
  exit_waiter :: "nat list"

definition ContainerEntry_new :: "container_state \<Rightarrow> nat option \<Rightarrow> nat list \<Rightarrow> ContainerEntry" where
  "ContainerEntry_new st cw ew = \<lparr>ce_state = st, created_waiter = cw, exit_waiter = ew\<rparr>"

text \<open>The \<open>HashMap\<close> is listed in its iteration order; the cells stand beside it.\<close>

record Cloneboxd =
  containers :: "(string \<times> ContainerEntry) list"
  created_ch :: "unit chan list"
  exit_ch :: "i32 chan list"
  d_world :: world

definition Cloneboxd_new :: "world \<Rightarrow> Cloneboxd" where
  "Cloneboxd_new w = \<lparr>containers = [], created_ch = [], exit_ch = [], d_world = w\<rparr>"

text \<open>
  What the binaries get from their environment: the variables, the path of the running program
  (an absolute path, by its components), the text of \<open>tokio\<close>'s \<open>RecvError\<close>, and whether an
  entry of a directory listing cannot be used (no entry, no file type, or a name that is not
  UTF-8).
\<close>

record daemon_kernel = config_kernel +
  k_env :: "string \<Rightarrow> string option"
  k_current_exe :: "io_error + string list"
  k_closed_text :: string
  k_dir_error :: "string \<Rightarrow> world \<Rightarrow> bool"

definition show_path :: "string list \<Rightarrow> string" where
  "show_path cs = concat (map (\<lambda>c. CHR ''/'' # c) cs)"

text \<open>\<open>current_exe()?.parent().expect(..).join(name)\<close>\<close>

definition beside_exe :: "('k) daemon_kernel_scheme \<Rightarrow> string \<Rightarrow> ('w, io_error, string) comp" where
  "beside_exe K name =
     (case k_current_exe K of
        Inl e \<Rightarrow> throw e
      | Inr [] \<Rightarrow> stop_with Panicked
      | Inr cs \<Rightarrow> ret (show_path (butlast cs @ [name])))"

definition shim_path :: "('k) daemon_kernel_scheme \<Rightarrow> (Cloneboxd, io_error, string) comp" where
  "shim_path K =
     (case k_env K ''CLONEBOX_SHIM'' of Some p \<Rightarrow> ret p | None \<Rightarrow> beside_exe K ''clonebox-shim'')"

definition entry_of :: "Cloneboxd \<Rightarrow> string \<Rightarrow> ContainerEntry option" where
  "entry_of d cid = map_of (containers d) cid"

definition put_entry :: "string \<Rightarrow> ContainerEntry \<Rightarrow> Cloneboxd \<Rightarrow> Cloneboxd" where
  "put_entry cid e d = d\<lparr>containers := AList.update cid e (containers d)\<rparr>"

text \<open>A dropped entry drops its senders.\<close>

definition mark :: "nat list \<Rightarrow> 'a chan \<Rightarrow> 'a chan list \<Rightarrow> 'a chan list" where
  "mark is c chs = fold (\<lambda>i chs. chs[i := c]) is chs"

definition drop_entry :: "ContainerEntry \<Rightarrow> Cloneboxd \<Rightarrow> Cloneboxd" where
  "drop_entry e d =
     d\<lparr>created_ch := mark (case created_waiter e of None \<Rightarrow> [] | Some i \<Rightarrow> [i]) Dropped (created_ch d),
       exit_ch := mark (exit_waiter e) Dropped (exit_ch d)\<rparr>"

text \<open>The error a \<open>main\<close> ends with.\<close>

datatype main_error =
    Main_msg string
  | Main_core core_error
  | Main_io io_error
  | Main_context string io_error
  | Main_transport string

section \<open>convert.rs\<close>

datatype code = Already_exists | Failed_precondition | Not_found | Internal | Unknown | Unimplemented

datatype status = Status code string

fun to_status :: "('k) kernel_scheme \<Rightarrow> core_error \<Rightarrow> status" where
  "to_status K (ContainerAlreadyExists i) = Status Already_exists (i @ '' already exists'')"
| "to_status K (ContainerAlreadyStopped i) = Status Failed_precondition (i @ '' already stopped'')"
| "to_status K (ContainerNotFound i) = Status Not_found (i @ '' not found'')"
| "to_status K (ContainerNotCreated i) = Status Failed_precondition (i @ '' not created'')"
| "to_status K (ContainerNotRunning i) = Status Failed_precondition (i @ '' not running'')"
| "to_status K (ContainerNotPaused i) = Status Failed_precondition (i @ '' not paused'')"
| "to_status K (ContainerNotStopped i) = Status Failed_precondition (i @ '' not stopped'')"
| "to_status K (CleanupFailure err i) = Status Internal (''failed to clean '' @ i @ '' up: '' @ k_io_text K err)"
| "to_status K (ConfigError err) = Status Internal (''config error: '' @ display_config_error err)"
| "to_status K (StateError err) = Status Internal (''state error: '' @ display_state_error err)"
| "to_status K (SystemError err) = Status Internal (''system error: '' @ display_system_error (k_io_text K) err)"
| "to_status K (Other err) = Status Unknown (''Other: '' @ display_anyhow (k_errno_text K) err)"

record ProtoState =
  ps_oci_version :: string
  ps_id :: string
  ps_status :: i32
  ps_pid :: "i32 option"
  ps_bundle :: string
  ps_annotations :: "(string, string) fmap"

fun proto_status :: "container_state \<Rightarrow> i32" where
  "proto_status Creating = 1"
| "proto_status Created = 2"
| "proto_status Running = 3"
| "proto_status Stopped = 4"
| "proto_status Paused = 5"

definition ProtoState_from :: "State \<Rightarrow> ProtoState" where
  "ProtoState_from s =
     \<lparr>ps_oci_version = s_oci_version s, ps_id = s_id s, ps_status = proto_status (s_status s), ps_pid = s_pid s,
      ps_bundle = s_bundle s, ps_annotations = (case s_annotations s of None \<Rightarrow> fmempty | Some ann \<Rightarrow> ann)\<rparr>"

section \<open>event.rs\<close>

definition get_event_socket_path :: string where
  "get_event_socket_path = ''/run/clonebox/event.sk''"

text \<open>The two blocks of \<open>update_status\<close>: the waiter for the creation, then those for the exit.\<close>

definition wake_created :: "Event \<Rightarrow> ContainerEntry \<times> unit chan list \<Rightarrow> ContainerEntry \<times> unit chan list" where
  "wake_created ev = (\<lambda>(en, chs).
     if ce_state en \<noteq> Creating
     then (case created_waiter en of
             Some tx \<Rightarrow> (en\<lparr>created_waiter := None\<rparr>, mark [tx] (Sent ()) chs)
           | None \<Rightarrow> (en, chs))
     else (en, chs))"

definition wake_exit :: "Event \<Rightarrow> ContainerEntry \<times> i32 chan list \<Rightarrow> ContainerEntry \<times> i32 chan list" where
  "wake_exit ev = (\<lambda>(en, chs).
     if ce_state en = Stopped
     then (en\<lparr>exit_waiter := []\<rparr>,
           mark (exit_waiter en) (Sent (case e_exit_code ev of Some c \<Rightarrow> c | None \<Rightarrow> 0)) chs)
     else (en, chs))"

definition update_status :: "Event \<Rightarrow> Cloneboxd \<Rightarrow> Cloneboxd" where
  "update_status ev d =
     (case entry_of d (e_id ev) of
        None \<Rightarrow> d
      | Some entry \<Rightarrow>
          let (e1, cch) = wake_created ev (entry\<lparr>ce_state := e_state ev\<rparr>, created_ch d);
              (e2, ech) = wake_exit ev (e1, exit_ch d)
          in put_entry (e_id ev) e2 (d\<lparr>created_ch := cch, exit_ch := ech\<rparr>))"

definition event_line :: "('k) event_kernel_scheme \<Rightarrow> string \<Rightarrow> Cloneboxd \<Rightarrow> Cloneboxd" where
  "event_line K line d =
     (case j_event_from_str K line of Inr e \<Rightarrow> update_status e d | Inl _ \<Rightarrow> d)"

text \<open>One connection: its lines, in order. The loop over connections is the step relation below.\<close>

definition event_conn :: "('k) event_kernel_scheme \<Rightarrow> string list \<Rightarrow> Cloneboxd \<Rightarrow> Cloneboxd" where
  "event_conn K lines = fold (event_line K) lines"

section \<open>daemon.rs\<close>

type_synonym 'a rpc = "(Cloneboxd, status, 'a) comp"

text \<open>A call into \<open>clonebox_core\<close> with \<open>map_err(to_status)\<close>.\<close>

definition on_world :: "(world, 'e, 'a) comp \<Rightarrow> (Cloneboxd, 'e, 'a) comp" where
  "on_world m d = (let (r, w) = m (d_world d) in (r, d\<lparr>d_world := w\<rparr>))"

definition core :: "('k) kernel_scheme \<Rightarrow> 'a core \<Rightarrow> 'a rpc" where
  "core K m = map_err (to_status K) (on_world m)"

definition set_entry_state :: "string \<Rightarrow> container_state \<Rightarrow> unit rpc" where
  "set_entry_state cid st d =
     (Inr (), case entry_of d cid of None \<Rightarrow> d | Some e \<Rightarrow> put_entry cid (e\<lparr>ce_state := st\<rparr>) d)"

text \<open>\<open>create\<close> up to the await; the result is the receiver.\<close>

definition insert_new :: "string \<Rightarrow> nat rpc" where
  "insert_new cid d =
     (let i = length (created_ch d);
          d1 = d\<lparr>created_ch := created_ch d @ [Pending]\<rparr>;
          new_entry = ContainerEntry_new Creating (Some i) []
      in (Inr i, case entry_of d cid of
                   Some _ \<Rightarrow> drop_entry new_entry d1
                 | None \<Rightarrow> put_entry cid new_entry d1))"

definition spawn_shim :: "('k) kernel_scheme \<Rightarrow> string \<Rightarrow> string \<Rightarrow> string \<Rightarrow> unit rpc" where
  "spawn_shim K path cid cfg =
     map_err (\<lambda>e. Status Internal (k_io_text K e))
       (on_world (io_call K (Op_command path [cid, cfg, get_event_socket_path])))"

definition daemon_create :: "('k) daemon_kernel_scheme \<Rightarrow> string \<Rightarrow> string \<Rightarrow> nat rpc" where
  "daemon_create K cid cfg =
     bindE (map_err (\<lambda>e. Status Internal (k_io_text K e)) (shim_path K)) (\<lambda>path_to_exec.
     bindE (insert_new cid) (\<lambda>created_rx.
     thenE (spawn_shim K path_to_exec cid cfg) (ret created_rx)))"

text \<open>The reply to \<open>create\<close>, \<open>None\<close> while the handler still waits.\<close>

definition create_reply :: "nat \<Rightarrow> Cloneboxd \<Rightarrow> (status + unit) option" where
  "create_reply created_rx d =
     (case created_ch d ! created_rx of
        Pending \<Rightarrow> None
      | Sent _ \<Rightarrow> Some (Inr ())
      | Dropped \<Rightarrow> Some (Inl (Status Internal ''container creation failed'')))"

definition daemon_start :: "('k) daemon_kernel_scheme \<Rightarrow> string \<Rightarrow> unit rpc" where
  "daemon_start K cid = thenE (core K (start K cid)) (set_entry_state cid Running)"

definition daemon_state :: "('k) daemon_kernel_scheme \<Rightarrow> string \<Rightarrow> ProtoState rpc" where
  "daemon_state K cid = bindE (core K (state K cid)) (\<lambda>s. ret (ProtoState_from s))"

definition daemon_kill :: "('k) daemon_kernel_scheme \<Rightarrow> string \<Rightarrow> unit rpc" where
  "daemon_kill K cid = thenE (core K (kill K cid)) (set_entry_state cid Stopped)"

definition remove_if_stopped :: "string \<Rightarrow> unit rpc" where
  "remove_if_stopped cid d =
     (Inr (), case entry_of d cid of
                Some e \<Rightarrow>
                  if ce_state e = Stopped
                  then drop_entry e (d\<lparr>containers := AList.delete cid (containers d)\<rparr>) else d
              | None \<Rightarrow> d)"

definition daemon_delete :: "('k) daemon_kernel_scheme \<Rightarrow> string \<Rightarrow> bool \<Rightarrow> unit rpc" where
  "daemon_delete K cid force = thenE (core K (delete K cid force)) (remove_if_stopped cid)"

definition daemon_pause :: "('k) daemon_kernel_scheme \<Rightarrow> string \<Rightarrow> unit rpc" where
  "daemon_pause K cid = thenE (core K (pause K cid)) (set_entry_state cid Paused)"

definition daemon_resume :: "('k) daemon_kernel_scheme \<Rightarrow> string \<Rightarrow> unit rpc" where
  "daemon_resume K cid = thenE (core K (resume K cid)) (set_entry_state cid Running)"

definition daemon_exec :: "unit rpc" where
  "daemon_exec =
     throw (Status Unimplemented ''exec over gRPC is not implemented in v1; use the clonebox CLI directly'')"

definition daemon_wait :: "string \<Rightarrow> nat rpc" where
  "daemon_wait cid d =
     (let i = length (exit_ch d) in
      case entry_of d cid of
        Some e \<Rightarrow>
          (Inr i, put_entry cid (e\<lparr>exit_waiter := exit_waiter e @ [i]\<rparr>) (d\<lparr>exit_ch := exit_ch d @ [Pending]\<rparr>))
      | None \<Rightarrow> (Inl (Fail (Status Internal ''not found'')), d\<lparr>exit_ch := exit_ch d @ [Dropped]\<rparr>))"

definition wait_reply :: "('k) daemon_kernel_scheme \<Rightarrow> nat \<Rightarrow> Cloneboxd \<Rightarrow> (status + i32) option" where
  "wait_reply K exit_rx d =
     (case exit_ch d ! exit_rx of
        Pending \<Rightarrow> None
      | Sent exit \<Rightarrow> Some (Inr exit)
      | Dropped \<Rightarrow> Some (Inl (Status Internal (k_closed_text K))))"

fun list_states :: "('k) daemon_kernel_scheme \<Rightarrow> string list \<Rightarrow> ProtoState list \<Rightarrow> ProtoState list rpc" where
  "list_states K [] states = ret states"
| "list_states K (i # ids) states =
     bindE (attempt (core K (state K i)))
       (\<lambda>r. case r of Inr s \<Rightarrow> list_states K ids (states @ [ProtoState_from s]) | Inl _ \<Rightarrow> list_states K ids states)"

definition daemon_list :: "('k) daemon_kernel_scheme \<Rightarrow> ProtoState list rpc" where
  "daemon_list K d = list_states K (k_order K (map fst (containers d)) (d_world d)) [] d"

definition graceful_shutdown :: "('k) kernel_scheme \<Rightarrow> string \<Rightarrow> string \<Rightarrow> (world, main_error, unit) comp" where
  "graceful_shutdown K client_sock event_sock =
     bindE (attempt (fs_remove_file K client_sock)) (\<lambda>_.
     bindE (attempt (fs_remove_file K event_sock)) (\<lambda>_. ret ()))"

section \<open>recovery.rs\<close>

text \<open>\<open>read_dir\<close>: the names in a directory, in the order the kernel lists them.\<close>

definition fs_read_dir :: "('k) kernel_scheme \<Rightarrow> string \<Rightarrow> string list io" where
  "fs_read_dir K p w =
     (let q = norm_path (k_cwd K) p in
      bindE (io_call K (Op_read_dir p))
        (\<lambda>_. if is_dir w q then ret (k_order K (remdups (map last (filter (\<lambda>k. k \<noteq> [] \<and> butlast k = q) (map fst (files w))))) w)
             else if node_at w q = None then throw (Os ENOENT) else throw (Os ENOTDIR)) w)"

text \<open>What the code relies on: a directory or a \<open>HashMap\<close> lists each of its names once, in any order.\<close>

definition orders :: "('k) kernel_scheme \<Rightarrow> bool" where
  "orders K \<longleftrightarrow> (\<forall>xs w. mset (k_order K xs w) = mset xs)"

lemma set_order: "orders K \<Longrightarrow> set (k_order K xs w) = set xs"
  by (metis orders_def set_mset_mset)

definition recovered_state :: "('k) kernel_scheme \<Rightarrow> State \<Rightarrow> world \<Rightarrow> State \<times> world" where
  "recovered_state K s w =
     (case s_pid s of
        Some pid \<Rightarrow>
          (let (found, w') = fs_exists K (''/proc/'' @ show_int (sint pid)) w
           in (if \<not> found then set_state Stopped s else s, w'))
      | None \<Rightarrow> (if s_status s = Running then set_state Stopped s else s, w))"

definition or_insert :: "string \<Rightarrow> ContainerEntry \<Rightarrow> Cloneboxd \<Rightarrow> Cloneboxd" where
  "or_insert cid e d = (case entry_of d cid of Some _ \<Rightarrow> drop_entry e d | None \<Rightarrow> put_entry cid e d)"

text \<open>The body of the loop; every \<open>continue\<close> leaves the table as it is.\<close>

definition recover_entry :: "('k) daemon_kernel_scheme \<Rightarrow> string \<Rightarrow> string \<Rightarrow> (Cloneboxd, io_error, unit) comp" where
  "recover_entry K app_data file_name d =
     (if k_dir_error K file_name (d_world d) then (Inr (), d)
      else if node_at (d_world d) (norm_path (k_cwd K) (app_data @ ''/'' @ file_name)) \<noteq> Some Dir then (Inr (), d)
      else
        (case fs_read_to_string K (app_data @ ''/'' @ file_name @ ''/state.json'') (d_world d) of
           (Inl _, w) \<Rightarrow> (Inr (), d\<lparr>d_world := w\<rparr>)
         | (Inr buf, w) \<Rightarrow>
             (case j_state_from_str K buf of
                Inl _ \<Rightarrow> (Inr (), d\<lparr>d_world := w\<rparr>)
              | Inr st \<Rightarrow>
                  let (st', w') = recovered_state K st w
                  in (Inr (), or_insert file_name (ContainerEntry_new (s_status st') None []) (d\<lparr>d_world := w'\<rparr>)))))"

definition recover :: "('k) daemon_kernel_scheme \<Rightarrow> string \<Rightarrow> (Cloneboxd, io_error, unit) comp" where
  "recover K app_data =
     bindE (on_world (fs_read_dir K app_data)) (\<lambda>dir_content. for_each dir_content (recover_entry K app_data))"

section \<open>main.rs\<close>

text \<open>\<open>UnixListener::bind\<close> makes the socket file; \<open>unwrap\<close> turns its failure into a panic.\<close>

definition get_listen_sk :: "('k) kernel_scheme \<Rightarrow> string \<Rightarrow> (world, main_error, unit) comp" where
  "get_listen_sk K path =
     bindE (attempt (fs_remove_file K path)) (\<lambda>_.
     bindE (attempt (nix_bind K path)) (\<lambda>r. case r of Inr _ \<Rightarrow> ret () | Inl _ \<Rightarrow> stop_with Panicked))"

definition client_socket :: string where "client_socket = ''/run/clonebox/clonebox.sk''"
definition app_data_path :: string where "app_data_path = ''/run/clonebox''"

text \<open>\<open>main\<close> up to the server.\<close>

definition daemon_up :: "('k) daemon_kernel_scheme \<Rightarrow> (Cloneboxd, main_error, unit) comp" where
  "daemon_up K =
     thenE (map_err Main_io (on_world (fs_create_dir_all K app_data_path)))
    (thenE (map_err (Main_context ''failed to chmod clonebox dir'') (on_world (fs_set_permissions K app_data_path 0x1C0)))
    (thenE (on_world (get_listen_sk K client_socket))
    (thenE (map_err Main_io (recover K app_data_path))
           (on_world (get_listen_sk K get_event_socket_path)))))"

text \<open>
  The whole of \<open>main\<close>. The server is \<open>tonic\<close>'s: it runs until ctrl-c, or ends with a transport
  error, and what it does meanwhile is its argument.
\<close>

definition daemon_main ::
    "('k) daemon_kernel_scheme \<Rightarrow> (Cloneboxd, string, unit) comp \<Rightarrow> (Cloneboxd, main_error, unit) comp" where
  "daemon_main K server =
     thenE (daemon_up K)
    (thenE (map_err Main_transport server)
    (bindE (attempt (on_world (graceful_shutdown K client_socket get_event_socket_path))) (\<lambda>_. ret ())))"

section \<open>The server\<close>

text \<open>One request of the service, and what its handler has done when it returns or awaits.\<close>

datatype request =
    CreateRequest string string
  | StartRequest string
  | StateRequest string
  | KillRequest string
  | DeleteRequest string bool
  | PauseRequest string
  | ResumeRequest string
  | ExecRequest string "string list"
  | WaitRequest string
  | ListRequest

datatype response =
    CreateResponse
  | StartResponse
  | StateResponse ProtoState
  | KillResponse
  | DeleteResponse
  | PauseResponse
  | ResumeResponse
  | ExecResponse
  | WaitResponse i32
  | ListResponse "ProtoState list"

datatype outcome =
    Ready response
  | Await_created nat
  | Await_exit nat

definition reply :: "response \<Rightarrow> unit rpc \<Rightarrow> outcome rpc" where
  "reply resp m = thenE m (ret (Ready resp))"

fun handle :: "('k) daemon_kernel_scheme \<Rightarrow> request \<Rightarrow> outcome rpc" where
  "handle K (CreateRequest i c) = bindE (daemon_create K i c) (\<lambda>rx. ret (Await_created rx))"
| "handle K (StartRequest i) = reply StartResponse (daemon_start K i)"
| "handle K (StateRequest i) = bindE (daemon_state K i) (\<lambda>s. ret (Ready (StateResponse s)))"
| "handle K (KillRequest i) = reply KillResponse (daemon_kill K i)"
| "handle K (DeleteRequest i f) = reply DeleteResponse (daemon_delete K i f)"
| "handle K (PauseRequest i) = reply PauseResponse (daemon_pause K i)"
| "handle K (ResumeRequest i) = reply ResumeResponse (daemon_resume K i)"
| "handle K (ExecRequest i c) = reply ExecResponse daemon_exec"
| "handle K (WaitRequest i) = bindE (daemon_wait i) (\<lambda>rx. ret (Await_exit rx))"
| "handle K ListRequest = bindE (daemon_list K) (\<lambda>ss. ret (Ready (ListResponse ss)))"

text \<open>
  The daemon's life after start-up: it handles requests and event lines in any order, while the
  supervisors and other processes change the world between two steps.
\<close>

inductive serve :: "('k) daemon_kernel_scheme \<Rightarrow> Cloneboxd \<Rightarrow> Cloneboxd \<Rightarrow> bool" for K where
  request: "handle K req d = (r, d') \<Longrightarrow> serve K d d'"
| event: "serve K d (event_line K line d)"
| others: "serve K d (d\<lparr>d_world := w\<rparr>)"

inductive_cases serveE: "serve K d d'"

end
