(* ===== verification/Client.thy ===== *)
theory Client
  imports Daemon
begin

text \<open>
  The other binaries: the supervisor \<open>clonebox-shim\<close> that the daemon spawns for every
  container, \<open>clonebox-exec\<close>, and the command line client \<open>clonebox\<close>. \<open>clap\<close> parses the
  client's command line and \<open>tonic\<close> carries a request to the daemon; both are outside the
  repository and are fields of the client's kernel.
\<close>

section \<open>clonebox-shim\<close>

text \<open>The arguments include the program's name.\<close>

definition shim_main :: "('k) config_kernel_scheme \<Rightarrow> string list \<Rightarrow> (world, main_error, unit) comp" where
  "shim_main K args =
     (case args of
        [_, container_id, config_path, event_socket] \<Rightarrow>
          bindE (attempt (create K container_id config_path (Some event_socket)))
            (\<lambda>r. case r of
               Inr _ \<Rightarrow> ret ()
             | Inl e \<Rightarrow>
                 bindE (attempt (send_event K event_socket (Event_new container_id Stopped (Some (- 1)))))
                   (\<lambda>r. case r of Inl _ \<Rightarrow> stop_with Panicked | Inr _ \<Rightarrow> throw (Main_core e)))
      | _ \<Rightarrow> throw (Main_msg ''shim args number''))"

section \<open>clonebox-exec\<close>

definition exec_main :: "('k) state_kernel_scheme \<Rightarrow> string list \<Rightarrow> (world, main_error, unit) comp" where
  "exec_main K args =
     (case tl args of
        [] \<Rightarrow> throw (Main_msg ''missing container id'')
      | i # cmd \<Rightarrow> map_err Main_core (exec K i cmd))"

section \<open>clonebox\<close>

datatype Commands =
    Cmd_create string string
  | Cmd_start string
  | Cmd_state string
  | Cmd_kill string
  | Cmd_delete string bool
  | Cmd_pause string
  | Cmd_resume string
  | Cmd_exec string "string list"
  | Cmd_list
  | Cmd_wait string

text \<open>
  \<open>k_parse\<close> is \<open>Cli::parse\<close>: the command that the arguments say, or the code the process ends
  with when they say none or ask for help. \<open>k_connect\<close> is the connection to the daemon's socket, \<open>k_call\<close> a request and the text of its
  response, \<open>k_status\<close> a program run to its end: its exit code, when it has one.
\<close>

record client_kernel = daemon_kernel +
  k_parse :: "string list \<Rightarrow> i32 + Commands"
  k_connect :: "string \<Rightarrow> world \<Rightarrow> string option"
  k_call :: "request \<Rightarrow> world \<Rightarrow> status + string"
  k_status :: "string \<Rightarrow> string list \<Rightarrow> world \<Rightarrow> io_error + i32 option"

datatype cli_error = Cli_transport string | Cli_status status | Cli_io io_error

definition exec_path :: "('k) daemon_kernel_scheme \<Rightarrow> (world, io_error, string) comp" where
  "exec_path K =
     (case k_env K ''CLONEBOX_EXEC'' of Some p \<Rightarrow> ret p | None \<Rightarrow> beside_exe K ''clonebox-exec'')"

text \<open>The result is the line that is printed; \<open>exec\<close> ends the process with the command's code.\<close>

definition call :: "('k) client_kernel_scheme \<Rightarrow> request \<Rightarrow> (world, cli_error, string) comp" where
  "call K req w =
     (case k_call K req w of Inl e \<Rightarrow> (Inl (Fail (Cli_status e)), w) | Inr text \<Rightarrow> (Inr text, w))"

definition run_exec :: "('k) client_kernel_scheme \<Rightarrow> string \<Rightarrow> string list \<Rightarrow> (world, cli_error, string) comp" where
  "run_exec K path args w =
     (case k_status K path args w of
        Inl e \<Rightarrow> (Inl (Fail (Cli_io e)), log_op (Op_command path args) False w)
      | Inr code \<Rightarrow>
          (Inl (Exited (case code of Some c \<Rightarrow> c | None \<Rightarrow> 1)), log_op (Op_command path args) True w))"

definition client_connect :: "('k) client_kernel_scheme \<Rightarrow> string \<Rightarrow> (world, cli_error, unit) comp" where
  "client_connect K path w =
     (case k_connect K path w of Some e \<Rightarrow> (Inl (Fail (Cli_transport e)), w) | None \<Rightarrow> (Inr (), w))"

definition run_cmd :: "('k) client_kernel_scheme \<Rightarrow> Commands \<Rightarrow> (world, cli_error, string) comp" where
  "run_cmd K cmd =
     (case cmd of
        Cmd_create i c \<Rightarrow> call K (CreateRequest i c)
      | Cmd_start i \<Rightarrow> call K (StartRequest i)
      | Cmd_state i \<Rightarrow> call K (StateRequest i)
      | Cmd_kill i \<Rightarrow> call K (KillRequest i)
      | Cmd_delete i f \<Rightarrow> call K (DeleteRequest i f)
      | Cmd_pause i \<Rightarrow> call K (PauseRequest i)
      | Cmd_resume i \<Rightarrow> call K (ResumeRequest i)
      | Cmd_exec i c \<Rightarrow>
          bindE (attempt (exec_path K))
            (\<lambda>r. case r of Inl _ \<Rightarrow> stop_with Panicked | Inr path \<Rightarrow> run_exec K path (i # c))
      | Cmd_list \<Rightarrow> call K ListRequest
      | Cmd_wait i \<Rightarrow> call K (WaitRequest i))"

definition cli_main :: "('k) client_kernel_scheme \<Rightarrow> string list \<Rightarrow> (world, cli_error, string) comp" where
  "cli_main K args =
     (case k_parse K args of
        Inl code \<Rightarrow> stop_with (Exited code)
      | Inr cmd \<Rightarrow> thenE (client_connect K ''unix:///run/clonebox/clonebox.sk'') (run_cmd K cmd))"

end
