(* ===== verification/Service.thy ===== *)
theory Service
  imports Client Progress
begin

text \<open>
  What the daemon promises its clients: no waiting request is lost, events reach exactly the
  requests that wait for them, the table agrees with the state files after a request, and what
  start-up recovers.
\<close>

section \<open>Waiters and their channels\<close>

text \<open>
  The senders held for each id and the cells they belong to fit when every pending cell has
  exactly one sender, held by one id.
\<close>

definition fits :: "(string \<Rightarrow> nat list) \<Rightarrow> 'a chan list \<Rightarrow> bool" where
  "fits f chs \<longleftrightarrow>
     (\<forall>c. distinct (f c)) \<and> (\<forall>c c'. c \<noteq> c' \<longrightarrow> set (f c) \<inter> set (f c') = {}) \<and>
     (\<forall>i. (\<exists>c. i \<in> set (f c)) \<longleftrightarrow> i < length chs \<and> chs ! i = Pending)"

lemma length_mark [simp]: "length (mark is v chs) = length chs"
  unfolding mark_def by (induction "is" arbitrary: chs) auto

lemma nth_mark: "i < length chs \<Longrightarrow> mark is v chs ! i = (if i \<in> set is then v else chs ! i)"
  unfolding mark_def by (induction "is" arbitrary: chs) (auto simp: nth_list_update)

lemma mark_Nil [simp]: "mark [] v chs = chs"
  by (simp add: mark_def)

lemma mark_append: "set is \<subseteq> {..<length chs} \<Longrightarrow> mark is v (chs @ xs) = mark is v chs @ xs"
  unfolding mark_def by (induction "is" arbitrary: chs) (auto simp: list_update_append)

lemma mark_last: "mark [length chs] v (chs @ [x]) = chs @ [v]"
  by (simp add: mark_def)

lemma fits_pending: "fits f chs \<Longrightarrow> i \<in> set (f c) \<Longrightarrow> i < length chs \<and> chs ! i = Pending"
  unfolding fits_def by blast

lemma fits_owner: "fits f chs \<Longrightarrow> i < length chs \<Longrightarrow> chs ! i = Pending \<Longrightarrow> \<exists>!c. i \<in> set (f c)"
  unfolding fits_def by (metis disjoint_iff)

lemma fits_empty: "fits (\<lambda>_. []) []"
  by (simp add: fits_def)

lemma fits_serve: "fits f chs \<Longrightarrow> v \<noteq> Pending \<Longrightarrow> fits (f(c := [])) (mark (f c) v chs)"
  unfolding fits_def by (auto simp: nth_mark disjoint_iff) (metis nth_mark)+

lemma fits_new: "fits f chs \<Longrightarrow> fits (f(c := f c @ [length chs])) (chs @ [Pending])"
  unfolding fits_def by (auto simp: nth_append disjoint_iff less_Suc_eq)

lemma fits_dropped: "fits f chs \<Longrightarrow> fits f (chs @ [Dropped])"
  unfolding fits_def by (auto simp: nth_append less_Suc_eq)

text \<open>A cell that is no longer pending never changes again: \<open>oneshot\<close> channels.\<close>

definition grows :: "'a chan list \<Rightarrow> 'a chan list \<Rightarrow> bool" where
  "grows chs chs' \<longleftrightarrow> length chs \<le> length chs' \<and> (\<forall>i < length chs. chs ! i \<noteq> Pending \<longrightarrow> chs' ! i = chs ! i)"

lemma grows_refl [simp]: "grows chs chs"
  by (simp add: grows_def)

lemma grows_trans: "grows a b \<Longrightarrow> grows b c \<Longrightarrow> grows a c"
  unfolding grows_def by (metis order_less_le_trans order_trans)

lemma grows_append [simp]: "grows chs (chs @ xs)"
  by (simp add: grows_def nth_append)

lemma grows_mark: "fits f chs \<Longrightarrow> grows chs (mark (f c) v chs)"
  by (auto simp: grows_def nth_mark dest: fits_pending)

section \<open>The table\<close>

definition created_of :: "Cloneboxd \<Rightarrow> string \<Rightarrow> nat list" where
  "created_of d c = (case entry_of d c of None \<Rightarrow> [] | Some e \<Rightarrow> (case created_waiter e of None \<Rightarrow> [] | Some i \<Rightarrow> [i]))"

definition exit_of :: "Cloneboxd \<Rightarrow> string \<Rightarrow> nat list" where
  "exit_of d c = (case entry_of d c of None \<Rightarrow> [] | Some e \<Rightarrow> exit_waiter e)"

definition table_wf :: "Cloneboxd \<Rightarrow> bool" where
  "table_wf d \<longleftrightarrow> fits (created_of d) (created_ch d) \<and> fits (exit_of d) (exit_ch d)"

definition table_step :: "Cloneboxd \<Rightarrow> Cloneboxd \<Rightarrow> bool" where
  "table_step d d' \<longleftrightarrow> table_wf d' \<and> grows (created_ch d) (created_ch d') \<and> grows (exit_ch d) (exit_ch d')"

lemma table_step_trans: "table_step a b \<Longrightarrow> table_step b c \<Longrightarrow> table_step a c"
  by (auto simp: table_step_def intro: grows_trans)

lemma entry_of_put [simp]: "entry_of (put_entry c e d) = (entry_of d)(c \<mapsto> e)"
  by (simp add: entry_of_def put_entry_def update_conv' fun_eq_iff)

lemma put_entry_fields [simp]:
  "created_ch (put_entry c e d) = created_ch d" "exit_ch (put_entry c e d) = exit_ch d" "d_world (put_entry c e d) = d_world d"
  by (simp_all add: put_entry_def)

lemma entry_of_fields [simp]:
  "entry_of (d\<lparr>created_ch := x\<rparr>) = entry_of d" "entry_of (d\<lparr>exit_ch := y\<rparr>) = entry_of d"
  "entry_of (d\<lparr>d_world := w\<rparr>) = entry_of d" "entry_of (drop_entry e d) = entry_of d"
  "entry_of (d\<lparr>containers := AList.delete c (containers d)\<rparr>) = (entry_of d)(c := None)"
  by (simp_all add: entry_of_def drop_entry_def delete_conv' fun_eq_iff)

lemma table_cong:
  assumes "entry_of d = entry_of d'" "created_ch d = created_ch d'" "exit_ch d = exit_ch d'"
  shows "table_wf d \<longleftrightarrow> table_wf d'"
proof -
  have "created_of d = created_of d'" "exit_of d = exit_of d'"
    using assms(1) by (simp_all add: created_of_def exit_of_def fun_eq_iff)
  with assms(2,3) show ?thesis by (simp add: table_wf_def)
qed

lemma table_world [simp]: "table_wf (d\<lparr>d_world := w\<rparr>) = table_wf d"
  by (rule table_cong) simp_all

lemma table_step_same [simp]: "table_step d d = table_wf d" "table_step d (d\<lparr>d_world := w\<rparr>) = table_wf d"
  by (simp_all add: table_step_def)

lemma of_upd:
  "entry_of d' = (entry_of d)(c \<mapsto> e) \<Longrightarrow>
     created_of d' = (created_of d)(c := case created_waiter e of None \<Rightarrow> [] | Some i \<Rightarrow> [i])"
  "entry_of d' = (entry_of d)(c \<mapsto> e) \<Longrightarrow> exit_of d' = (exit_of d)(c := exit_waiter e)"
  "entry_of d' = (entry_of d)(c := None) \<Longrightarrow> created_of d' = (created_of d)(c := [])"
  "entry_of d' = (entry_of d)(c := None) \<Longrightarrow> exit_of d' = (exit_of d)(c := [])"
  by (simp_all add: created_of_def exit_of_def fun_eq_iff)

lemma of_cong:
  "entry_of d' = entry_of d \<Longrightarrow> created_of d' = created_of d" "entry_of d' = entry_of d \<Longrightarrow> exit_of d' = exit_of d"
  by (simp_all add: created_of_def exit_of_def fun_eq_iff)

text \<open>The ways in which the code changes an entry.\<close>

lemma table_set_state:
  assumes "table_wf d" "entry_of d c = Some e"
  shows "table_step d (put_entry c (e\<lparr>ce_state := st\<rparr>) d)"
proof -
  have "created_of (put_entry c (e\<lparr>ce_state := st\<rparr>) d) = created_of d"
    "exit_of (put_entry c (e\<lparr>ce_state := st\<rparr>) d) = exit_of d"
    using assms(2) by (simp_all add: created_of_def exit_of_def fun_eq_iff)
  with assms(1) show ?thesis by (simp add: table_wf_def table_step_def)
qed

lemma table_remove:
  assumes "table_wf d" "entry_of d c = Some e"
  shows "table_step d (drop_entry e (d\<lparr>containers := AList.delete c (containers d)\<rparr>))"
proof -
  let ?d = "drop_entry e (d\<lparr>containers := AList.delete c (containers d)\<rparr>)"
  have "entry_of ?d = (entry_of d)(c := None)" by simp
  moreover have "created_ch ?d = mark (created_of d c) Dropped (created_ch d)"
    "exit_ch ?d = mark (exit_of d c) Dropped (exit_ch d)"
    using assms(2) by (auto simp: drop_entry_def created_of_def exit_of_def)
  ultimately show ?thesis
    using assms(1) by (simp add: table_wf_def table_step_def of_upd fits_serve grows_mark)
qed

lemma table_insert_new:
  assumes "table_wf d" "insert_new c d = (r, d')"
  shows "table_step d d'"
proof (cases "entry_of d c")
  case None
  then have c: "created_of d c = []" "exit_of d c = []" by (simp_all add: created_of_def exit_of_def)
  from None assms(2) have "entry_of d' = (entry_of d)(c \<mapsto> ContainerEntry_new Creating (Some (length (created_ch d))) [])"
    "created_ch d' = created_ch d @ [Pending]" "exit_ch d' = exit_ch d"
    by (auto simp: insert_new_def Let_def)
  with assms(1) c fits_new [of "created_of d" "created_ch d" c] show ?thesis
    by (auto simp: table_wf_def table_step_def of_upd ContainerEntry_new_def fun_upd_idem)
next
  case (Some e)
  with assms(2) have "entry_of d' = entry_of d" "created_ch d' = created_ch d @ [Dropped]" "exit_ch d' = exit_ch d"
    by (auto simp: insert_new_def Let_def drop_entry_def ContainerEntry_new_def mark_last entry_of_def)
  with of_cong [of d' d] assms(1) show ?thesis by (simp add: table_wf_def table_step_def fits_dropped)
qed

lemma table_wait:
  assumes "table_wf d" "daemon_wait c d = (r, d')"
  shows "table_step d d'"
proof (cases "entry_of d c")
  case None
  with assms(2) have "entry_of d' = entry_of d" "created_ch d' = created_ch d" "exit_ch d' = exit_ch d @ [Dropped]"
    by (auto simp: daemon_wait_def Let_def)
  with of_cong [of d' d] assms(1) show ?thesis by (simp add: table_wf_def table_step_def fits_dropped)
next
  case (Some e)
  let ?e = "e\<lparr>exit_waiter := exit_waiter e @ [length (exit_ch d)]\<rparr>"
  from Some assms(2) have "entry_of d' = (entry_of d)(c \<mapsto> ?e)" "created_ch d' = created_ch d"
    "exit_ch d' = exit_ch d @ [Pending]"
    by (auto simp: daemon_wait_def Let_def)
  moreover from Some have "exit_waiter ?e = exit_of d c @ [length (exit_ch d)]"
    "(case created_waiter ?e of None \<Rightarrow> [] | Some i \<Rightarrow> [i]) = created_of d c"
    by (simp_all add: created_of_def exit_of_def)
  ultimately show ?thesis
    using assms(1) by (simp add: table_wf_def table_step_def of_upd fits_new del: append_assoc ContainerEntry.simps)
qed

section \<open>Events\<close>

definition exit_code_of :: "Event \<Rightarrow> i32" where
  "exit_code_of ev = (case e_exit_code ev of Some c \<Rightarrow> c | None \<Rightarrow> 0)"

lemma update_status_run:
  assumes "d' = update_status ev d"
  shows "entry_of d' = (case entry_of d (e_id ev) of
           None \<Rightarrow> entry_of d
         | Some e \<Rightarrow> (entry_of d)(e_id ev \<mapsto>
             ContainerEntry_new (e_state ev) (if e_state ev = Creating then created_waiter e else None)
               (if e_state ev = Stopped then [] else exit_waiter e)))"
    and "created_ch d' = (if e_state ev = Creating then created_ch d
         else mark (created_of d (e_id ev)) (Sent ()) (created_ch d))"
    and "exit_ch d' = (if e_state ev = Stopped then mark (exit_of d (e_id ev)) (Sent (exit_code_of ev)) (exit_ch d)
         else exit_ch d)"
    and "d_world d' = d_world d"
  using assms
  by (auto simp: update_status_def wake_created_def wake_exit_def created_of_def exit_of_def exit_code_of_def
      ContainerEntry_new_def Let_def split: option.splits if_splits)

lemma table_update_status:
  assumes "table_wf d"
  shows "table_step d (update_status ev d)"
proof (cases "entry_of d (e_id ev)")
  case None
  then show ?thesis using assms by (simp add: update_status_def table_step_def)
next
  case (Some e)
  let ?c = "e_id ev" and ?d = "update_status ev d"
  note run = update_status_run [OF refl, of ev d]
  have "created_of ?d = (if e_state ev = Creating then created_of d else (created_of d)(?c := []))"
    using of_upd(1) [OF run(1) [unfolded Some option.case]] Some
    by (auto simp: ContainerEntry_new_def created_of_def fun_eq_iff)
  moreover have "exit_of ?d = (if e_state ev = Stopped then (exit_of d)(?c := []) else exit_of d)"
    using of_upd(2) [OF run(1) [unfolded Some option.case]] Some
    by (auto simp: ContainerEntry_new_def exit_of_def fun_eq_iff)
  ultimately show ?thesis
    using assms run(2,3) fits_serve [of "created_of d" "created_ch d" "Sent ()" ?c]
      fits_serve [of "exit_of d" "exit_ch d" "Sent (exit_code_of ev)" ?c]
    by (auto simp: table_wf_def table_step_def grows_mark)
qed

lemma table_event_line: "table_wf d \<Longrightarrow> table_step d (event_line K line d)"
  using table_update_status [of d] by (auto simp: event_line_def split: sum.splits)

section \<open>Requests\<close>

text \<open>\<open>moves R m\<close>: whatever \<open>m\<close> does, it takes the daemon along \<open>R\<close>.\<close>

definition moves :: "(Cloneboxd \<Rightarrow> Cloneboxd \<Rightarrow> bool) \<Rightarrow> (Cloneboxd, 'e, 'a) comp \<Rightarrow> bool" where
  "moves R m \<longleftrightarrow> (\<forall>d r d'. m d = (r, d') \<longrightarrow> R d d')"

lemma movesI: "(\<And>d r d'. m d = (r, d') \<Longrightarrow> R d d') \<Longrightarrow> moves R m"
  by (simp add: moves_def)

lemma movesD: "moves R m \<Longrightarrow> m d = (r, d') \<Longrightarrow> R d d'"
  by (simp add: moves_def)

named_theorems tables \<open>operations that take the table along a relation\<close>

text \<open>A relation that can be composed, and that the world is no part of, is kept by the plumbing of the handlers.\<close>

locale table_relation =
  fixes R :: "Cloneboxd \<Rightarrow> Cloneboxd \<Rightarrow> bool"
  assumes same: "R d d"
    and compose: "R d d1 \<Longrightarrow> R d1 d2 \<Longrightarrow> R d d2"
    and other_world: "R d (d\<lparr>d_world := w\<rparr>)"
begin

lemma pure [tables]: "moves R (ret x)" "moves R (stop_with e)" "moves R (throw e')"
  by (auto simp: moves_def comp_simps same)

lemma bind [tables]: "moves R m \<Longrightarrow> (\<And>x. moves R (f x)) \<Longrightarrow> moves R (bindE m f)"
  by (rule movesI) (auto simp: bindE_def split: prod.splits sum.splits dest: movesD intro: compose)

lemma sequence [tables]: "moves R m \<Longrightarrow> moves R m' \<Longrightarrow> moves R (thenE m m')"
  unfolding thenE_def by (rule bind)

lemma wrap [tables]:
  "moves R m \<Longrightarrow> moves R (map_err f m)" "moves R m \<Longrightarrow> moves R (attempt m)"
  unfolding moves_def map_err_def attempt_def by (auto split: prod.splits sum.splits stop.splits)

lemma loop [tables]: "(\<And>x. moves R (f x)) \<Longrightarrow> moves R (for_each xs f)"
  by (induction xs) (auto intro: pure sequence)

lemma branches [tables]:
  "(\<And>e. moves R (f e)) \<Longrightarrow> (\<And>x. moves R (g x)) \<Longrightarrow> moves R (case r of Inl e \<Rightarrow> f e | Inr x \<Rightarrow> g x)"
  "moves R h \<Longrightarrow> (\<And>x. moves R (k x)) \<Longrightarrow> moves R (case v of None \<Rightarrow> h | Some x \<Rightarrow> k x)"
  by (auto split: sum.splits option.splits)

lemma on_world [tables]: "moves R (on_world m)"
  by (auto simp: moves_def on_world_def Let_def other_world split: prod.splits)

lemma paths [tables]: "moves R (beside_exe K name)" "moves R (shim_path K)"
  unfolding shim_path_def beside_exe_def by (auto intro: pure branches split: sum.splits list.splits option.splits)

lemma list_states [tables]: "moves R (list_states K ids ss)"
proof (induction ids arbitrary: ss)
  case (Cons i ids)
  then show ?case unfolding list_states.simps core_def by (intro tables)
qed (simp add: pure)

lemma list [tables]: "moves R (daemon_list K)"
  by (auto simp: daemon_list_def intro!: movesI dest: movesD [OF list_states])

end

text \<open>The first such relation: a well-formed table is taken a step.\<close>

definition table_move :: "Cloneboxd \<Rightarrow> Cloneboxd \<Rightarrow> bool" where
  "table_move d d' \<longleftrightarrow> (table_wf d \<longrightarrow> table_step d d')"

abbreviation table_keeps :: "(Cloneboxd, 'e, 'a) comp \<Rightarrow> bool" where
  "table_keeps \<equiv> moves table_move"

lemma table_keepsI: "(\<And>d r d'. m d = (r, d') \<Longrightarrow> table_wf d \<Longrightarrow> table_step d d') \<Longrightarrow> table_keeps m"
  by (simp add: moves_def table_move_def)

lemma table_keepsD: "table_keeps m \<Longrightarrow> m d = (r, d') \<Longrightarrow> table_wf d \<Longrightarrow> table_step d d'"
  by (simp add: moves_def table_move_def)

interpretation table: table_relation table_move
  by unfold_locales (auto simp: table_move_def table_step_def intro: grows_trans)

text \<open>The second: an entry of which \<open>P\<close> holds stays in the table, and \<open>P\<close> goes on to hold of it.\<close>

definition has_entry :: "string \<Rightarrow> (ContainerEntry \<Rightarrow> bool) \<Rightarrow> Cloneboxd \<Rightarrow> bool" where
  "has_entry c P d \<longleftrightarrow> (\<exists>e. entry_of d c = Some e \<and> P e)"

definition entry_move :: "string \<Rightarrow> (ContainerEntry \<Rightarrow> bool) \<Rightarrow> Cloneboxd \<Rightarrow> Cloneboxd \<Rightarrow> bool" where
  "entry_move c P d d' \<longleftrightarrow> (has_entry c P d \<longrightarrow> has_entry c P d')"

interpretation entry: table_relation "entry_move c P" for c P
  by unfold_locales (auto simp: entry_move_def has_entry_def)

lemma table_keeps_table [tables]:
  "table_keeps (set_entry_state c st)" "table_keeps (remove_if_stopped c)" "table_keeps (insert_new c)"
  "table_keeps (daemon_wait c)"
  by (auto simp: set_entry_state_def remove_if_stopped_def table_set_state table_remove
      dest: table_insert_new table_wait intro!: table_keepsI split: option.splits if_splits)

lemmas handler_defs = daemon_create_def daemon_start_def daemon_state_def daemon_kill_def daemon_delete_def
  daemon_pause_def daemon_resume_def daemon_exec_def spawn_shim_def core_def reply_def

lemma table_keeps_daemon_create [tables]: "table_keeps (daemon_create K c cfg)"
  unfolding handler_defs by (intro tables)

lemma table_keeps_handle [tables]: "table_keeps (handle K req)"
  by (cases req) (simp_all only: handle.simps handler_defs, (intro tables)+)

lemma entry_keeps_table [tables]:
  "(c' = c \<Longrightarrow> \<forall>e. P e \<longrightarrow> P (e\<lparr>ce_state := st\<rparr>)) \<Longrightarrow> moves (entry_move c P) (set_entry_state c' st)"
  "(c' = c \<Longrightarrow> \<forall>e. P e \<longrightarrow> ce_state e \<noteq> Stopped) \<Longrightarrow> moves (entry_move c P) (remove_if_stopped c')"
  "moves (entry_move c P) (insert_new c')"
  "\<forall>e i. P e \<longrightarrow> P (e\<lparr>exit_waiter := exit_waiter e @ [i]\<rparr>) \<Longrightarrow> moves (entry_move c P) (daemon_wait c')"
  by (auto simp: moves_def entry_move_def has_entry_def set_entry_state_def remove_if_stopped_def insert_new_def
      daemon_wait_def Let_def split: option.splits if_splits)

text \<open>Which entries a request keeps.\<close>

lemma entry_keeps_handle:
  assumes "\<forall>e i. P e \<longrightarrow> P (e\<lparr>exit_waiter := exit_waiter e @ [i]\<rparr>)"
    and "\<And>st. st \<noteq> Stopped \<or> req = KillRequest c \<Longrightarrow> \<forall>e. P e \<longrightarrow> P (e\<lparr>ce_state := st\<rparr>)"
    and "\<And>force. req = DeleteRequest c force \<Longrightarrow> \<forall>e. P e \<longrightarrow> ce_state e \<noteq> Stopped"
  shows "moves (entry_move c P) (handle K req)"
  using assms by (cases req) (simp_all only: handle.simps handler_defs, (intro tables; simp)+)

section \<open>Runs of the daemon\<close>

text \<open>What holds of a state and is kept by each step holds along every run.\<close>

locale run_invariant =
  fixes step :: "'k \<Rightarrow> 's \<Rightarrow> 's \<Rightarrow> bool"
    and inv :: "'s \<Rightarrow> bool"
    and rel :: "'s \<Rightarrow> 's \<Rightarrow> bool"
  assumes step_inv: "step K s t \<Longrightarrow> inv s \<Longrightarrow> inv t"
    and step_rel: "step K s t \<Longrightarrow> inv s \<Longrightarrow> rel s t"
    and rel_refl: "inv s \<Longrightarrow> rel s s"
    and rel_trans: "rel s t \<Longrightarrow> rel t u \<Longrightarrow> rel s u"
begin

lemma run_inv: "(step K)\<^sup>*\<^sup>* s t \<Longrightarrow> inv s \<Longrightarrow> inv t"
  by (induction rule: rtranclp_induct) (auto intro: step_inv)

lemma run_rel: "(step K)\<^sup>*\<^sup>* s t \<Longrightarrow> inv s \<Longrightarrow> rel s t"
proof (induction rule: rtranclp_induct)
  case (step t u)
  then have "rel s t" "rel t u" by (auto intro: step_rel run_inv)
  then show ?case by (rule rel_trans)
qed (rule rel_refl)

end

lemma serve_step:
  assumes "serve K d d'" "table_wf d"
  shows "table_step d d'"
  using assms by (cases rule: serve.cases) (auto intro: table_keepsD [OF table_keeps_handle] table_event_line)

interpretation daemon_run: run_invariant serve table_wf table_step
proof unfold_locales
  fix K :: "'a daemon_kernel_scheme" and s t
  assume "serve K s t" "table_wf s"
  then show "table_step s t" by (rule serve_step)
  then show "table_wf t" by (simp add: table_step_def)
qed (auto intro: table_step_trans)

lemma table_or_insert:
  assumes "table_wf d"
  shows "table_step d (or_insert c (ContainerEntry_new st None []) d)"
proof (cases "entry_of d c")
  case None
  let ?d = "put_entry c (ContainerEntry_new st None []) d"
  have "created_of ?d = created_of d" "exit_of ?d = exit_of d"
    using None by (auto simp: created_of_def exit_of_def ContainerEntry_new_def fun_eq_iff)
  with None assms show ?thesis by (simp add: or_insert_def table_step_def table_wf_def)
next
  case (Some e)
  then show ?thesis using assms by (simp add: or_insert_def drop_entry_def ContainerEntry_new_def)
qed

lemma table_keeps_recover_entry [tables]: "table_keeps (recover_entry K app name)"
proof (rule table_keepsI)
  fix d r d'
  assume "recover_entry K app name d = (r, d')" "table_wf d"
  moreover have "table_wf d \<Longrightarrow> table_step d (or_insert c (ContainerEntry_new st None []) (d\<lparr>d_world := w\<rparr>))" for c st w
    using table_or_insert [of "d\<lparr>d_world := w\<rparr>"] by (simp add: table_step_def)
  ultimately show "table_step d d'"
    by (auto simp: recover_entry_def Let_def split: if_splits prod.splits sum.splits)
qed

lemma table_keeps_recover [tables]: "table_keeps (recover K app)"
  unfolding recover_def by (intro tables)

lemma table_new: "table_wf (Cloneboxd_new w)"
proof -
  have "created_of (Cloneboxd_new w) = (\<lambda>_. [])" "exit_of (Cloneboxd_new w) = (\<lambda>_. [])"
    by (simp_all add: created_of_def exit_of_def entry_of_def Cloneboxd_new_def fun_eq_iff)
  then show ?thesis by (simp add: table_wf_def fits_empty) (simp add: Cloneboxd_new_def fits_empty)
qed

lemma table_up: "table_keeps (daemon_up K)"
  unfolding daemon_up_def by (intro tables)

section \<open>No waiting request is lost\<close>

lemma create_reply_None: "create_reply i d = None \<longleftrightarrow> created_ch d ! i = Pending"
  by (simp add: create_reply_def split: chan.split)

lemma wait_reply_None: "wait_reply K i d = None \<longleftrightarrow> exit_ch d ! i = Pending"
  by (simp add: wait_reply_def split: chan.splits)

lemma fits_iff: "fits f chs \<Longrightarrow> i < length chs \<and> chs ! i = Pending \<longleftrightarrow> (\<exists>!c. i \<in> set (f c))"
  using fits_owner fits_pending by fast

lemma grows_settled: "grows chs chs' \<Longrightarrow> i < length chs \<Longrightarrow> chs ! i \<noteq> Pending \<Longrightarrow> chs' ! i = chs ! i"
  by (simp add: grows_def)

text \<open>
  No waiting request is lost or answered twice. At every moment of the daemon's life, after
  start-up and any interleaving of requests, events and changes by other processes, a \<open>create\<close>
  or \<open>wait\<close> request is still unanswered exactly when one entry of the table, and only one,
  holds its sender; and an answer once given does not change.
\<close>

theorem no_lost_waiter:
  assumes "daemon_up K (Cloneboxd_new w) = (Inr u, d0)" "(serve K)\<^sup>*\<^sup>* d0 d" "(serve K)\<^sup>*\<^sup>* d d'"
  shows "(i < length (created_ch d) \<and> create_reply i d = None \<longleftrightarrow> (\<exists>!c. i \<in> set (created_of d c))) \<and>
         (j < length (exit_ch d) \<and> wait_reply K j d = None \<longleftrightarrow> (\<exists>!c. j \<in> set (exit_of d c))) \<and>
         (i < length (created_ch d) \<and> create_reply i d \<noteq> None \<longrightarrow> create_reply i d' = create_reply i d) \<and>
         (j < length (exit_ch d) \<and> wait_reply K j d \<noteq> None \<longrightarrow> wait_reply K j d' = wait_reply K j d)"
proof -
  have "table_wf d0"
    using table_keepsD [OF table_up assms(1) table_new] by (simp add: table_step_def)
  with assms(2) have wf: "table_wf d" by (rule daemon_run.run_inv)
  with assms(3) have step: "table_step d d'" by (rule daemon_run.run_rel)
  have "i < length (created_ch d) \<Longrightarrow> create_reply i d \<noteq> None \<Longrightarrow> create_reply i d' = create_reply i d"
    and "j < length (exit_ch d) \<Longrightarrow> wait_reply K j d \<noteq> None \<Longrightarrow> wait_reply K j d' = wait_reply K j d"
    using step grows_settled [of "created_ch d" "created_ch d'" i] grows_settled [of "exit_ch d" "exit_ch d'" j]
    by (auto simp: table_step_def create_reply_def wait_reply_def split: chan.splits)
  moreover have "i < length (created_ch d) \<and> create_reply i d = None \<longleftrightarrow> (\<exists>!c. i \<in> set (created_of d c))"
    and "j < length (exit_ch d) \<and> wait_reply K j d = None \<longleftrightarrow> (\<exists>!c. j \<in> set (exit_of d c))"
    using wf fits_iff unfolding table_wf_def create_reply_None wait_reply_None by blast+
  ultimately show ?thesis by blast
qed

text \<open>
  C14. The effect of an event: on an entry of the table it sets the state; an event other than
  creating answers the request that waits for the creation, with success; a stopped event answers
  every request that waits for the exit, with the event's code or 0. Other entries, other
  requests and the world are left alone, and an event for an unknown id does nothing.
\<close>

theorem update_status_effect:
  assumes "table_wf d" "d' = update_status ev d" "c = e_id ev"
  shows "(\<forall>i \<in> set (created_of d c). create_reply i d' = (if e_state ev = Creating then None else Some (Inr ()))) \<and>
         (\<forall>i \<in> set (exit_of d c). wait_reply K i d' = (if e_state ev = Stopped then Some (Inr (exit_code_of ev)) else None)) \<and>
         (\<forall>i < length (created_ch d). i \<notin> set (created_of d c) \<longrightarrow> create_reply i d' = create_reply i d) \<and>
         (\<forall>i < length (exit_ch d). i \<notin> set (exit_of d c) \<longrightarrow> wait_reply K i d' = wait_reply K i d) \<and>
         map_option ce_state (entry_of d' c) = (if entry_of d c = None then None else Some (e_state ev)) \<and>
         (\<forall>c'. c' \<noteq> c \<longrightarrow> entry_of d' c' = entry_of d c') \<and> d_world d' = d_world d"
proof -
  note run = update_status_run [OF assms(2)]
  have "i < length (created_ch d) \<and> created_ch d ! i = Pending" if "i \<in> set (created_of d c)" for i
    using that assms(1) by (auto simp: table_wf_def dest: fits_pending)
  moreover have "i < length (exit_ch d) \<and> exit_ch d ! i = Pending" if "i \<in> set (exit_of d c)" for i
    using that assms(1) by (auto simp: table_wf_def dest: fits_pending)
  ultimately show ?thesis
    using run assms(3)
    by (auto simp: create_reply_def wait_reply_def nth_mark ContainerEntry_new_def split: option.splits)
qed

section \<open>wait\<close>

text \<open>The code that the first stopped event of a container carries, in a sequence of event lines.\<close>

fun first_exit :: "('k) event_kernel_scheme \<Rightarrow> string \<Rightarrow> string list \<Rightarrow> i32 option" where
  "first_exit K c [] = None"
| "first_exit K c (line # lines) =
     (case j_event_from_str K line of
        Inr ev \<Rightarrow> if e_id ev = c \<and> e_state ev = Stopped then Some (exit_code_of ev) else first_exit K c lines
      | Inl _ \<Rightarrow> first_exit K c lines)"

lemma event_conn_step: "table_wf d \<Longrightarrow> table_step d (event_conn K lines d)"
  unfolding event_conn_def
proof (induction lines arbitrary: d)
  case (Cons l ls)
  from table_event_line [OF Cons.prems, of K l] have 1: "table_step d (event_line K l d)" .
  then have "table_wf (event_line K l d)" by (simp add: table_step_def)
  from Cons.IH [OF this] 1 show ?case by (auto intro: table_step_trans)
qed simp

lemma wait_along:
  assumes "table_wf d" "i \<in> set (exit_of d c)"
  shows "wait_reply K i (event_conn K lines d) = map_option Inr (first_exit K c lines)"
  using assms
proof (induction lines arbitrary: d)
  case Nil
  then show ?case by (auto simp: event_conn_def wait_reply_None table_wf_def dest: fits_pending)
next
  case (Cons l ls)
  let ?d = "event_line K l d"
  have i: "i < length (exit_ch d)" "exit_ch d ! i = Pending"
    using Cons.prems by (auto simp: table_wf_def dest: fits_pending)
  have wf: "table_wf ?d" using table_event_line [OF Cons.prems(1), of K l] by (simp add: table_step_def)
  show ?case
  proof (cases "\<exists>ev. j_event_from_str K l = Inr ev \<and> e_id ev = c \<and> e_state ev = Stopped")
    case True
    then obtain ev where ev: "j_event_from_str K l = Inr ev" "e_id ev = c" "e_state ev = Stopped" by blast
    then have "exit_ch ?d ! i = Sent (exit_code_of ev)" "i < length (exit_ch ?d)"
      using update_status_run(3) [OF refl, of ev d] Cons.prems(2) i
      by (simp_all add: event_line_def nth_mark)
    moreover from this have "exit_ch (event_conn K ls ?d) ! i = exit_ch ?d ! i"
      using event_conn_step [OF wf, of K ls] grows_settled [of "exit_ch ?d"] by (simp add: table_step_def)
    ultimately show ?thesis using ev by (simp add: event_conn_def wait_reply_def)
  next
    case False
    then have "i \<in> set (exit_of ?d c)"
      using Cons.prems(2) update_status_run(1) [OF refl, of _ d]
      by (auto simp: event_line_def exit_of_def ContainerEntry_new_def split: sum.splits option.splits)
    from Cons.IH [OF wf this] False show ?thesis
      by (auto simp: event_conn_def split: sum.splits)
  qed
qed

lemma waits_along:
  assumes "table_wf d" "daemon_wait c d = (Inr i, d')"
  shows "wait_reply K i (event_conn K lines d') = map_option Inr (first_exit K c lines)"
proof -
  have "table_wf d'" using table_wait [OF assms] by (simp add: table_step_def)
  moreover have "i \<in> set (exit_of d' c)"
    using assms(2) by (auto simp: daemon_wait_def Let_def exit_of_def split: option.splits)
  ultimately show ?thesis by (rule wait_along)
qed

text \<open>One step of the daemon, for a request that waits: still pending, or how it is answered.\<close>

lemma exit_of_entry: "i \<in> set (exit_of d c) \<longleftrightarrow> has_entry c (\<lambda>e. i \<in> set (exit_waiter e)) d"
  by (cases "entry_of d c") (simp_all add: exit_of_def has_entry_def)

lemma delete_answers:
  assumes "table_wf d" "i \<in> set (exit_of d c)" "handle K (DeleteRequest c force) d = (r, d')"
  shows "i \<in> set (exit_of d' c) \<and> (r = Inr x \<longrightarrow> map_option ce_state (entry_of d c) \<noteq> Some Stopped) \<or>
    entry_of d' c = None \<and> wait_reply K' i d' = Some (Inl (Status Internal (k_closed_text K')))"
proof -
  obtain r1 d1 where core: "core K (delete K c force) d = (r1, d1)" by fastforce
  then have d1: "entry_of d1 = entry_of d" "exit_ch d1 = exit_ch d"
    by (auto simp: core_def map_err_def on_world_def Let_def split: prod.splits sum.splits)
  have i: "i < length (exit_ch d1)" using assms(1,2) d1(2) by (auto simp: table_wf_def dest: fits_pending)
  obtain e where e: "entry_of d c = Some e" "i \<in> set (exit_waiter e)"
    using assms(2) unfolding exit_of_entry has_entry_def by blast
  show ?thesis
  proof (cases r1)
    case (Inl s)
    with core assms(2,3) d1 show ?thesis
      by (auto simp: reply_def daemon_delete_def thenE_def bindE_def exit_of_def)
  next
    case (Inr u)
    with core assms(3) have d': "remove_if_stopped c d1 = (Inr (), d')"
      by (auto simp: reply_def daemon_delete_def thenE_def bindE_def ret_def remove_if_stopped_def)
    show ?thesis
    proof (cases "ce_state e = Stopped")
      case True
      with d' e d1 i show ?thesis
        by (auto simp: remove_if_stopped_def drop_entry_def wait_reply_def nth_mark)
    next
      case False
      with d' e d1 show ?thesis by (simp add: remove_if_stopped_def exit_of_def)
    qed
  qed
qed

lemma line_answers:
  assumes "table_wf d" "i \<in> set (exit_of d c)"
  shows "if \<exists>ev. j_event_from_str K line = Inr ev \<and> e_id ev = c \<and> e_state ev = Stopped
    then \<exists>ev. j_event_from_str K line = Inr ev \<and> e_id ev = c \<and> e_state ev = Stopped \<and>
      wait_reply K' i (event_line K line d) = Some (Inr (exit_code_of ev))
    else i \<in> set (exit_of (event_line K line d) c)"
proof -
  have i: "i < length (exit_ch d)" using assms by (auto simp: table_wf_def dest: fits_pending)
  show ?thesis
  proof (cases "\<exists>ev. j_event_from_str K line = Inr ev \<and> e_id ev = c \<and> e_state ev = Stopped")
    case True
    then show ?thesis using update_status_run(3) [OF refl, of _ d] assms(2) i
      by (auto simp: event_line_def nth_mark wait_reply_def)
  next
    case False
    then show ?thesis using update_status_run(1) [OF refl, of _ d] assms(2)
      by (auto simp: event_line_def exit_of_def ContainerEntry_new_def split: sum.splits option.splits)
  qed
qed

definition stopped_event :: "('k) event_kernel_scheme \<Rightarrow> string \<Rightarrow> string \<Rightarrow> i32 \<Rightarrow> bool" where
  "stopped_event K c line code \<longleftrightarrow>
     (\<exists>ev. j_event_from_str K line = Inr ev \<and> e_id ev = c \<and> e_state ev = Stopped \<and> code = exit_code_of ev)"

lemma wait_step:
  assumes "table_wf d" "i \<in> set (exit_of d c)" "serve K d d'"
  shows "i \<in> set (exit_of d' c) \<or>
    (\<exists>line code. d' = event_line K line d \<and> stopped_event K c line code \<and> wait_reply K i d' = Some (Inr code)) \<or>
    (\<exists>force r. handle K (DeleteRequest c force) d = (r, d') \<and> entry_of d' c = None \<and>
       wait_reply K i d' = Some (Inl (Status Internal (k_closed_text K))))"
  using assms(3)
proof cases
  case (request req r)
  show ?thesis
  proof (cases "\<exists>force. req = DeleteRequest c force")
    case True
    with request delete_answers [OF assms(1,2)] show ?thesis by blast
  next
    case False
    then have "moves (entry_move c (\<lambda>e. i \<in> set (exit_waiter e))) (handle K req)"
      by (intro entry_keeps_handle) auto
    from movesD [OF this request] assms(2) show ?thesis by (simp add: exit_of_entry entry_move_def)
  qed
next
  case (event line)
  show ?thesis
  proof (cases "\<exists>code. stopped_event K c line code")
    case True
    with line_answers [OF assms(1,2), of K line K] event show ?thesis
      unfolding stopped_event_def by (metis (lifting))
  next
    case False
    with line_answers [OF assms(1,2), of K line K] event show ?thesis
      unfolding stopped_event_def by (metis (lifting))
  qed
next
  case (others w)
  with assms(2) show ?thesis by (simp add: exit_of_def)
qed

lemma pending_holder:
  assumes "(serve K)\<^sup>*\<^sup>* d u" "table_wf d" "i \<in> set (exit_of d c)" "wait_reply K i u = None"
  shows "i \<in> set (exit_of u c)"
  using assms(1,4)
proof (induction rule: rtranclp_induct)
  case (step u v)
  have wf: "table_wf u" by (rule daemon_run.run_inv [OF step.hyps(1) assms(2)])
  have "table_step d u" by (rule daemon_run.run_rel [OF step.hyps(1) assms(2)])
  then have "i < length (exit_ch u)"
    using assms(2,3) by (auto simp: table_wf_def table_step_def grows_def dest!: fits_pending)
  then have "wait_reply K i u = None"
    using step.prems grows_settled [of "exit_ch u" "exit_ch v" i] serve_step [OF step.hyps(2) wf]
    by (auto simp: table_step_def wait_reply_def split: chan.splits)
  with step.IH have "i \<in> set (exit_of u c)" by blast
  from wait_step [OF wf this step.hyps(2)] step.prems show ?case by auto
qed (rule assms(3))

text \<open>
  C16. What answers \<open>wait\<close>. Take the daemon as it handles requests and event lines one at a time,
  in any order, after a \<open>wait\<close> for a container of its table. As long as the request is pending, only
  two things answer it: a stopped event of that container, with the event's code, and a delete
  request that removes the container's entry, with the error of a closed channel. Both always do:
  every stopped event of the container does, and so does every delete that succeeds while
  the entry says stopped. The state of the entry at the time of the request plays no part, so a
  \<open>wait\<close> for a container that has already stopped is pending until one of the two comes.
\<close>

theorem wait_answer:
  assumes "table_wf d" "daemon_wait c d = (Inr i, d')" "(serve K)\<^sup>*\<^sup>* d' u" "wait_reply K i u = None"
  shows "wait_reply K i d' = None \<and>
    (\<forall>v a. serve K u v \<and> wait_reply K i v = Some a \<longrightarrow>
       (\<exists>line code. v = event_line K line u \<and> stopped_event K c line code \<and> a = Inr code) \<or>
       (\<exists>force r. handle K (DeleteRequest c force) u = (r, v) \<and> entry_of v c = None \<and>
          a = Inl (Status Internal (k_closed_text K)))) \<and>
    (\<forall>line code. stopped_event K c line code \<longrightarrow> wait_reply K i (event_line K line u) = Some (Inr code)) \<and>
    (\<forall>force x v. handle K (DeleteRequest c force) u = (Inr x, v) \<and> map_option ce_state (entry_of u c) = Some Stopped \<longrightarrow>
       wait_reply K i v = Some (Inl (Status Internal (k_closed_text K))))"
proof -
  have wf': "table_wf d'" using table_wait [OF assms(1,2)] by (simp add: table_step_def)
  have i': "i \<in> set (exit_of d' c)"
    using assms(2) by (auto simp: daemon_wait_def Let_def exit_of_def split: option.splits)
  have wf: "table_wf u" by (rule daemon_run.run_inv [OF assms(3) wf'])
  have i: "i \<in> set (exit_of u c)" by (rule pending_holder [OF assms(3) wf' i' assms(4)])
  have pending: "wait_reply K i v = None" if "i \<in> set (exit_of v c)" "table_wf v" for v
    using that by (auto simp: wait_reply_None table_wf_def dest: fits_pending)
  have "a = Inr code" if "wait_reply K i v = Some a" "wait_reply K i v = Some (Inr code)" for v a code
    using that by simp
  have only: "(\<exists>line code. v = event_line K line u \<and> stopped_event K c line code \<and> a = Inr code) \<or>
      (\<exists>force r. handle K (DeleteRequest c force) u = (r, v) \<and> entry_of v c = None \<and>
         a = Inl (Status Internal (k_closed_text K)))" if "serve K u v" "wait_reply K i v = Some a" for v a
    using wait_step [OF wf i that(1)] that(2) pending [of v] serve_step [OF that(1) wf] by (auto simp: table_step_def)
  have event: "wait_reply K i (event_line K line u) = Some (Inr code)" if "stopped_event K c line code" for line code
    using line_answers [OF wf i, of K line K] that by (auto simp: stopped_event_def split: if_splits)
  have delete: "wait_reply K i v = Some (Inl (Status Internal (k_closed_text K)))"
    if "handle K (DeleteRequest c force) u = (Inr x, v)" "map_option ce_state (entry_of u c) = Some Stopped" for force x v
    using delete_answers [OF wf i that(1), of x K] that(2) by blast
  show ?thesis using pending [OF i' wf'] only event delete by blast
qed

section \<open>Requests and the state files\<close>

fun rpc_command :: "('k) daemon_kernel_scheme \<Rightarrow> string \<Rightarrow> command \<Rightarrow> unit rpc" where
  "rpc_command K c Start = daemon_start K c"
| "rpc_command K c Kill = daemon_kill K c"
| "rpc_command K c Pause = daemon_pause K c"
| "rpc_command K c Resume = daemon_resume K c"
| "rpc_command K c (Delete force) = daemon_delete K c force"

text \<open>What a command that succeeded does to the table.\<close>

fun table_after :: "command \<Rightarrow> string \<Rightarrow> unit rpc" where
  "table_after Start c = set_entry_state c Running"
| "table_after Kill c = set_entry_state c Stopped"
| "table_after Pause c = set_entry_state c Paused"
| "table_after Resume c = set_entry_state c Running"
| "table_after (Delete force) c = remove_if_stopped c"

lemma rpc_command_eq: "rpc_command K c cmd = thenE (core K (run_command K c cmd)) (table_after cmd c)"
  by (cases cmd) (simp_all add: handler_defs)

lemma core_run [comp_simps]:
  "m (d_world d) = (Inr x, w) \<Longrightarrow> core K m d = (Inr x, d\<lparr>d_world := w\<rparr>)"
  "m (d_world d) = (Inl e, w) \<Longrightarrow> core K m d = (Inl (map_stop (to_status K) e), d\<lparr>d_world := w\<rparr>)"
  by (simp_all add: core_def on_world_def map_err_def)

lemma table_after_run:
  "\<exists>d'. table_after cmd c d = (Inr (), d') \<and> d_world d' = d_world d \<and> (\<forall>c'. c' \<noteq> c \<longrightarrow> entry_of d' c' = entry_of d c')"
  by (cases cmd) (auto simp: set_entry_state_def remove_if_stopped_def drop_entry_def split: option.splits)

definition agrees :: "('k) state_kernel_scheme \<Rightarrow> Cloneboxd \<Rightarrow> string \<Rightarrow> bool" where
  "agrees K d c \<longleftrightarrow>
     entry_of d c = None \<or> map_option ce_state (entry_of d c) = map_option s_status (stored K (d_world d) c)"

lemma agrees_after:
  assumes "spec_step cmd (stored K (d_world d0) c) (stored K (d_world d) c)" "table_after cmd c d = (Inr u, d')"
    and "entry_of d = entry_of d0" "cmd \<noteq> Delete True" "cmd = Delete False \<Longrightarrow> agrees K d0 c"
  shows "agrees K d' c"
  using assms
  by (cases cmd) (auto simp: agrees_def set_entry_state_def remove_if_stopped_def drop_entry_def entry_of_def [symmetric]
      split: option.splits if_splits)

lemma delete_run:
  assumes "plain_id c" "state_codec K" "run_command K c (Delete force) w = (Inr u, w')" "\<not> force"
  shows "stored K w' c = None"
proof -
  have "store_ok K c" using assms(1,2) by (simp add: store_ok_def)
  from run_command_refines [OF this assms(3)] assms(4) show ?thesis by auto
qed

text \<open>
  C10. What a lifecycle request leaves in the table. A start, kill, pause or resume that succeeds
  leaves the container's entry, if it has one, with the status the state file has. A delete that
  succeeds does not set the entry: it removes it exactly when the table has it stopped and leaves
  it as it is otherwise; a plain delete has removed the state file then, so the entry agrees
  with it if it did before. When the runtime fails, the reply is that error's
  status and the table is untouched. No other container's entry or state file is touched.
\<close>

theorem rpc_agrees:
  assumes "plain_id c" "state_codec K" "rpc_command K c cmd d = (r, d')"
  shows "(r = Inr () \<and> (\<forall>force. cmd \<noteq> Delete force) \<longrightarrow> agrees K d' c) \<and>
         (\<forall>force. r = Inr () \<and> cmd = Delete force \<longrightarrow>
            entry_of d' c = (if map_option ce_state (entry_of d c) = Some Stopped then None else entry_of d c) \<and>
            (\<not> force \<longrightarrow> stored K (d_world d') c = None \<and> (agrees K d c \<longrightarrow> agrees K d' c))) \<and>
         (fst (run_command K c cmd (d_world d)) = Inl (Fail e) \<longrightarrow>
            r = Inl (Fail (to_status K e)) \<and> d' = d\<lparr>d_world := snd (run_command K c cmd (d_world d))\<rparr>) \<and>
         (c' \<noteq> c \<longrightarrow> entry_of d' c' = entry_of d c' \<and> stored K (d_world d') c' = stored K (d_world d) c')"
proof -
  obtain r0 w where run: "run_command K c cmd (d_world d) = (r0, w)" by fastforce
  have others: "c' \<noteq> c \<Longrightarrow> stored K w c' = stored K (d_world d) c'"
    using run_command_others [OF assms(1) _ run] .
  show ?thesis
  proof (cases r0)
    case (Inl s)
    with run assms(3) have "r = Inl (map_stop (to_status K) s)" "d' = d\<lparr>d_world := w\<rparr>"
      by (auto simp: rpc_command_eq comp_simps)
    with Inl run others show ?thesis by auto
  next
    case (Inr u)
    obtain d1 where d1: "table_after cmd c (d\<lparr>d_world := w\<rparr>) = (Inr (), d1)" "d_world d1 = w"
      "\<forall>c'. c' \<noteq> c \<longrightarrow> entry_of d1 c' = entry_of d c'"
      using table_after_run [of cmd c "d\<lparr>d_world := w\<rparr>"] by auto
    with Inr run assms(3) have d': "r = Inr ()" "d' = d1"
      by (auto simp: rpc_command_eq comp_simps)
    have "store_ok K c" using assms by (simp add: store_ok_def)
    from run_command_refines [OF this run [unfolded Inr]]
    have "spec_step cmd (stored K (d_world d) c) (stored K (d_world (d\<lparr>d_world := w\<rparr>)) c)" by simp
    from agrees_after [OF this d1(1)]
    have agree: "cmd \<noteq> Delete True \<Longrightarrow> (cmd = Delete False \<Longrightarrow> agrees K d c) \<Longrightarrow> agrees K d1 c" by simp
    have deleted: "entry_of d1 c = (if map_option ce_state (entry_of d c) = Some Stopped then None else entry_of d c)"
      if "cmd = Delete force" for force
      using d1(1) that by (auto simp: remove_if_stopped_def entry_of_def drop_entry_def delete_conv' split: option.splits if_splits)
    have gone: "stored K w c = None" if "cmd = Delete force" "\<not> force" for force
      by (rule delete_run [OF assms(1,2) run [unfolded Inr that(1)] that(2)])
    show ?thesis using d' d1 agree deleted gone Inr run others by auto
  qed
qed

section \<open>The supervisor's last event\<close>

lemma create_exists_run:
  assumes "plain_id c" "k_io K (Op_exists (get_bundle_path c)) w = None" "node_at w (bundle_comps c) \<noteq> None"
  shows "create K c cfg sp w = (Inl (Fail (ContainerAlreadyExists c)), log_op (Op_exists (get_bundle_path c)) True w)"
  using assms by (simp add: create_def path_exists_def fs_exists_def Let_def bindE_def comp_simps)

lemma send_event_run:
  assumes "event_codec K" "obliging K"
  obtains w' where "send_event K sk ev w = (Inr (), w')"
  using succeedsD [OF succeeds_notify [OF assms(2,1), of "Some sk" ev], of w] by (auto simp: notify_def)

text \<open>What the supervisor does after the \<open>create\<close> it wraps.\<close>

definition shim_after :: "('k) config_kernel_scheme \<Rightarrow> string \<Rightarrow> string \<Rightarrow> core_error + unit \<Rightarrow> (world, main_error, unit) comp" where
  "shim_after K c sk r =
     (case r of
        Inr _ \<Rightarrow> ret ()
      | Inl e \<Rightarrow>
          bindE (attempt (send_event K sk (Event_new c Stopped (Some (- 1)))))
            (\<lambda>r. case r of Inl _ \<Rightarrow> stop_with Panicked | Inr _ \<Rightarrow> throw (Main_core e)))"

lemma shim_main_eq: "shim_main K [prog, c, cfg, sk] = bindE (attempt (create K c cfg (Some sk))) (shim_after K c sk)"
  by (simp add: shim_main_def shim_after_def [abs_def])

lemma shim_after_failed:
  "shim_after K c sk r w = (Inl (Fail (Main_core e)), w') \<longleftrightarrow>
     r = Inl e \<and> send_event K sk (Event_new c Stopped (Some (- 1))) w = (Inr (), w')"
proof (cases r)
  case (Inl x)
  obtain rs ws where send: "send_event K sk (Event_new c Stopped (Some (- 1))) w = (rs, ws)" by fastforce
  show ?thesis
  proof (cases rs)
    case (Inl s)
    then show ?thesis
      using send \<open>r = Inl x\<close> by (cases s) (simp_all add: shim_after_def bindE_def attempt_def comp_simps)
  next
    case (Inr u)
    then show ?thesis
      using send \<open>r = Inl x\<close> by (simp add: shim_after_def bindE_def attempt_def comp_simps)
  qed
qed (simp add: shim_after_def comp_simps)

lemma attempt_stop: "attempt m w = (Inl (Fail e), w') \<longleftrightarrow> False"
  by (simp add: attempt_def split: prod.splits sum.splits stop.splits)

lemma shim_main_failed:
  assumes "event_codec K" "shim_main K [prog, c, cfg, sk] w = (Inl (Fail (Main_core e)), w')"
  obtains w1 t where "create K c cfg (Some sk) w = (Inl (Fail e), w1)"
    "sent w' = sent w1 @ [Op_stream_write sk (t @ newline)]"
    "j_event_from_str K t = Inr (Event_new c Stopped (Some (- 1)))"
proof -
  from assms(2) obtain w1 where 1: "create K c cfg (Some sk) w = (Inl (Fail e), w1)"
    and "send_event K sk (Event_new c Stopped (Some (- 1))) w1 = (Inr (), w')"
    by (auto simp: shim_main_eq bindE_stop attempt_stop attempt_ok shim_after_failed)
  then have "notify K (Some sk) (Event_new c Stopped (Some (- 1))) w1 = (Inr (), w')" by (simp add: notify_def)
  from notify_sent [OF assms(1) this] 1 that show ?thesis by blast
qed

lemma stopped_line:
  assumes "j_event_from_str K t = Inr (Event_new c Stopped (Some code))"
  shows "entry_of d c = Some e \<Longrightarrow> entry_of (event_line K t d) c = Some (ContainerEntry_new Stopped None [])"
    and "table_wf d \<Longrightarrow> i \<in> set (created_of d c) \<Longrightarrow> create_reply i (event_line K t d) = Some (Inr ())"
    and "table_wf d \<Longrightarrow> j \<in> set (exit_of d c) \<Longrightarrow> wait_reply K' j (event_line K t d) = Some (Inr code)"
  using assms update_status_run [OF refl, of "Event_new c Stopped (Some code)" d]
  by (auto simp: event_line_def Event_new_def exit_code_of_def create_reply_def wait_reply_def nth_mark table_wf_def
      dest: fits_pending)

text \<open>
  C30. A creation that fails is reported as a success: whatever error ends \<open>create\<close> in the
  supervisor, the last thing it sends is a stopped event with code -1, and when the daemon reads
  that line, the \<open>create\<close> request that waits for the container is answered with success.
\<close>

theorem failed_creation_reported_ok:
  assumes "event_codec K" "shim_main K [prog, c, cfg, sk] w = (Inl (Fail (Main_core e)), w')"
  shows "\<exists>w1 t. create K c cfg (Some sk) w = (Inl (Fail e), w1) \<and>
           sent w' = sent w1 @ [Op_stream_write sk (t @ newline)] \<and>
           (\<forall>d i. table_wf d \<and> i \<in> set (created_of d c) \<longrightarrow> create_reply i (event_line K t d) = Some (Inr ()))"
  by (rule shim_main_failed [OF assms]) (blast intro: stopped_line)

lemma daemon_create_ok:
  assumes "daemon_create K c cfg d = (Inr i, d')"
  obtains d1 where "insert_new c d = (Inr i, d1)" "d' = d1\<lparr>d_world := d_world d'\<rparr>"
    "node_at (d_world d') = node_at (d_world d1)"
proof -
  have "shim_path K d0 = (r, d1) \<Longrightarrow> d1 = d0" for d0 r d1
    by (auto simp: shim_path_def beside_exe_def comp_simps split: option.splits sum.splits list.splits)
  then obtain path d1 where d1: "insert_new c d = (Inr i, d1)" and "spawn_shim K path c cfg d1 = (Inr (), d')"
    using assms by (fastforce simp: daemon_create_def comp_ok comp_simps)
  from this(2) have "d' = d1\<lparr>d_world := d_world d'\<rparr>" "node_at (d_world d') = node_at (d_world d1)"
    by (auto simp: spawn_shim_def map_err_ok on_world_def Let_def io_call_ok split: prod.splits)
  then show ?thesis by (rule that [OF d1])
qed

lemma daemon_create_known:
  assumes "entry_of d c = Some e" "daemon_create K c cfg d = (Inr i, d')"
  shows "create_reply i d' = Some (Inl (Status Internal ''container creation failed''))"
    and "entry_of d' = entry_of d" "node_at (d_world d') = node_at (d_world d)" "exit_ch d' = exit_ch d"
proof -
  obtain d1 where d1: "insert_new c d = (Inr i, d1)"
    and d': "d' = d1\<lparr>d_world := d_world d'\<rparr>" "node_at (d_world d') = node_at (d_world d1)"
    by (rule daemon_create_ok [OF assms(2)])
  have c: "create_reply i d' = create_reply i d1" "entry_of d' = entry_of d1" "exit_ch d' = exit_ch d1"
    by (subst d'(1), simp add: create_reply_def)+
  have "i = length (created_ch d)" "created_ch d1 = created_ch d @ [Dropped]" "entry_of d1 = entry_of d"
    "d_world d1 = d_world d" "exit_ch d1 = exit_ch d"
    using assms(1) d1
    by (auto simp: insert_new_def Let_def drop_entry_def ContainerEntry_new_def mark_last entry_of_def)
  with c d'(2) show "create_reply i d' = Some (Inl (Status Internal ''container creation failed''))"
    "entry_of d' = entry_of d" "node_at (d_world d') = node_at (d_world d)" "exit_ch d' = exit_ch d"
    by (simp_all add: create_reply_def)
qed

text \<open>
  C31. Creating a container whose id the daemon already knows disturbs the one that has it. On a
  kernel that fails no call, the request itself is answered with an error, and the supervisor it
  spawned finds the bundle and changes no file; but the stopped event it sends makes the daemon
  take the running container for stopped and answer everyone who waits for its exit with -1.
\<close>

theorem duplicate_create_disturbs:
  assumes "plain_id c" "event_codec K" "obliging K" "table_wf d" "entry_of d c = Some e"
    and "node_at (d_world d) (bundle_comps c) = Some Dir" "daemon_create K c cfg d = (Inr i, d')"
  shows "create_reply i d' = Some (Inl (Status Internal ''container creation failed'')) \<and>
    (\<exists>w' t. shim_main K [prog, c, cfg, get_event_socket_path] (d_world d') =
              (Inl (Fail (Main_core (ContainerAlreadyExists c))), w') \<and>
            node_at w' = node_at (d_world d) \<and>
            sent w' = sent (d_world d') @ [Op_stream_write get_event_socket_path (t @ newline)] \<and>
            entry_of (event_line K t d') c = Some (ContainerEntry_new Stopped None []) \<and>
            (\<forall>j \<in> set (exit_of d c). wait_reply K j (event_line K t d') = Some (Inr (- 1))))"
proof -
  note known = daemon_create_known [OF assms(5,7)]
  let ?sk = get_event_socket_path and ?ev = "Event_new c Stopped (Some (- 1))"
  let ?w1 = "log_op (Op_exists (get_bundle_path c)) True (d_world d')"
  have cr: "create K c cfg (Some ?sk) (d_world d') = (Inl (Fail (ContainerAlreadyExists c)), ?w1)"
    using assms(1,3,6) known(3) by (intro create_exists_run) (simp_all add: obliging_def)
  obtain w' where w': "send_event K ?sk ?ev ?w1 = (Inr (), w')"
    by (rule send_event_run [OF assms(2,3)])
  from cr w' have shim: "shim_main K [prog, c, cfg, ?sk] (d_world d') = (Inl (Fail (Main_core (ContainerAlreadyExists c))), w')"
    by (auto simp: shim_main_eq bindE_stop attempt_ok shim_after_failed)
  have nodes: "node_at w' q = node_at (d_world d) q" for q
    using keepsD [OF keeps_send_event [of UNIV] w', of q] known(3) by simp
  from w' have "notify K (Some ?sk) ?ev ?w1 = (Inr (), w')" by (simp add: notify_def)
  from notify_sent [OF assms(2) this] obtain t where t: "sent w' = sent ?w1 @ [Op_stream_write ?sk (t @ newline)]"
    "j_event_from_str K t = Inr ?ev" by blast
  have "table_wf d'"
    using table_keepsD [OF table_keeps_daemon_create assms(7,4)] by (simp add: table_step_def)
  moreover have "exit_of d' c = exit_of d c" using known(2) by (simp add: exit_of_def)
  ultimately have "\<forall>j \<in> set (exit_of d c). wait_reply K j (event_line K t d') = Some (Inr (- 1))"
    using stopped_line(3) [OF t(2), of d' _ K] by simp
  moreover have "entry_of (event_line K t d') c = Some (ContainerEntry_new Stopped None [])"
    using stopped_line(1) [OF t(2)] known(2) assms(5) by simp
  moreover have "sent ?w1 = sent (d_world d')" by (simp add: sent_def)
  ultimately show ?thesis
    using known(1) shim nodes t(1) by (auto simp: fun_eq_iff)
qed

section \<open>Recovery\<close>

lemma plain_show_int: "plain_id (show_int p)"
proof -
  have "of_char x \<in> {48..57 :: nat} \<or> x = CHR ''-''" if "x \<in> set (show_int p)" for x
    using that show_nat_digits by (auto simp: show_int_def split: if_splits)
  then have "CHR ''.'' \<notin> set (show_int p)" by fastforce
  moreover have "show_int p \<noteq> []" using show_nat_nonempty by (simp add: show_int_def)
  ultimately show ?thesis
    using slash_not_in_show_int [of p] by (auto simp: plain_id_def)
qed

lemma norm_proc: "norm_path cwd (''/proc/'' @ show_int p) = [''proc'', show_int p]"
  using plain_show_int [of p] by (simp add: norm_path_def split_on_no_sep plain_id_def)

text \<open>The status the daemon gives to a container it finds; \<open>alive\<close> are the running processes.\<close>

definition status_found :: "(i32 \<Rightarrow> bool) \<Rightarrow> State \<Rightarrow> container_state" where
  "status_found alive s =
     (case s_pid s of
        Some p \<Rightarrow> if alive p then s_status s else Stopped
      | None \<Rightarrow> if s_status s = Running then Stopped else s_status s)"

definition processes :: "('k) kernel_scheme \<Rightarrow> (i32 \<Rightarrow> bool) \<Rightarrow> bool" where
  "processes K alive \<longleftrightarrow> (\<forall>p w. k_pseudo_exists K [''proc'', show_int (sint p)] w = alive p)"

lemma recovered_state_run:
  assumes "obliging K" "processes K alive" "recovered_state K s w = (s', w')"
  shows "s_status s' = status_found alive s \<and> files w' = files w"
  using assms norm_proc [of "k_cwd K"]
  by (auto simp: recovered_state_def fs_exists_def Let_def status_found_def set_state_def obliging_def processes_def
      is_pseudo_def split: option.splits if_splits)

text \<open>What the recovery should find for an id, in a world.\<close>

definition found :: "('k) state_kernel_scheme \<Rightarrow> (i32 \<Rightarrow> bool) \<Rightarrow> world \<Rightarrow> string \<Rightarrow> ContainerEntry option" where
  "found K alive w n =
     (if node_at w (bundle_comps n) = Some Dir
      then map_option (\<lambda>s. ContainerEntry_new (status_found alive s) None []) (stored K w n) else None)"

lemma files_node_at: "files w = files w' \<Longrightarrow> node_at w = node_at w'"
  by (simp add: node_at_def fun_eq_iff)

lemma found_cong: "files w = files w' \<Longrightarrow> found K alive w n = found K alive w' n"
  using stored_cong [of w n w' K] files_node_at [of w w'] by (simp add: found_def)

lemma or_insert_entry:
  "entry_of (or_insert c e d) = (case entry_of d c of None \<Rightarrow> (entry_of d)(c \<mapsto> e) | Some _ \<Rightarrow> entry_of d)"
  by (simp add: or_insert_def split: option.split)

lemma or_insert_world: "d_world (or_insert c e d) = d_world d"
  by (simp add: or_insert_def drop_entry_def split: option.split)

lemma app_paths: "app_data_path @ ''/'' @ n = get_bundle_path n" "app_data_path @ ''/'' @ n @ ''/state.json'' = get_state_path n"
  by (simp_all add: app_data_path_def get_bundle_path_def get_state_path_def)

lemma read_files: "fs_read_to_string K p w = (r, w') \<Longrightarrow> files w' = files w"
  by (auto simp: fs_read_to_string_def Let_def bindE_def io_call_def comp_simps split: option.splits node.splits if_splits)

lemma recover_entry_run:
  assumes "obliging K" "processes K alive" "\<And>n w. \<not> k_dir_error K n w"
  shows "\<exists>d'. recover_entry K app_data_path m d = (Inr (), d') \<and> files (d_world d') = files (d_world d) \<and>
    (\<forall>n. plain_id n \<longrightarrow> entry_of d' n =
       (if n = m \<and> entry_of d n = None then found K alive (d_world d) n else entry_of d n))"
proof -
  obtain r w1 where rd: "fs_read_to_string K (get_state_path m) (d_world d) = (r, w1)" by fastforce
  note f1 = read_files [OF rd]
  have plain: "r = Inr t \<Longrightarrow> node_at (d_world d) (state_comps m) = Some (File t)" if "plain_id m" for t
    using fs_read_to_string_ok rd that by fastforce
  have fail: "r = Inl x \<Longrightarrow> stored K (d_world d) m = None" if "plain_id m" for x
    using rd that assms(1)
    by (auto simp: fs_read_to_string_def Let_def stored_def obliging_def bindE_def comp_simps
        split: option.splits node.splits)
  have dir: "plain_id m \<Longrightarrow> node_at (d_world d) (norm_path (k_cwd K) (get_bundle_path m)) = node_at (d_world d) (bundle_comps m)"
    by simp
  note entry = recover_entry_def [of K app_data_path m d, unfolded app_paths(2), unfolded app_paths(1)]
  show ?thesis
  proof (cases "\<exists>t st. r = Inr t \<and> j_state_from_str K t = Inr st \<and>
      node_at (d_world d) (norm_path (k_cwd K) (get_bundle_path m)) = Some Dir")
    case False
    then have "recover_entry K app_data_path m d = (Inr (), d) \<or> recover_entry K app_data_path m d = (Inr (), d\<lparr>d_world := w1\<rparr>)"
      using rd assms(3) by (auto simp: entry split: sum.splits)
    moreover have "plain_id m \<Longrightarrow> found K alive (d_world d) m = None"
      using False dir plain fail by (cases r) (auto simp: found_def stored_def split: option.splits node.splits sum.splits)
    ultimately show ?thesis using f1 by auto
  next
    case True
    then obtain t st where t: "r = Inr t" "j_state_from_str K t = Inr st"
      "node_at (d_world d) (norm_path (k_cwd K) (get_bundle_path m)) = Some Dir" by blast
    obtain st' w2 where w2: "recovered_state K st w1 = (st', w2)" by fastforce
    from recovered_state_run [OF assms(1,2) w2] f1 have st': "s_status st' = status_found alive st" "files w2 = files (d_world d)"
      by simp_all
    have "recover_entry K app_data_path m d =
        (Inr (), or_insert m (ContainerEntry_new (status_found alive st) None []) (d\<lparr>d_world := w2\<rparr>))"
      using rd t assms(3) w2 st'(1) by (simp add: entry)
    moreover have "plain_id m \<Longrightarrow>
        found K alive (d_world d) m = Some (ContainerEntry_new (status_found alive st) None [])"
      using t dir plain by (simp add: found_def stored_def)
    ultimately show ?thesis
      using st'(2) by (auto simp: or_insert_entry or_insert_world split: option.splits)
  qed
qed

lemma recover_loop_run:
  assumes "obliging K" "processes K alive" "\<And>n w. \<not> k_dir_error K n w"
  shows "\<exists>d'. for_each names (recover_entry K app_data_path) d = (Inr (), d') \<and> files (d_world d') = files (d_world d) \<and>
    (\<forall>n. plain_id n \<longrightarrow> entry_of d' n =
       (if n \<in> set names \<and> entry_of d n = None then found K alive (d_world d) n else entry_of d n))"
proof (induction names arbitrary: d)
  case Nil
  then show ?case by (simp add: comp_simps)
next
  case (Cons m names)
  obtain d1 where d1: "recover_entry K app_data_path m d = (Inr (), d1)" "files (d_world d1) = files (d_world d)"
    "\<And>n. plain_id n \<Longrightarrow> entry_of d1 n =
       (if n = m \<and> entry_of d n = None then found K alive (d_world d) n else entry_of d n)"
    using recover_entry_run [OF assms, of m d] by blast
  obtain d' where d': "for_each names (recover_entry K app_data_path) d1 = (Inr (), d')"
    "files (d_world d') = files (d_world d1)"
    "\<And>n. plain_id n \<Longrightarrow> entry_of d' n =
       (if n \<in> set names \<and> entry_of d1 n = None then found K alive (d_world d1) n else entry_of d1 n)"
    using Cons.IH [of d1] by blast
  have "found K alive (d_world d1) n = found K alive (d_world d) n" for n
    by (rule found_cong) (rule d1(2))
  with d1 d' show ?case by (auto simp: comp_simps)
qed

lemma read_dir_run:
  assumes "obliging K" "orders K" "node_at w [''run'', ''clonebox''] = Some Dir"
  shows "\<exists>names w'. fs_read_dir K app_data_path w = (Inr names, w') \<and> files w' = files w \<and>
    (\<forall>n. node_at w (bundle_comps n) \<noteq> None \<longrightarrow> n \<in> set names)"
proof -
  have q: "norm_path (k_cwd K) app_data_path = [''run'', ''clonebox'']"
    by (simp add: norm_path_def app_data_path_def)
  define names where
    "names = k_order K (remdups (map last (filter (\<lambda>k. k \<noteq> [] \<and> butlast k = [''run'', ''clonebox'']) (map fst (files w))))) w"
  have "n \<in> set names" if "node_at w (bundle_comps n) \<noteq> None" for n
  proof -
    have in_dir: "bundle_comps n \<noteq> []" "butlast (bundle_comps n) = [''run'', ''clonebox'']" "last (bundle_comps n) = n"
      by (simp_all add: bundle_comps_def)
    from that have "bundle_comps n \<in> set (map fst (files w))"
      by (auto simp: node_at_def map_of_eq_None_iff)
    with in_dir(1,2) have "bundle_comps n \<in> set (filter (\<lambda>k. k \<noteq> [] \<and> butlast k = [''run'', ''clonebox'']) (map fst (files w)))"
      by simp
    from imageI [OF this, of last] show ?thesis
      unfolding names_def in_dir(3) set_order [OF assms(2)] by simp
  qed
  moreover have "k_io K (Op_read_dir app_data_path) w = None" using assms(1) by (simp add: obliging_def)
  then have "fs_read_dir K app_data_path w = (Inr names, log_op (Op_read_dir app_data_path) True w)"
    unfolding fs_read_dir_def Let_def q using assms(3)
    by (subst bindE_run(1) [OF io_call_run(1)]) (simp_all add: ret_def is_dir_def names_def)
  moreover have "files (log_op (Op_read_dir app_data_path) True w) = files w" by simp
  ultimately show ?thesis by blast
qed

text \<open>
  Recovery at start-up finds every container: on a kernel that fails no call, the table has
  an entry exactly for the directories under \<open>/run/clonebox\<close> whose state file parses, with the
  stored status, except that a status with a pid whose process is gone, or running without a pid,
  becomes stopped. No file is changed, so the state files keep the stale status.
\<close>

theorem recover_table:
  assumes "obliging K" "processes K alive" "\<And>n w. \<not> k_dir_error K n w"
    and "orders K" "node_at w [''run'', ''clonebox''] = Some Dir" "plain_id n"
  shows "\<exists>d. recover K app_data_path (Cloneboxd_new w) = (Inr (), d) \<and> node_at (d_world d) = node_at w \<and>
    entry_of d n =
      (if node_at w (bundle_comps n) = Some Dir
       then map_option (\<lambda>s. ContainerEntry_new (status_found alive s) None []) (stored K w n) else None)"
proof -
  obtain names w1 where nm: "fs_read_dir K app_data_path w = (Inr names, w1)" "files w1 = files w"
    "\<And>n. node_at w (bundle_comps n) \<noteq> None \<Longrightarrow> n \<in> set names"
    using read_dir_run [OF assms(1,4,5)] by blast
  obtain d where d: "for_each names (recover_entry K app_data_path) (Cloneboxd_new w1) = (Inr (), d)"
    "files (d_world d) = files (d_world (Cloneboxd_new w1))"
    "entry_of d n = (if n \<in> set names \<and> entry_of (Cloneboxd_new w1) n = None
       then found K alive (d_world (Cloneboxd_new w1)) n else entry_of (Cloneboxd_new w1) n)"
    using recover_loop_run [OF assms(1-3)] assms(6) by blast
  have "on_world (fs_read_dir K app_data_path) (Cloneboxd_new w) = (Inr names, Cloneboxd_new w1)"
    using nm(1) by (simp add: on_world_def Cloneboxd_new_def)
  with d(1) have "recover K app_data_path (Cloneboxd_new w) = (Inr (), d)"
    by (simp add: recover_def comp_simps)
  moreover have "node_at (d_world d) = node_at w"
    using d(2) nm(2) by (intro files_node_at) (simp add: Cloneboxd_new_def)
  moreover have "entry_of d n = found K alive w n"
    using d(3) nm(3) [of n] found_cong [OF nm(2), of K alive n]
    by (auto simp: Cloneboxd_new_def entry_of_def found_def)
  ultimately show ?thesis by (simp add: found_def)
qed

end
