(* ===== verification/System.thy ===== *)
theory System
  imports Service
begin

text \<open>
  The daemon and a supervisor together: what the daemon makes of the lines that a whole
  \<open>create\<close> sends, in whatever order its connection tasks get to read them, and what
  \<open>list\<close> reports.
\<close>

section \<open>A sequence of event lines\<close>

definition about :: "('k) event_kernel_scheme \<Rightarrow> string \<Rightarrow> string \<Rightarrow> Event option" where
  "about K c line =
     (case j_event_from_str K line of Inr ev \<Rightarrow> if e_id ev = c then Some ev else None | Inl _ \<Rightarrow> None)"

fun last_state :: "('k) event_kernel_scheme \<Rightarrow> string \<Rightarrow> container_state \<Rightarrow> string list \<Rightarrow> container_state" where
  "last_state K c st [] = st"
| "last_state K c st (line # lines) =
     last_state K c (case about K c line of Some ev \<Rightarrow> e_state ev | None \<Rightarrow> st) lines"

definition woken :: "('k) event_kernel_scheme \<Rightarrow> string \<Rightarrow> string list \<Rightarrow> bool" where
  "woken K c = list_ex (\<lambda>line. case about K c line of Some ev \<Rightarrow> e_state ev \<noteq> Creating | None \<Rightarrow> False)"

lemma event_conn_Cons: "event_conn K (line # lines) d = event_conn K lines (event_line K line d)"
  by (simp add: event_conn_def)

lemma entry_after_line:
  assumes "entry_of d c = Some e"
  shows "entry_of (event_line K l d) c = Some (case about K c l of None \<Rightarrow> e
     | Some ev \<Rightarrow> ContainerEntry_new (e_state ev) (if e_state ev = Creating then created_waiter e else None)
         (if e_state ev = Stopped then [] else exit_waiter e))"
proof (cases "j_event_from_str K l")
  case (Inr ev)
  then show ?thesis using assms update_status_run(1) [OF refl, of ev d]
    by (cases "e_id ev = c") (simp_all add: event_line_def about_def split: option.split)
qed (simp add: assms event_line_def about_def)

lemma state_along:
  "entry_of d c = Some e \<Longrightarrow>
   map_option ce_state (entry_of (event_conn K lines d) c) = Some (last_state K c (ce_state e) lines)"
proof (induction lines arbitrary: d e)
  case (Cons l ls)
  from Cons.IH [OF entry_after_line [OF Cons.prems, of K l]] show ?case
    by (cases "about K c l") (simp_all add: event_conn_Cons ContainerEntry_new_def)
qed (simp add: event_conn_def)

lemma created_along:
  assumes "table_wf d" "i \<in> set (created_of d c)"
  shows "create_reply i (event_conn K lines d) = (if woken K c lines then Some (Inr ()) else None)"
  using assms
proof (induction lines arbitrary: d)
  case Nil
  then show ?case by (auto simp: event_conn_def woken_def create_reply_None table_wf_def dest: fits_pending)
next
  case (Cons l ls)
  let ?d = "event_line K l d"
  have i: "i < length (created_ch d)" "created_ch d ! i = Pending"
    using Cons.prems by (auto simp: table_wf_def dest: fits_pending)
  have wf: "table_wf ?d" using table_event_line [OF Cons.prems(1), of K l] by (simp add: table_step_def)
  show ?case
  proof (cases "\<exists>ev. about K c l = Some ev \<and> e_state ev \<noteq> Creating")
    case True
    then obtain ev where ev: "j_event_from_str K l = Inr ev" "e_id ev = c" "e_state ev \<noteq> Creating"
      by (auto simp: about_def split: sum.splits if_splits)
    then have "created_ch ?d ! i = Sent ()" "i < length (created_ch ?d)"
      using update_status_run(2) [OF refl, of ev d] Cons.prems(2) i by (simp_all add: event_line_def nth_mark)
    moreover from this have "created_ch (event_conn K ls ?d) ! i = created_ch ?d ! i"
      using event_conn_step [OF wf, of K ls] grows_settled [of "created_ch ?d"] by (simp add: table_step_def)
    ultimately show ?thesis using True by (auto simp: event_conn_Cons create_reply_def woken_def)
  next
    case False
    obtain e where e: "entry_of d c = Some e" "created_waiter e = Some i"
      using Cons.prems(2) by (cases "entry_of d c") (auto simp: created_of_def split: option.splits)
    have "i \<in> set (created_of ?d c)"
      using entry_after_line [OF e(1), of K l] e(2) False
      by (auto simp: created_of_def ContainerEntry_new_def split: option.splits)
    from Cons.IH [OF wf this] False show ?thesis
      by (auto simp: event_conn_Cons woken_def split: option.splits)
  qed
qed

lemma last_state_last:
  "lines \<noteq> [] \<Longrightarrow> \<forall>l \<in> set lines. about K c l \<noteq> None \<Longrightarrow>
   last_state K c st lines = e_state (the (about K c (last lines)))"
  by (induction lines arbitrary: st) auto

lemma first_exit_set:
  assumes "l \<in> set lines" "about K c l = Some ev" "e_state ev = Stopped"
    and "\<And>l' ev'. l' \<in> set lines \<Longrightarrow> about K c l' = Some ev' \<Longrightarrow> e_state ev' = Stopped \<Longrightarrow> exit_code_of ev' = code"
  shows "first_exit K c lines = Some code"
  using assms
proof (induction lines)
  case (Cons x xs)
  show ?case
  proof (cases "\<exists>ev'. about K c x = Some ev' \<and> e_state ev' = Stopped")
    case True
    then show ?thesis using Cons.prems(4) [of x] by (auto simp: about_def split: sum.splits if_splits)
  next
    case False
    with Cons show ?thesis by (auto simp: about_def split: sum.splits if_splits)
  qed
qed simp

section \<open>A creation\<close>

lemma daemon_create_unknown:
  assumes "entry_of d c = None" "daemon_create K c cfg d = (Inr i, d')"
  shows "entry_of d' = (entry_of d)(c \<mapsto> ContainerEntry_new Creating (Some i) [])"
proof -
  obtain d1 where d1: "insert_new c d = (Inr i, d1)" and d': "d' = d1\<lparr>d_world := d_world d'\<rparr>"
    by (rule daemon_create_ok [OF assms(2)])
  have "entry_of d' = entry_of d1" by (subst d') simp
  with d1 assms(1) show ?thesis by (auto simp: insert_new_def Let_def)
qed

lemma shim_after_ok: "shim_after K c sk r w = (Inr u, w') \<longleftrightarrow> r = Inr () \<and> w' = w"
proof (cases r)
  case (Inl e)
  obtain q w1 where "send_event K sk (Event_new c Stopped (Some (- 1))) w = (q, w1)" by fastforce
  with Inl show ?thesis
    by (simp add: shim_after_def bindE_def attempt_def comp_simps split: sum.splits stop.splits)
qed (auto simp: shim_after_def comp_simps)

lemma shim_main_ok:
  "shim_main K [prog, c, cfg, sk] w = (Inr u, w') \<Longrightarrow> create K c cfg (Some sk) w = (Inr (), w')"
  by (auto simp: shim_main_eq comp_ok attempt_ok shim_after_ok)

text \<open>The three lines of a creation, in any order and any number of times.\<close>

lemma any_order:
  assumes "table_wf d" "entry_of d c = Some (ContainerEntry_new Creating (Some i) [])"
    and about: "about K c t1 = Some \<lparr>e_id = c, e_state = Creating, e_exit_code = Some 0\<rparr>"
      "about K c t2 = Some \<lparr>e_id = c, e_state = Created, e_exit_code = Some 0\<rparr>"
      "about K c t3 = Some \<lparr>e_id = c, e_state = Stopped, e_exit_code = Some code\<rparr>"
    and lines: "set lines = {t1, t2, t3}"
  shows "create_reply i (event_conn K lines d) = Some (Inr ())"
    and "daemon_wait c d = (Inr j, d2) \<Longrightarrow> wait_reply K j (event_conn K lines d2) = Some (Inr code)"
    and "map_option ce_state (entry_of (event_conn K lines d) c) =
      Some (if last lines = t3 then Stopped else if last lines = t2 then Created else Creating)"
proof -
  have "i \<in> set (created_of d c)" using assms(2) by (simp add: created_of_def ContainerEntry_new_def)
  from created_along [OF assms(1) this, of K lines] show "create_reply i (event_conn K lines d) = Some (Inr ())"
    using about lines by (auto simp: woken_def list_ex_iff)
  have exit: "first_exit K c lines = Some code"
    using lines about by (intro first_exit_set [of t3]) (auto simp: exit_code_of_def)
  show "wait_reply K j (event_conn K lines d2) = Some (Inr code)" if "daemon_wait c d = (Inr j, d2)"
    using waits_along [OF assms(1) that, of K lines] exit by simp
  have ne: "lines \<noteq> []" using lines by auto
  from last_in_set [OF this] lines have "last lines \<in> {t1, t2, t3}" by simp
  then show "map_option ce_state (entry_of (event_conn K lines d) c) =
      Some (if last lines = t3 then Stopped else if last lines = t2 then Created else Creating)"
    using about lines ne by (auto simp: state_along [OF assms(2)] last_state_last [OF ne])
qed

section \<open>Listing\<close>

text \<open>
  A read of the state file that the kernel lets through returns the stored state or an error that
  \<open>list\<close> skips, and leaves the files alone.
\<close>

lemma read_state_file_decides:
  assumes "plain_id c" "k_io K (Op_read (get_state_path c)) w = None"
  obtains r where "read_state_file K c w = (r, log_op (Op_read (get_state_path c)) True w)"
    "\<And>s. stored K w c = Some s \<Longrightarrow> r = Inr s" "stored K w c = None \<Longrightarrow> \<exists>e. r = Inl (Fail e)"
proof (cases "stored K w c")
  case (Some s)
  with that read_state_file_stored [OF assms(1) Some assms(2)] show ?thesis by auto
next
  case None
  have "\<exists>e. read_state_file K c w = (Inl (Fail e), log_op (Op_read (get_state_path c)) True w)"
    using assms None
    by (auto simp: read_state_file_def fs_read_to_string_def stored_def bindE_def attempt_def lift_result_def comp_simps
        split: option.splits node.splits sum.splits)
  with that None show ?thesis by auto
qed

definition reported :: "('k) state_kernel_scheme \<Rightarrow> world \<Rightarrow> string \<Rightarrow> ProtoState list" where
  "reported K w c = (case stored K w c of Some s \<Rightarrow> [ProtoState_from s] | None \<Rightarrow> [])"

lemma reported_log [simp]: "reported K (log_op op ok w) = reported K w"
  by (simp add: reported_def fun_eq_iff)

lemma mset_concat_cong: "mset xs = mset ys \<Longrightarrow> mset (concat (map f xs)) = mset (concat (map f ys))"
  by (simp add: mset_concat) (metis mset_map sum_mset_sum_list)

lemma list_states_run:
  assumes "obliging K" "\<forall>c \<in> set ids. plain_id c"
  shows "\<exists>w'. list_states K ids ss d = (Inr (ss @ concat (map (reported K (d_world d)) ids)), d\<lparr>d_world := w'\<rparr>) \<and>
    files w' = files (d_world d)"
  using assms(2)
proof (induction ids arbitrary: ss d)
  case Nil
  show ?case by (intro exI [of _ "d_world d"]) (simp add: comp_simps)
next
  case (Cons c ids)
  let ?w = "log_op (Op_read (get_state_path c)) True (d_world d)"
  obtain r where r: "read_state_file K c (d_world d) = (r, ?w)"
    "\<And>s. stored K (d_world d) c = Some s \<Longrightarrow> r = Inr s" "stored K (d_world d) c = None \<Longrightarrow> \<exists>e. r = Inl (Fail e)"
    using read_state_file_decides [of c K "d_world d"] Cons.prems assms(1) by (auto simp: obliging_def)
  have "list_states K (c # ids) ss d = list_states K ids (ss @ reported K (d_world d) c) (d\<lparr>d_world := ?w\<rparr>)"
    using r by (cases "stored K (d_world d) c")
      (auto simp: state_def core_def on_world_def map_err_def attempt_def bindE_def reported_def)
  with Cons.IH [of "ss @ reported K (d_world d) c" "d\<lparr>d_world := ?w\<rparr>"] Cons.prems show ?case by auto
qed

section \<open>Properties\<close>

text \<open>
  C8. A creation seen from both sides. The daemon takes the request for a new id and the
  supervisor it spawns ends well. Then the supervisor has sent exactly three lines; the request
  is still unanswered after the first of them and is answered with success by the second.
  Each line has a connection and a task of its own, so the daemon may take them in any order:
  in every order the request and whoever waits for the exit are answered, the latter with
  the exit code of the one process that the supervisor started and waited for, 0 when a signal
  killed it, but the entry of the table is left in the state of the
  line that came last, which need not be the stopped one.
\<close>

theorem create_through_daemon:
  assumes "event_codec K" "table_wf d" "entry_of d c = None" "daemon_create K c cfg d = (Inr i, d1)"
    and "shim_main K [prog, c, cfg, get_event_socket_path] w = (Inr (), w')"
  shows "\<exists>t1 t2 t3 pid wx code. waited_for K w w' pid wx \<and>
    code = (case k_wait K pid wx of WExited _ i \<Rightarrow> i | _ \<Rightarrow> 0) \<and>
    sent w' = sent w @ map (\<lambda>t. Op_stream_write get_event_socket_path (t @ newline)) [t1, t2, t3] \<and>
    distinct [t1, t2, t3] \<and> create_reply i d1 = None \<and> create_reply i (event_conn K [t1] d1) = None \<and>
    create_reply i (event_conn K [t1, t2] d1) = Some (Inr ()) \<and>
    (\<forall>lines. set lines = {t1, t2, t3} \<longrightarrow>
       create_reply i (event_conn K lines d1) = Some (Inr ()) \<and>
       (\<forall>j d2. daemon_wait c d1 = (Inr j, d2) \<longrightarrow> wait_reply K j (event_conn K lines d2) = Some (Inr code)) \<and>
       map_option ce_state (entry_of (event_conn K lines d1) c) =
         Some (if last lines = t3 then Stopped else if last lines = t2 then Created else Creating))"
proof -
  let ?line = "\<lambda>t. Op_stream_write get_event_socket_path (t @ newline)"
  obtain t1 t2 t3 pid wx where waited: "waited_for K w w' pid wx" and sent: "sent w' = sent w @ [?line t1, ?line t2, ?line t3]"
    and ev: "j_event_from_str K t1 = Inr \<lparr>e_id = c, e_state = Creating, e_exit_code = Some 0\<rparr>"
      "j_event_from_str K t2 = Inr \<lparr>e_id = c, e_state = Created, e_exit_code = Some 0\<rparr>"
      "j_event_from_str K t3 = Inr \<lparr>e_id = c, e_state = Stopped,
        e_exit_code = Some (case k_wait K pid wx of WExited _ i \<Rightarrow> i | _ \<Rightarrow> 0)\<rparr>"
    using create_sends [OF assms(1) shim_main_ok [OF assms(5)]] by blast
  have e: "entry_of d1 c = Some (ContainerEntry_new Creating (Some i) [])"
    using daemon_create_unknown [OF assms(3,4)] by simp
  have wf: "table_wf d1" using table_keepsD [OF table_keeps_daemon_create assms(4,2)] by (simp add: table_step_def)
  have i: "i \<in> set (created_of d1 c)" using e by (simp add: created_of_def ContainerEntry_new_def)
  note reply = created_along [OF wf i]
  define code where "code = (case k_wait K pid wx of WExited _ i \<Rightarrow> i | _ \<Rightarrow> 0)"
  have about: "about K c t1 = Some \<lparr>e_id = c, e_state = Creating, e_exit_code = Some 0\<rparr>"
    "about K c t2 = Some \<lparr>e_id = c, e_state = Created, e_exit_code = Some 0\<rparr>"
    "about K c t3 = Some \<lparr>e_id = c, e_state = Stopped, e_exit_code = Some code\<rparr>"
    using ev by (simp_all add: about_def code_def)
  note all = any_order [OF wf e about]
  have "create_reply i d1 = None" using reply [of K "[]"] by (simp add: event_conn_def woken_def)
  moreover have "create_reply i (event_conn K [t1] d1) = None" "create_reply i (event_conn K [t1, t2] d1) = Some (Inr ())"
    using about by (simp_all add: reply woken_def)
  moreover have "distinct [t1, t2, t3]" using ev by auto
  ultimately show ?thesis using waited sent all
    by (intro exI [of _ t1] exI [of _ t2] exI [of _ t3] exI [of _ pid] exI [of _ wx] exI [of _ code]) (simp add: code_def)
qed

text \<open>
  C35. \<open>list\<close> reports what is stored, not what the table says. On a kernel that fails no call it
  answers with the converted state files of the containers of the table, in the order in which the
  map is iterated, which is arbitrary, and each of them once; it leaves out the ones whose file is
  missing or does not parse, and changes neither the table nor any file.
\<close>

theorem list_reports:
  assumes "obliging K" "orders K" "\<forall>c \<in> set (map fst (containers d)). plain_id c"
  shows "\<exists>ss w'. daemon_list K d = (Inr ss, d\<lparr>d_world := w'\<rparr>) \<and> files w' = files (d_world d) \<and>
    ss = [ProtoState_from s. c \<leftarrow> k_order K (map fst (containers d)) (d_world d), Some s \<leftarrow> [stored K (d_world d) c]] \<and>
    mset ss = mset [ProtoState_from s. (c, _) \<leftarrow> containers d, Some s \<leftarrow> [stored K (d_world d) c]]"
proof -
  let ?ids = "k_order K (map fst (containers d)) (d_world d)" and ?f = "reported K (d_world d)"
  have "\<forall>c \<in> set ?ids. plain_id c" using assms(3) by (simp add: set_order [OF assms(2)])
  from list_states_run [OF assms(1) this, of "[]" d] obtain w' where
    "daemon_list K d = (Inr (concat (map ?f ?ids)), d\<lparr>d_world := w'\<rparr>)" "files w' = files (d_world d)"
    by (auto simp: daemon_list_def)
  moreover have "mset (concat (map ?f ?ids)) = mset (concat (map ?f (map fst (containers d))))"
    using assms(2) by (intro mset_concat_cong) (simp add: orders_def)
  moreover have "concat (map ?f ?ids) = [ProtoState_from s. c \<leftarrow> ?ids, Some s \<leftarrow> [stored K (d_world d) c]]"
    by (auto simp: reported_def intro!: arg_cong [where f = concat] split: option.splits)
  moreover have "concat (map ?f (map fst (containers d))) =
      [ProtoState_from s. (c, _) \<leftarrow> containers d, Some s \<leftarrow> [stored K (d_world d) c]]"
    by (auto simp: reported_def intro!: arg_cong [where f = concat] split: option.splits)
  ultimately show ?thesis by (simp only:) blast
qed

end
