(* ===== verification/Schedule.thy ===== *)
theory Schedule
  imports Prelude
begin

text \<open>
  Programs that can be interrupted: a computation of the development cut into the steps at which
  another process can run in between. \<open>run_prog\<close> runs a program alone and gives back the
  computation; \<open>interleave\<close> runs two programs on one shared state in every order. The relation
  \<open>tracks\<close> compares a program with a smaller one on a part of the state, so that all orders
  of two long programs can be examined on the few steps that touch that part.
\<close>

section \<open>Programs\<close>

datatype ('w, 'e, 'a) prog =
    Halt "'e stop + 'a"
  | Step "'w \<Rightarrow> ('w, 'e, 'a) prog \<times> 'w"
  | Await "'w \<Rightarrow> bool" "('w, 'e, 'a) prog"

primrec bindP :: "('w, 'e, 'a) prog \<Rightarrow> ('a \<Rightarrow> ('w, 'e, 'b) prog) \<Rightarrow> ('w, 'e, 'b) prog" where
  "bindP (Halt r) k = (case r of Inl e \<Rightarrow> Halt (Inl e) | Inr x \<Rightarrow> k x)"
| "bindP (Step f) k = Step (map_prod (\<lambda>p. bindP p k) id \<circ> f)"
| "bindP (Await g p) k = Await g (bindP p k)"

text \<open>A computation as one step.\<close>

definition atom :: "('w, 'e, 'a) comp \<Rightarrow> ('w, 'e, 'a) prog" where
  "atom m = Step (map_prod Halt id \<circ> m)"

text \<open>A program run alone; it never has to wait for itself.\<close>

primrec run_prog :: "('w, 'e, 'a) prog \<Rightarrow> ('w, 'e, 'a) comp" where
  "run_prog (Halt r) = (\<lambda>w. (r, w))"
| "run_prog (Step f) = (\<lambda>w. (\<lambda>(g, w'). g w') (map_prod run_prog id (f w)))"
| "run_prog (Await g p) = run_prog p"

lemma run_bindP: "run_prog (bindP p k) = bindE (run_prog p) (\<lambda>x. run_prog (k x))"
proof (induction p)
  case (Halt r)
  then show ?case by (cases r) (simp_all add: fun_eq_iff bindE_def)
next
  case (Step f)
  show ?case
  proof
    fix w
    obtain p' w' where f: "f w = (p', w')" by fastforce
    then have "p' \<in> Basic_BNFs.fsts (f w)" by (simp add: fsts.simps)
    with Step have "run_prog (bindP p' k) = bindE (run_prog p') (\<lambda>x. run_prog (k x))" by blast
    with f show "run_prog (bindP (Step f) k) w = bindE (run_prog (Step f)) (\<lambda>x. run_prog (k x)) w"
      by (simp add: bindE_def)
  qed
next
  case (Await g p)
  then show ?case by simp
qed

lemma run_atom [simp]: "run_prog (atom m) = m"
  by (auto simp: atom_def fun_eq_iff map_prod_def split: prod.splits)

lemma run_halt: "run_prog (Halt (Inr x)) = ret x" "run_prog (Halt (Inl e)) = stop_with e"
  by (simp_all add: fun_eq_iff comp_simps)

declare run_prog.simps(1) [simp del]

lemmas run_prog_eqs = run_bindP run_halt

text \<open>Matching on the result of a program, and \<open>map_err\<close> of one.\<close>

primrec handleP :: "('e stop + 'a \<Rightarrow> 'f stop + 'b) \<Rightarrow> ('w, 'e, 'a) prog \<Rightarrow> ('w, 'f, 'b) prog" where
  "handleP h (Halt r) = Halt (h r)"
| "handleP h (Step f) = Step (map_prod (handleP h) id \<circ> f)"
| "handleP h (Await g p) = Await g (handleP h p)"

fun caught :: "'e stop + 'a \<Rightarrow> 'f stop + ('e + 'a)" where
  "caught (Inl (Fail e)) = Inr (Inl e)"
| "caught (Inl Panicked) = Inl Panicked"
| "caught (Inl (Exited n)) = Inl (Exited n)"
| "caught (Inl Replaced) = Inl Replaced"
| "caught (Inr x) = Inr (Inr x)"

abbreviation attemptP :: "('w, 'e, 'a) prog \<Rightarrow> ('w, 'f, 'e + 'a) prog" where
  "attemptP \<equiv> handleP caught"

abbreviation map_errP :: "('e \<Rightarrow> 'f) \<Rightarrow> ('w, 'e, 'a) prog \<Rightarrow> ('w, 'f, 'a) prog" where
  "map_errP f \<equiv> handleP (map_sum (map_stop f) id)"

lemma run_handleP: "run_prog (handleP h p) w = map_prod h id (run_prog p w)"
proof (induction p arbitrary: w)
  case (Step f)
  from Step.IH [of "f w" "fst (f w)" "snd (f w)"] show ?case
    by (simp add: fsts.simps prod_eq_iff case_prod_unfold)
qed (simp_all add: run_prog.simps(1))

lemma run_attemptP: "run_prog (attemptP p) = attempt (run_prog p)"
proof
  fix w
  obtain r w' where r: "run_prog p w = (r, w')" by fastforce
  show "run_prog (attemptP p) w = attempt (run_prog p) w"
    by (cases r rule: caught.cases) (simp_all add: run_handleP attempt_def r)
qed

lemma run_map_errP: "run_prog (map_errP f p) = map_err f (run_prog p)"
  by (auto simp: fun_eq_iff run_handleP map_err_def split: prod.split sum.split)

lemma handleP_atom: "handleP h (atom m) = Step (\<lambda>w. map_prod (\<lambda>r. Halt (h r)) id (m w))"
  by (simp add: atom_def fun_eq_iff prod_eq_iff)

lemma bind_atom:
  "bindP (atom m) k =
     Step (\<lambda>w. case m w of (Inl e, w') \<Rightarrow> (Halt (Inl e), w') | (Inr x, w') \<Rightarrow> (k x, w'))"
  by (auto simp: atom_def fun_eq_iff split: prod.splits sum.splits)

lemma bindP_assoc: "bindP (bindP p k) h = bindP p (\<lambda>x. bindP (k x) h)"
proof (induction p)
  case (Halt r)
  then show ?case by (cases r) simp_all
next
  case (Step f)
  have "bindP (bindP (fst (f w)) k) h = bindP (fst (f w)) (\<lambda>x. bindP (k x) h)" for w
    using Step [of "f w" "fst (f w)"] by (auto simp: fsts.simps prod_eq_iff)
  then show ?case by (simp add: fun_eq_iff prod_eq_iff)
next
  case (Await g p)
  then show ?case by simp
qed

lemma bindP_return: "bindP p (\<lambda>x. Halt (Inr x)) = p"
proof (induction p)
  case (Halt r)
  then show ?case by (cases r) simp_all
next
  case (Step f)
  have "bindP (fst (f w)) (\<lambda>x. Halt (Inr x)) = fst (f w)" for w
    using Step [of "f w" "fst (f w)"] by (auto simp: fsts.simps prod_eq_iff)
  then show ?case by (simp add: fun_eq_iff prod_eq_iff)
next
  case (Await g p)
  then show ?case by simp
qed

section \<open>Two programs on one state\<close>

inductive interleave ::
    "('w, 'e, 'a) prog \<Rightarrow> ('w, 'f, 'b) prog \<Rightarrow> 'w \<Rightarrow> 'e stop + 'a \<Rightarrow> 'f stop + 'b \<Rightarrow> 'w \<Rightarrow> bool" where
  halt: "interleave (Halt r) (Halt s) w r s w"
| left: "f w = (p, w') \<Longrightarrow> interleave p q w' r s v \<Longrightarrow> interleave (Step f) q w r s v"
| right: "f w = (q, w') \<Longrightarrow> interleave p q w' r s v \<Longrightarrow> interleave p (Step f) w r s v"
| await_left: "g w \<Longrightarrow> interleave p q w r s v \<Longrightarrow> interleave (Await g p) q w r s v"
| await_right: "g w \<Longrightarrow> interleave p q w r s v \<Longrightarrow> interleave p (Await g q) w r s v"

inductive_simps interleave_simps:
  "interleave (Halt r0) (Halt s0) w r s v"
  "interleave (Halt r0) (Step g) w r s v"
  "interleave (Step f) (Halt s0) w r s v"
  "interleave (Step f) (Step g) w r s v"

lemma interleave_step:
  "interleave (fst (f w)) q (snd (f w)) r s v \<Longrightarrow> interleave (Step f) q w r s v"
  "interleave p (fst (g w)) (snd (g w)) r s v \<Longrightarrow> interleave p (Step g) w r s v"
  by (cases "f w", auto intro: interleave.left) (cases "g w", auto intro: interleave.right)

text \<open>A program that never waits can run to its end at any moment.\<close>

primrec nowait :: "('w, 'e, 'a) prog \<Rightarrow> bool" where
  "nowait (Halt r) \<longleftrightarrow> True"
| "nowait (Step f) \<longleftrightarrow> (\<forall>w. fst (map_prod nowait id (f w)))"
| "nowait (Await g p) \<longleftrightarrow> False"

lemma nowait_atom [simp]: "nowait (atom m)"
  by (simp add: atom_def)

lemma nowait_bindP: "nowait p \<Longrightarrow> (\<And>x. nowait (k x)) \<Longrightarrow> nowait (bindP p k)"
proof (induction p)
  case (Halt r)
  then show ?case by (cases r) simp_all
next
  case (Step f)
  have "nowait (bindP (fst (f w)) k)" for w
    using Step.IH [of "f w" "fst (f w)"] Step.prems by (auto simp: fsts.simps prod_eq_iff)
  then show ?case by simp
qed simp

lemma nowait_handleP: "nowait p \<Longrightarrow> nowait (handleP h p)"
proof (induction p)
  case (Step f)
  have "nowait (handleP h (fst (f w)))" for w
    using Step.IH [of "f w" "fst (f w)"] Step.prems by (auto simp: fsts.simps prod_eq_iff)
  then show ?case by simp
qed simp_all

lemma run_left:
  "nowait p \<Longrightarrow> run_prog p w = (r, w') \<Longrightarrow> interleave (Halt r) q w' r s v \<Longrightarrow> interleave p q w r s v"
proof (induction p arbitrary: w)
  case (Halt r0)
  then show ?case by (simp add: run_prog.simps)
next
  case (Step f)
  from Step.prems have "run_prog (fst (f w)) (snd (f w)) = (r, w')" "nowait (fst (f w))"
    by (simp_all add: case_prod_unfold)
  with Step.IH [of "f w" "fst (f w)" "snd (f w)"] Step.prems(3)
  have "interleave (fst (f w)) q (snd (f w)) r s v" by (auto simp: fsts.simps prod_eq_iff)
  then show ?case by (rule interleave_step(1))
qed simp

lemma run_right:
  "nowait q \<Longrightarrow> run_prog q w = (s, w') \<Longrightarrow> interleave p (Halt s) w' r s v \<Longrightarrow> interleave p q w r s v"
proof (induction q arbitrary: w)
  case (Halt r0)
  then show ?case by (simp add: run_prog.simps)
next
  case (Step f)
  from Step.prems have "run_prog (fst (f w)) (snd (f w)) = (s, w')" "nowait (fst (f w))"
    by (simp_all add: case_prod_unfold)
  with Step.IH [of "f w" "fst (f w)" "snd (f w)"] Step.prems(3)
  have "interleave p (fst (f w)) (snd (f w)) r s v" by (auto simp: fsts.simps prod_eq_iff)
  then show ?case by (rule interleave_step(2))
qed simp

lemma left_atom: "m w = (Inr x, w') \<Longrightarrow> interleave (k x) q w' r s v \<Longrightarrow> interleave (bindP (atom m) k) q w r s v"
  unfolding bind_atom by (rule interleave.left) auto

section \<open>Simulation on a part of the state\<close>

text \<open>
  \<open>view\<close> is the part that matters and \<open>ok\<close> holds of the states that occur. A step of the program
  either leaves the part alone or does to it what a step of the smaller program does; the results
  are related by \<open>same\<close>. Where only the part matters, \<open>simulates\<close> relates all results.
\<close>

inductive tracks ::
    "('w \<Rightarrow> 'v) \<Rightarrow> ('w \<Rightarrow> bool) \<Rightarrow> ('e stop + 'a \<Rightarrow> 'f stop + 'b \<Rightarrow> bool) \<Rightarrow>
     ('w, 'e, 'a) prog \<Rightarrow> ('v, 'f, 'b) prog \<Rightarrow> bool" for view ok same where
  halt: "same r s \<Longrightarrow> tracks view ok same (Halt r) (Halt s)"
| await: "tracks view ok same p q \<Longrightarrow> tracks view ok same (Await g p) q"
| skip: "(\<And>w. ok w \<Longrightarrow> view (snd (f w)) = view w \<and> ok (snd (f w)) \<and> tracks view ok same (fst (f w)) q) \<Longrightarrow>
    tracks view ok same (Step f) q"
| step: "(\<And>w. ok w \<Longrightarrow> view (snd (f w)) = snd (g (view w)) \<and> ok (snd (f w)) \<and>
    tracks view ok same (fst (f w)) (fst (g (view w)))) \<Longrightarrow>
    tracks view ok same (Step f) (Step g)"

inductive_cases tracks_haltE: "tracks view ok same (Halt r) q"
inductive_cases tracks_awaitE: "tracks view ok same (Await g p) q"
inductive_cases tracks_stepE: "tracks view ok same (Step f) q"

abbreviation simulates :: "('w \<Rightarrow> 'v) \<Rightarrow> ('w \<Rightarrow> bool) \<Rightarrow> ('w, 'e, 'a) prog \<Rightarrow> ('v, 'f, 'b) prog \<Rightarrow> bool" where
  "simulates view ok \<equiv> tracks view ok (\<lambda>_ _. True)"

lemma simulates_halt: "simulates view ok (Halt r) (Halt s)"
  by (rule tracks.halt) simp

text \<open>Every order of the two programs is an order of the two smaller ones, on the part.\<close>

lemma interleave_tracks:
  assumes "interleave p q w r s v" "tracks view ok R p p'" "tracks view ok S q q'" "ok w"
  shows "ok v \<and> (\<exists>r' s'. R r r' \<and> S s s' \<and> interleave p' q' (view w) r' s' (view v))"
  using assms
proof (induction arbitrary: p' q' rule: interleave.induct)
  case (halt r s w)
  then show ?case by (auto elim!: tracks_haltE intro: interleave.halt)
next
  case (left f w p1 w1 q r s v)
  from left.prems(1) show ?case
  proof (cases rule: tracks_stepE [consumes 1])
    case 1
    then show ?thesis using left by fastforce
  next
    case (2 g)
    then have "view w1 = snd (g (view w))" "ok w1" "tracks view ok R p1 (fst (g (view w)))"
      using left.hyps(1) left.prems(3) by fastforce+
    with left.IH [OF this(3) left.prems(2) this(2)] 2(1) show ?thesis
      by (auto intro: interleave_step(1) [of g "view w" q'])
  qed
next
  case (right f w q1 w1 p r s v)
  from right.prems(2) show ?case
  proof (cases rule: tracks_stepE [consumes 1])
    case 1
    then show ?thesis using right by fastforce
  next
    case (2 g)
    then have "view w1 = snd (g (view w))" "ok w1" "tracks view ok S q1 (fst (g (view w)))"
      using right.hyps(1) right.prems(3) by fastforce+
    with right.IH [OF right.prems(1) this(3) this(2)] 2(1) show ?thesis
      by (auto intro: interleave_step(2) [of p' g "view w"])
  qed
next
  case (await_left g w p q r s v)
  then show ?case by (auto elim!: tracks_awaitE)
next
  case (await_right g w p q r s v)
  then show ?case by (auto elim!: tracks_awaitE)
qed

lemma interleave_simulates:
  assumes "interleave p q w r s v" "simulates view ok p p'" "simulates view ok q q'" "ok w"
  shows "ok v \<and> (\<exists>r' s'. interleave p' q' (view w) r' s' (view v))"
  using interleave_tracks [OF assms] by blast

text \<open>A program that runs alone, seen through the part.\<close>

lemma run_simulates:
  assumes "nowait p" "run_prog p w = (r, w')" "simulates view ok p q" "ok w"
  shows "ok w' \<and> (\<exists>r' s'. interleave q (Halt (Inr ()) :: ('v, unit, unit) prog) (view w) r' s' (view w'))"
proof -
  have "interleave p (Halt (Inr ()) :: ('a, unit, unit) prog) w r (Inr ()) w'"
    by (rule run_left [OF assms(1,2)]) (rule interleave.halt)
  from interleave_simulates [OF this assms(3) simulates_halt [of view ok "Inr ()" "Inr ()"] assms(4)]
  show ?thesis by blast
qed

lemma tracks_skip:
  assumes "\<And>w. ok w \<Longrightarrow> \<exists>x w'. m w = (Inr x, w') \<and> view w' = view w \<and> ok w' \<and> tracks view ok same (k x) q"
  shows "tracks view ok same (bindP (atom m) k) q"
  unfolding bind_atom by (rule tracks.skip) (use assms in fastforce)

lemma tracks_step:
  assumes "\<And>w. ok w \<Longrightarrow> \<exists>r w' q. m w = (r, w') \<and> ok w' \<and> g (view w) = (q, view w') \<and>
    (case r of Inl e \<Rightarrow> tracks view ok same (Halt (Inl e)) q | Inr x \<Rightarrow> tracks view ok same (k x) q)"
  shows "tracks view ok same (bindP (atom m) k) (Step g)"
  unfolding bind_atom by (rule tracks.step) (use assms in \<open>fastforce split: sum.splits\<close>)

lemma tracks_last:
  assumes "\<And>w. ok w \<Longrightarrow> view (snd (m w)) = view w \<and> ok (snd (m w)) \<and> same (fst (m w)) s"
  shows "tracks view ok same (atom m) (Halt s)"
  unfolding atom_def by (rule tracks.skip) (use assms in \<open>simp add: tracks.halt\<close>)

lemma simulates_last:
  assumes "\<And>w. ok w \<Longrightarrow> view (snd (m w)) = view w \<and> ok (snd (m w))"
  shows "simulates view ok (atom m) (Halt s)"
  by (rule tracks_last) (use assms in simp)

text \<open>
  The other way round: programs that never wait can be scheduled as any order of the smaller
  programs says. So the outcomes of the small programs are exactly those of the long ones.
\<close>

lemma interleave_swap: "interleave p q w r s v \<Longrightarrow> interleave q p w s r v"
  by (induction rule: interleave.induct) (auto intro: interleave.intros)

text \<open>The steps a program takes alone.\<close>

inductive leads :: "('w, 'e, 'a) prog \<Rightarrow> 'w \<Rightarrow> ('w, 'e, 'a) prog \<Rightarrow> 'w \<Rightarrow> bool" where
  stay: "leads p w p w"
| walk: "leads (fst (f w)) (snd (f w)) p' w' \<Longrightarrow> leads (Step f) w p' w'"

lemma interleave_leads: "leads p w p' w' \<Longrightarrow> interleave p' q w' r s v \<Longrightarrow> interleave p q w r s v"
  by (induction rule: leads.induct) (auto intro: interleave_step)

lemma interleave_leads_right: "leads q w q' w' \<Longrightarrow> interleave p q' w' r s v \<Longrightarrow> interleave p q w r s v"
  by (blast intro: interleave_swap interleave_leads)

lemma tracks_leads:
  assumes "tracks view ok same p q" "nowait p" "ok w"
  shows "case q of
      Halt s \<Rightarrow> \<exists>r w'. leads p w (Halt r) w' \<and> same r s \<and> ok w' \<and> view w' = view w
    | Step g \<Rightarrow> \<exists>p' w'. leads p w p' w' \<and> tracks view ok same p' (fst (g (view w))) \<and> nowait p' \<and> ok w' \<and>
        view w' = snd (g (view w))
    | Await _ _ \<Rightarrow> True"
  using assms
proof (induction arbitrary: w rule: tracks.induct)
  case (halt r s)
  then show ?case using leads.stay by fastforce
next
  case (skip f q)
  then have "nowait (fst (f w))" by simp
  with skip.IH [OF skip.prems(2)] show ?case
    by (auto split: prog.splits) (metis leads.walk)+
next
  case (step f g)
  then have "nowait (fst (f w))" by simp
  with step.IH [OF step.prems(2)] leads.walk [where f = f and w = w, OF leads.stay] show ?case by auto
qed simp

theorem interleave_complete:
  assumes "interleave p' q' b r' s' b'" "tracks view ok R p p'" "tracks view ok S q q'"
    and "nowait p" "nowait q" "nowait p'" "nowait q'" "ok w" "view w = b"
  shows "\<exists>r s v. interleave p q w r s v \<and> view v = b' \<and> ok v \<and> R r r' \<and> S s s'"
  using assms
proof (induction arbitrary: p q w rule: interleave.induct)
  case (halt r s b)
  obtain x w1 where 1: "leads p w (Halt x) w1" "R x r" "ok w1" "view w1 = b"
    using tracks_leads [OF halt.prems(1,3,7)] halt.prems(8) by auto
  obtain y v where 2: "leads q w1 (Halt y) v" "S y s" "ok v" "view v = b"
    using tracks_leads [OF halt.prems(2,4) 1(3)] 1(4) by auto
  have "interleave (Halt x) q w1 x y v"
    by (rule interleave_leads_right [OF 2(1) interleave.halt])
  from interleave_leads [OF 1(1) this] 1(2) 2(2-4) show ?case by blast
next
  case (left f b p1 b1 q' r s b2)
  obtain p2 w2 where 1: "leads p w p2 w2" "tracks view ok R p2 p1" "nowait p2" "ok w2" "view w2 = b1"
    using tracks_leads [OF left.prems(1,3,7)] left.prems(8) left.hyps(1) by auto
  have "nowait p1" using left.prems(5) left.hyps(1) by (metis fst_conv fst_map_prod nowait.simps(2))
  from left.IH [OF 1(2) left.prems(2) 1(3) left.prems(4) this left.prems(6) 1(4,5)] interleave_leads [OF 1(1)]
  show ?case by blast
next
  case (right f b q1 b1 p' r s b2)
  obtain q2 w2 where 1: "leads q w q2 w2" "tracks view ok S q2 q1" "nowait q2" "ok w2" "view w2 = b1"
    using tracks_leads [OF right.prems(2,4,7)] right.prems(8) right.hyps(1) by auto
  have "nowait q1" using right.prems(6) right.hyps(1) by (metis fst_conv fst_map_prod nowait.simps(2))
  from right.IH [OF right.prems(1) 1(2) right.prems(3) 1(3) right.prems(5) this 1(4,5)]
  show ?case using interleave_leads_right [OF 1(1)] by blast
qed simp_all

section \<open>Up to the first await\<close>

text \<open>A program run alone until it ends or has to wait: what is left of it, and the state.\<close>

primrec advance :: "('w, 'e, 'a) prog \<Rightarrow> 'w \<Rightarrow> ('w, 'e, 'a) prog \<times> 'w" where
  "advance (Halt r) = (\<lambda>w. (Halt r, w))"
| "advance (Step f) = (\<lambda>w. (\<lambda>(g, w'). g w') (map_prod advance id (f w)))"
| "advance (Await g p) = (\<lambda>w. (Await g p, w))"

lemma advance_bind:
  "nowait p \<Longrightarrow> advance (bindP p k) w =
     (case run_prog p w of (Inl e, w') \<Rightarrow> (Halt (Inl e), w') | (Inr x, w') \<Rightarrow> advance (k x) w')"
proof (induction p arbitrary: w)
  case (Halt r)
  then show ?case by (cases r) (simp_all add: run_prog.simps(1))
next
  case (Step f)
  then have "nowait (fst (f w))" by simp
  with Step.IH [of "f w" "fst (f w)" "snd (f w)"] show ?case
    by (simp add: fsts.simps prod_eq_iff case_prod_unfold)
qed simp

lemma advance_nowait: "nowait p \<Longrightarrow> advance p w = map_prod Halt id (run_prog p w)"
  using advance_bind [of p "\<lambda>x. Halt (Inr x)" w] by (simp add: bindP_return split: prod.splits sum.splits)

section \<open>Any number of programs on one state\<close>

text \<open>
  The tasks of a server. A task of \<open>new\<close> can start at any moment, any task can take its next step,
  a task that waits can go on once its condition holds or be cancelled while it waits, and
  \<open>env\<close> is what the rest of the world does in between.
\<close>

inductive pool ::
    "('w \<Rightarrow> 'w \<Rightarrow> bool) \<Rightarrow> ('w, 'e, 'a) prog set \<Rightarrow>
     ('w, 'e, 'a) prog list \<times> 'w \<Rightarrow> ('w, 'e, 'a) prog list \<times> 'w \<Rightarrow> bool" for env new where
  spawn: "p \<in> new \<Longrightarrow> pool env new (ps, w) (p # ps, w)"
| step: "f w = (p, w') \<Longrightarrow> pool env new (ps @ Step f # qs, w) (ps @ p # qs, w')"
| await: "g w \<Longrightarrow> pool env new (ps @ Await g p # qs, w) (ps @ p # qs, w)"
| cancel: "pool env new (ps @ Await g p # qs, w) (ps @ qs, w)"
| others: "env w w' \<Longrightarrow> pool env new (ps, w) (ps, w')"

inductive_cases poolE: "pool env new (ps, w) s'"

abbreviation pool_run ::
    "('w \<Rightarrow> 'w \<Rightarrow> bool) \<Rightarrow> ('w, 'e, 'a) prog set \<Rightarrow>
     ('w, 'e, 'a) prog list \<times> 'w \<Rightarrow> ('w, 'e, 'a) prog list \<times> 'w \<Rightarrow> bool" where
  "pool_run env new \<equiv> (pool env new)\<^sup>*\<^sup>*"

text \<open>One task of a pool can run up to its next await while the others stand still.\<close>

lemma pool_advance: "advance p w = (q, w') \<Longrightarrow> pool_run env new (ps @ p # qs, w) (ps @ q # qs, w')"
proof (induction p arbitrary: w)
  case (Step f)
  then have "pool_run env new (ps @ fst (f w) # qs, snd (f w)) (ps @ q # qs, w')"
    using Step.IH [of "f w" "fst (f w)" "snd (f w)"] by (simp add: fsts.simps prod_eq_iff case_prod_unfold)
  moreover have "pool env new (ps @ Step f # qs, w) (ps @ fst (f w) # qs, snd (f w))"
    by (rule pool.step) simp
  ultimately show ?case by (rule converse_rtranclp_into_rtranclp [rotated])
qed simp_all

text \<open>The same for the first part of a task.\<close>

lemma pool_prefix:
  "nowait p \<Longrightarrow> run_prog p w = (Inr x, w') \<Longrightarrow> pool_run env new (ps @ bindP p k # qs, w) (ps @ k x # qs, w')"
proof (induction p arbitrary: w)
  case (Halt r)
  then show ?case by (simp add: run_prog.simps(1))
next
  case (Step f)
  then have "pool_run env new (ps @ bindP (fst (f w)) k # qs, snd (f w)) (ps @ k x # qs, w')"
    using Step.IH [of "f w" "fst (f w)" "snd (f w)"] by (simp add: fsts.simps prod_eq_iff case_prod_unfold)
  moreover have "pool env new (ps @ bindP (Step f) k # qs, w) (ps @ bindP (fst (f w)) k # qs, snd (f w))"
    unfolding bindP.simps by (rule pool.step) (simp add: map_prod_def split: prod.split)
  ultimately show ?case by (rule converse_rtranclp_into_rtranclp [rotated])
qed simp

text \<open>
  Rely and guarantee: \<open>rel\<close> is what a task may do to the state and what it relies on that the others
  do. \<open>safe\<close> tasks take only such steps, whatever the others do in between, and wait only for
  conditions of which \<open>waits\<close> holds.
\<close>

inductive safe ::
    "('w \<Rightarrow> 'w \<Rightarrow> bool) \<Rightarrow> (('w \<Rightarrow> bool) \<Rightarrow> ('w, 'e, 'a) prog \<Rightarrow> 'w \<Rightarrow> bool) \<Rightarrow> ('w, 'e, 'a) prog \<Rightarrow> 'w \<Rightarrow> bool"
  for rel waits where
  halt: "safe rel waits (Halt r) w"
| step: "(\<And>v. rel w v \<Longrightarrow> rel v (snd (f v)) \<and> safe rel waits (fst (f v)) (snd (f v))) \<Longrightarrow> safe rel waits (Step f) w"
| await: "(\<And>v. rel w v \<Longrightarrow> waits g p v) \<Longrightarrow> (\<And>v. rel w v \<Longrightarrow> safe rel waits p v) \<Longrightarrow> safe rel waits (Await g p) w"

inductive_cases safe_stepE: "safe rel waits (Step f) w"
inductive_cases safe_awaitE: "safe rel waits (Await g p) w"

definition all_safe ::
    "('w \<Rightarrow> bool) \<Rightarrow> ('w \<Rightarrow> 'w \<Rightarrow> bool) \<Rightarrow> (('w \<Rightarrow> bool) \<Rightarrow> ('w, 'e, 'a) prog \<Rightarrow> 'w \<Rightarrow> bool) \<Rightarrow>
     ('w, 'e, 'a) prog list \<times> 'w \<Rightarrow> bool" where
  "all_safe ok rel waits s \<longleftrightarrow> ok (snd s) \<and> (\<forall>p \<in> set (fst s). safe rel waits p (snd s))"

locale rely_guarantee =
  fixes inv :: "'w \<Rightarrow> bool"
    and rel :: "'w \<Rightarrow> 'w \<Rightarrow> bool"
    and env :: "'w \<Rightarrow> 'w \<Rightarrow> bool"
    and new :: "('w, 'e, 'a) prog set"
    and waits :: "('w \<Rightarrow> bool) \<Rightarrow> ('w, 'e, 'a) prog \<Rightarrow> 'w \<Rightarrow> bool"
  assumes rel_refl: "inv w \<Longrightarrow> rel w w"
    and rel_trans: "rel u v \<Longrightarrow> rel v w \<Longrightarrow> rel u w"
    and rel_inv: "rel u v \<Longrightarrow> inv v"
    and env_rel: "inv w \<Longrightarrow> env w w' \<Longrightarrow> rel w w'"
    and new_safe: "p \<in> new \<Longrightarrow> inv w \<Longrightarrow> safe rel waits p w"
begin

lemma safe_stable:
  assumes "safe rel waits p w" "rel w v"
  shows "safe rel waits p v"
  using assms(1)
proof cases
  case (step f)
  have "rel u (snd (f u)) \<and> safe rel waits (fst (f u)) (snd (f u))" if "rel v u" for u
    using step(2) [OF rel_trans [OF assms(2) that]] .
  with step(1) show ?thesis by (auto intro: safe.step)
next
  case (await g q)
  with rel_trans [OF assms(2)] show ?thesis by (auto intro: safe.await)
qed (auto intro: safe.halt)

lemma all_safe_rel:
  "inv w \<Longrightarrow> rel w w' \<Longrightarrow> \<forall>p \<in> set ps. safe rel waits p w \<Longrightarrow> inv w' \<and> (\<forall>p \<in> set ps. safe rel waits p w')"
  by (blast intro: safe_stable rel_inv)

lemma pool_safe:
  assumes "pool env new s s'" "all_safe inv rel waits s"
  shows "all_safe inv rel waits s' \<and> rel (snd s) (snd s')"
  using assms
proof (cases rule: pool.cases)
  case (step f w p w' ps qs)
  then have inv: "inv w" and f: "safe rel waits (Step f) w" and rest: "\<forall>p \<in> set (ps @ qs). safe rel waits p w"
    using assms(2) by (auto simp: all_safe_def)
  from f rel_refl [OF inv] step(3) have "rel w w'" "safe rel waits p w'"
    by (auto elim!: safe_stepE dest!: meta_spec [of _ w])
  with all_safe_rel [OF inv this(1) rest] step(1,2) show ?thesis by (auto simp: all_safe_def)
next
  case (await g w ps p qs)
  then have "inv w" "safe rel waits (Await g p) w" using assms(2) by (auto simp: all_safe_def)
  then have "safe rel waits p w" by (auto elim!: safe_awaitE intro: rel_refl)
  with await assms(2) show ?thesis by (auto simp: all_safe_def intro: rel_refl)
next
  case (others w w' ps)
  then have "inv w" "rel w w'" using assms(2) by (auto simp: all_safe_def intro: env_rel)
  with all_safe_rel [OF this, of ps] others assms(2) show ?thesis by (auto simp: all_safe_def)
qed (auto simp: all_safe_def intro: rel_refl new_safe)

lemma run_safe: "pool_run env new s s' \<Longrightarrow> all_safe inv rel waits s \<Longrightarrow> all_safe inv rel waits s' \<and> rel (snd s) (snd s')"
proof (induction rule: rtranclp_induct)
  case base
  then show ?case by (auto simp: all_safe_def intro: rel_refl)
next
  case (step s1 s2)
  then show ?case using pool_safe [OF step.hyps(2)] rel_trans by blast
qed

lemma run_waits:
  assumes "pool_run env new ([], w) (ps, w')" "inv w" "Await g p \<in> set ps"
  shows "waits g p w'"
proof -
  have "all_safe inv rel waits (ps, w')" using run_safe [OF assms(1)] assms(2) by (simp add: all_safe_def)
  then have "inv w'" "safe rel waits (Await g p) w'" using assms(3) by (auto simp: all_safe_def)
  then show ?thesis by (auto elim!: safe_awaitE intro: rel_refl)
qed

lemma run_rel:
  assumes "pool_run env new ([], w) (ps, u)" "inv w" "pool_run env new (ps, u) (qs, v)"
  shows "inv u \<and> rel u v"
proof -
  have "all_safe inv rel waits (ps, u)" using run_safe [OF assms(1)] assms(2) by (simp add: all_safe_def)
  with run_safe [OF assms(3)] show ?thesis by (simp add: all_safe_def)
qed

end

text \<open>Safe programs compose.\<close>

lemma safe_bind:
  assumes "safe rel waits' p w" "nowait p" "\<And>x v. rel w v \<Longrightarrow> safe rel waits (k x) v"
    and trans: "\<And>u v x. rel u v \<Longrightarrow> rel v x \<Longrightarrow> rel u x" and refl: "\<And>u v. rel u v \<Longrightarrow> rel v v" and "rel w w"
  shows "safe rel waits (bindP p k) w"
  using assms(1-3,6)
proof (induction rule: safe.induct)
  case (halt r w)
  then show ?case by (cases r) (auto intro: safe.halt)
next
  case (step w f)
  have "rel v (snd (f v)) \<and> safe rel waits (bindP (fst (f v)) k) (snd (f v))" if v: "rel w v" for v
  proof -
    have f: "rel v (snd (f v))" "nowait (fst (f v))" using step v by auto
    have "safe rel waits (k x) u" if "rel (snd (f v)) u" for x u
      using step.prems(2) [OF trans [OF v trans [OF f(1) that]]] .
    with step.IH [OF v] f refl [OF f(1)] show ?thesis by auto
  qed
  then show ?case by (auto intro: safe.step)
qed simp

end
