(* ===== verification/Programs.thy ===== *)
theory Programs
  imports Progress Schedule
begin

text \<open>
  The operations of \<open>clonebox-core/src/container.rs\<close> as programs of their steps, a step being one
  access to the shared files (\<open>fs::write\<close> is two): the supervisor that runs \<open>create\<close>, and the
  commands \<open>start\<close>, \<open>kill\<close>, \<open>pause\<close>, \<open>resume\<close> and \<open>delete\<close>, which run in the daemon. Run
  alone, a program is the operation of \<open>Container\<close>. The supervisor's \<open>accept\<close> waits until
  \<open>start\<close> has connected to its socket.
\<close>

section \<open>The programs\<close>

definition write_state_prog :: "('k) state_kernel_scheme \<Rightarrow> string \<Rightarrow> State \<Rightarrow> (world, core_error, unit) prog" where
  "write_state_prog K c st =
     (case j_state_to_string K st of
        Inl e \<Rightarrow> Halt (Inl (Fail (StateError (state_error.Json e))))
      | Inr t \<Rightarrow>
          bindP (atom (map_err (\<lambda>e. StateError (state_error.Io e)) (fs_create K (get_state_path c)))) (\<lambda>_.
          atom (map_err (\<lambda>e. StateError (state_error.Io e)) (fs_write_all K (get_state_path c) t))))"

definition update_state_prog ::
    "('k) state_kernel_scheme \<Rightarrow> string \<Rightarrow> (State \<Rightarrow> State) \<Rightarrow> (world, core_error, State) prog" where
  "update_state_prog K c f =
     bindP (atom (read_state_file K c)) (\<lambda>st. bindP (write_state_prog K c (f st)) (\<lambda>_. Halt (Inr (f st))))"

definition start_prog :: "('k) state_kernel_scheme \<Rightarrow> string \<Rightarrow> (world, core_error, unit) prog" where
  "start_prog K c =
     bindP (atom (read_state_file K c)) (\<lambda>state.
     if s_status state \<noteq> Created then Halt (Inl (Fail (ContainerNotCreated c)))
     else bindP (atom (connect_create_process K c)) (\<lambda>_.
          bindP (update_state_prog K c set_running) (\<lambda>_. Halt (Inr ()))))"

definition kill_prog :: "('k) state_kernel_scheme \<Rightarrow> string \<Rightarrow> (world, core_error, unit) prog" where
  "kill_prog K c =
     bindP (atom (read_state_file K c)) (\<lambda>state.
     bindP (atom (case (s_status state, s_pid state) of
              (Stopped, _) \<Rightarrow> throw (ContainerAlreadyStopped c)
            | (Running, Some pid) \<Rightarrow> send_sigkill K pid
            | (Created, Some pid) \<Rightarrow> send_sigkill K pid
            | _ \<Rightarrow> throw (Other (Any_msg (''cannot kill '' @ c @ '' in current state''))))) (\<lambda>_.
     write_state_prog K c (set_stopped state)))"

definition pause_prog :: "('k) state_kernel_scheme \<Rightarrow> string \<Rightarrow> (world, core_error, unit) prog" where
  "pause_prog K c =
     bindP (atom (read_state_file K c)) (\<lambda>state.
     if s_status state \<noteq> Running then Halt (Inl (Fail (ContainerNotRunning c)))
     else bindP (atom (set_cgroup K (cgroup_dir c) ''cgroup'' ''freeze'' ''1'')) (\<lambda>_.
          bindP (update_state_prog K c set_paused) (\<lambda>_. Halt (Inr ()))))"

definition resume_prog :: "('k) state_kernel_scheme \<Rightarrow> string \<Rightarrow> (world, core_error, unit) prog" where
  "resume_prog K c =
     bindP (atom (read_state_file K c)) (\<lambda>state.
     if s_status state \<noteq> Paused then Halt (Inl (Fail (ContainerNotPaused c)))
     else bindP (atom (set_cgroup K (cgroup_dir c) ''cgroup'' ''freeze'' ''0'')) (\<lambda>_.
          bindP (update_state_prog K c set_running) (\<lambda>_. Halt (Inr ()))))"

text \<open>
  \<open>fs::remove_dir_all\<close> in its steps: the directory is listed, each entry is removed, then the
  directory itself, which fails when an entry has come meanwhile. A subdirectory is removed in
  one step. The order of a listing is that of the file tree, which is arbitrary; the history has
  the call once. An entry, or the directory, that has gone meanwhile is no error.
\<close>

definition children :: "world \<Rightarrow> string list \<Rightarrow> string list" where
  "children w q = remdups (map (\<lambda>f. f ! length q) (filter (strict_prefix q) (map fst (files w))))"

definition rmtree_list :: "('k) kernel_scheme \<Rightarrow> string \<Rightarrow> string list io" where
  "rmtree_list K p w =
     (let q = norm_path (k_cwd K) p in
      bindE (io_call K (Op_rmtree p))
        (\<lambda>_. if is_pseudo q then ret []
             else (case node_at w q of
                     None \<Rightarrow> throw (Os ENOENT)
                   | Some Dir \<Rightarrow> ret (children w q)
                   | _ \<Rightarrow> throw (Os ENOTDIR))) w)"

primrec unlink_prog :: "string list \<Rightarrow> string list \<Rightarrow> (world, io_error, unit) prog \<Rightarrow> (world, io_error, unit) prog" where
  "unlink_prog q [] p = p"
| "unlink_prog q (x # xs) p = bindP (atom (\<lambda>w. ret () (remove_tree (q @ [x]) w))) (\<lambda>_. unlink_prog q xs p)"

definition rmtree_last :: "string list \<Rightarrow> unit io" where
  "rmtree_last q w = (if children w q = [] then ret () (remove_tree q w) else throw (Os ENOTEMPTY) w)"

definition rmtree_prog :: "('k) kernel_scheme \<Rightarrow> string \<Rightarrow> (world, io_error, unit) prog" where
  "rmtree_prog K p =
     (let q = norm_path (k_cwd K) p in
      bindP (atom (rmtree_list K p)) (\<lambda>entries.
      if is_pseudo q then Halt (Inr ()) else unlink_prog q entries (atom (rmtree_last q))))"

definition cleanup_prog :: "('k) kernel_scheme \<Rightarrow> string \<Rightarrow> bool \<Rightarrow> (world, core_error, unit) prog" where
  "cleanup_prog K c force =
     (let cgroup_path = cgroup_dir c; bundle_path = get_bundle_path c in
      if force
      then bindP (atom (attempt (fs_remove_dir K cgroup_path))) (\<lambda>_.
           bindP (attemptP (rmtree_prog K bundle_path)) (\<lambda>_. Halt (Inr ())))
      else bindP (atom (map_err (\<lambda>e. CleanupFailure e ''cgroup'') (fs_remove_dir K cgroup_path))) (\<lambda>_.
           map_errP (\<lambda>e. CleanupFailure e ''bundle'') (rmtree_prog K bundle_path)))"

definition delete_prog :: "('k) state_kernel_scheme \<Rightarrow> string \<Rightarrow> bool \<Rightarrow> (world, core_error, unit) prog" where
  "delete_prog K c force =
     (if force then cleanup_prog K c force
      else
      bindP (atom (read_state_file K c)) (\<lambda>state.
      if s_status state \<noteq> Stopped then Halt (Inl (Fail (ContainerNotStopped c)))
      else cleanup_prog K c force))"

text \<open>A client has connected to the container's socket since it was bound last.\<close>

definition connected :: "string \<Rightarrow> world \<Rightarrow> bool" where
  "connected c w \<longleftrightarrow>
     (Op_connect (get_socket_path c), True) \<in> set (takeWhile (\<lambda>e. e \<noteq> (Op_bind (get_socket_path c), True)) (rev (hist w)))"

definition listen_prog :: "('k) kernel_scheme \<Rightarrow> string \<Rightarrow> (world, core_error, i32) prog" where
  "listen_prog K c =
     (let fd_path = get_socket_path c in
      bindP (atom (get_socket_fd K)) (\<lambda>fd.
      bindP (atom (map_err (\<lambda>e. from_runtime (ToUnixAddrFailure e)) (nix_call K (Op_unix_addr fd_path)))) (\<lambda>_.
      bindP (atom (map_err (\<lambda>e. from_runtime (runtime_error.BindFailure e)) (nix_bind K fd_path))) (\<lambda>_.
      bindP (atom (map_err (\<lambda>e. from_runtime (runtime_error.Io e)) (fs_set_permissions K fd_path 0x180))) (\<lambda>_.
      bindP (atom (map_err (\<lambda>e. from_runtime (BacklogFailure e)) (nix_call K (Op_backlog 1)))) (\<lambda>_.
      bindP (atom (map_err (\<lambda>e. from_runtime (ListenFailure e)) (nix_call K Op_listen))) (\<lambda>_.
      Halt (Inr fd))))))))"

definition accept_prog :: "('k) kernel_scheme \<Rightarrow> string \<Rightarrow> Runtime \<Rightarrow> i32 \<Rightarrow> (world, core_error, Runtime) prog" where
  "accept_prog K c rt fd =
     Await (connected c)
       (bindP (atom (map_err (\<lambda>e. from_runtime (Accept4Failure e)) (nix_blocking K Op_accept))) (\<lambda>_.
        Halt (Inr (rt\<lparr>unix_sock := Some fd\<rparr>))))"

text \<open>The supervisor from the start of the container to its end.\<close>

definition supervise_prog ::
    "('k) event_kernel_scheme \<Rightarrow> string \<Rightarrow> string option \<Rightarrow> Event \<Rightarrow> i32 \<Rightarrow> string \<Rightarrow> Runtime \<Rightarrow>
     (world, core_error, unit) prog" where
  "supervise_prog K c socket_path event1 child_pid log_fd runtime =
     bindP (atom (unfreeze_child K runtime)) (\<lambda>_.
     bindP (atom (map_err (\<lambda>e. SystemError (Wait e)) (nix_waitpid K child_pid))) (\<lambda>child_return.
     bindP (atom (notify K socket_path (event_update_state Stopped
        (case child_return of WExited _ i \<Rightarrow> event_update_exit_code i event1 | _ \<Rightarrow> event1)))) (\<lambda>_.
     bindP (update_state_prog K c set_stopped) (\<lambda>_.
     atom (write_log_file K log_fd (k_debug_wait K child_return @ newline))))))"

definition create_parent_prog ::
    "('k) event_kernel_scheme \<Rightarrow> string \<Rightarrow> string option \<Rightarrow> Event \<Rightarrow> Runtime \<Rightarrow> i32 \<Rightarrow> string \<Rightarrow>
     (world, core_error, unit) prog" where
  "create_parent_prog K c socket_path event runtime child_pid log_fd =
     (let child_cgroup_path = get_child_cgroup_path c;
          event1 = event_update_state Created event in
      bindP (atom (create_network K c child_pid)) (\<lambda>_.
      bindP (atom (set_cgroup K child_cgroup_path ''cpu'' ''max'' ''100000 100000'')) (\<lambda>_.
      bindP (atom (set_cgroup K child_cgroup_path ''memory'' ''max'' ''256M'')) (\<lambda>_.
      bindP (atom (notify K socket_path event1)) (\<lambda>_.
      bindP (update_state_prog K c (set_created child_pid)) (\<lambda>_.
      bindP (listen_prog K c) (\<lambda>fd.
      bindP (accept_prog K c runtime fd) (supervise_prog K c socket_path event1 child_pid log_fd))))))))"

text \<open>
  \<open>create\<close> from its check of the bundle to the clone, and the whole of it. The child is a process
  of its own; it is one step here.
\<close>

definition create_front_prog ::
    "('k) config_kernel_scheme \<Rightarrow> string \<Rightarrow> string \<Rightarrow> string option \<Rightarrow>
     (world, core_error, Config \<times> string \<times> Runtime \<times> i32) prog" where
  "create_front_prog K c config_path socket_path =
     (let bundle_path = get_bundle_path c; resources = [''cpu'', ''memory''] in
      bindP (atom (config_load K config_path)) (\<lambda>config.
      bindP (atom (map_err (\<lambda>e. SystemError (system_error.Io e bundle_path)) (fs_create_dir_all K bundle_path))) (\<lambda>_.
      bindP (atom (map_err (\<lambda>e. SystemError (system_error.Io e bundle_path)) (fs_set_permissions K bundle_path 0x1C0))) (\<lambda>_.
      bindP (atom (open_log_file K bundle_path)) (\<lambda>log_fd.
      bindP (atom (notify K socket_path (Event_new c Creating (Some 0)))) (\<lambda>_.
      bindP (write_state_prog K c (State_new (c_oci_version config) c Creating None bundle_path None)) (\<lambda>_.
      bindP (atom (create_cgroup K c)) (\<lambda>cg.
      bindP (atom (init_resources K get_root_cgroup_path resources)) (\<lambda>_.
      bindP (atom (init_resources K get_app_cgroup_path resources)) (\<lambda>_.
      bindP (atom (parent_child_pipe K (Runtime_new None None None))) (\<lambda>runtime.
      bindP (atom (container_clone K (snd cg))) (\<lambda>child_pid.
      Halt (Inr (config, log_fd, runtime, child_pid))))))))))))))"

definition create_found_prog ::
    "('k) config_kernel_scheme \<Rightarrow> string \<Rightarrow> string \<Rightarrow> string option \<Rightarrow> (world, core_error, unit) prog" where
  "create_found_prog K c config_path socket_path =
     bindP (create_front_prog K c config_path socket_path) (\<lambda>(config, log_fd, runtime, child_pid).
     if child_pid = 0 then atom (create_child K (get_bundle_path c) config runtime log_fd)
     else create_parent_prog K c socket_path (Event_new c Creating (Some 0)) runtime child_pid log_fd)"

definition create_prog ::
    "('k) config_kernel_scheme \<Rightarrow> string \<Rightarrow> string \<Rightarrow> string option \<Rightarrow> (world, core_error, unit) prog" where
  "create_prog K c config_path socket_path =
     bindP (atom (path_exists K (get_bundle_path c))) (\<lambda>found.
     if found then Halt (Inl (Fail (ContainerAlreadyExists c)))
     else create_found_prog K c config_path socket_path)"

section \<open>Run alone, they are the operations\<close>

lemma map_err_bind: "map_err f (bindE m k) = bindE (map_err f m) (\<lambda>x. map_err f (k x))"
  by (auto simp: fun_eq_iff map_err_def bindE_def split: prod.splits sum.splits)

lemma bind_stop: "bindE (stop_with e) k = stop_with e"
  by (simp add: fun_eq_iff bindE_def comp_simps)

lemma run_write_state: "run_prog (write_state_prog K c st) = write_state_file K c st"
  by (cases "j_state_to_string K st")
     (simp_all add: write_state_prog_def write_state_file_def run_prog_eqs fs_write_def map_err_bind lift_result_def
       throw_def thenE_def bind_stop)

lemma run_update_state: "run_prog (update_state_prog K c f) = update_state K c f"
  by (simp add: update_state_prog_def update_state_def run_prog_eqs run_write_state thenE_def)

lemma run_start: "run_prog (start_prog K c) = start K c"
  by (simp add: start_prog_def start_def run_prog_eqs run_update_state thenE_def throw_def if_distrib cong: if_cong)

lemma run_kill: "run_prog (kill_prog K c) = kill K c"
  by (simp add: kill_prog_def kill_def run_prog_eqs run_write_state thenE_def)

lemma run_pause: "run_prog (pause_prog K c) = pause K c"
  by (simp add: pause_prog_def pause_def run_prog_eqs run_update_state thenE_def throw_def if_distrib cong: if_cong)

lemma run_resume: "run_prog (resume_prog K c) = resume K c"
  by (simp add: resume_prog_def resume_def run_prog_eqs run_update_state thenE_def throw_def if_distrib cong: if_cong)

lemma children_iff: "x \<in> set (children w q) \<longleftrightarrow> (\<exists>f \<in> set (files w). prefix (q @ [x]) (fst f))"
proof -
  have "strict_prefix q f \<and> x = f ! length q \<longleftrightarrow> prefix (q @ [x]) f" for f
    by (auto simp: strict_prefix_def prefix_def append_eq_Cons_conv nth_append) (metis list.exhaust nth_Cons_0)
  then show ?thesis by (auto simp: children_def image_iff)
qed

lemma children_none: "children w q = [] \<longleftrightarrow> (\<forall>f \<in> set (files w). \<not> strict_prefix q (fst f))"
  by (auto simp: children_def filter_empty_conv)

lemma run_unlink: "run_prog (unlink_prog q xs p) w = run_prog p (fold (\<lambda>x. remove_tree (q @ [x])) xs w)"
  by (induction xs arbitrary: w) (simp_all add: run_prog_eqs bindE_def ret_def)

lemma fold_remove:
  "fold (\<lambda>x. remove_tree (q @ [x])) xs w = w\<lparr>files := filter (\<lambda>(f, _). \<forall>x \<in> set xs. \<not> prefix (q @ [x]) f) (files w)\<rparr>"
  by (induction xs arbitrary: w) (auto simp: remove_tree_def intro!: filter_cong arg_cong [where f = "\<lambda>fs. _\<lparr>files := fs\<rparr>"])

lemma run_rmtree: "run_prog (rmtree_prog K p) = fs_remove_dir_all K p"
proof
  fix w
  let ?q = "norm_path (k_cwd K) p"
  have all: "rmtree_last ?q (fold (\<lambda>x. remove_tree (?q @ [x])) (children w ?q) v) = (Inr (), remove_tree ?q v)"
    if "files v = files w" for v
  proof -
    let ?v = "fold (\<lambda>x. remove_tree (?q @ [x])) (children w ?q) v"
    have c: "x \<in> set (children w ?q) \<longleftrightarrow> (\<exists>f \<in> set (files v). prefix (?q @ [x]) (fst f))" for x
      using that by (simp add: children_iff)
    have "x \<notin> set (children ?v ?q)" for x
      unfolding children_iff fold_remove using c [of x] by fastforce
    then have empty: "children ?v ?q = []" by (metis list.set_intros(1) neq_Nil_conv)
    have "remove_tree ?q ?v = remove_tree ?q v"
      by (simp add: fold_remove remove_tree_def, rule arg_cong [where f = "\<lambda>fs. v\<lparr>files := fs\<rparr>"], rule filter_cong)
         (auto dest: append_prefixD)
    with empty show ?thesis by (simp add: rmtree_last_def ret_def)
  qed
  then show "run_prog (rmtree_prog K p) w = fs_remove_dir_all K p w"
    by (simp add: rmtree_prog_def rmtree_list_def fs_remove_dir_all_def run_prog_eqs run_unlink Let_def bindE_def io_call_def
        comp_simps split: option.split node.split)
qed

lemma run_cleanup: "run_prog (cleanup_prog K c force) = cleanup K c force"
  by (simp add: cleanup_prog_def cleanup_def run_prog_eqs run_attemptP run_map_errP run_rmtree thenE_def Let_def)

lemma run_delete: "run_prog (delete_prog K c force) = delete K c force"
  by (simp add: delete_prog_def delete_def run_prog_eqs run_cleanup throw_def if_distrib cong: if_cong)

lemma run_listen_accept: "run_prog (bindP (listen_prog K c) (accept_prog K c rt)) = parent_proc_socket K c rt"
  by (simp add: listen_prog_def accept_prog_def parent_proc_socket_def run_prog_eqs Let_def thenE_def bindP_assoc)

lemma run_create_parent: "run_prog (create_parent_prog K c sp ev rt pid fd) = create_parent K c sp ev rt pid fd"
proof -
  have "bindE (run_prog (listen_prog K c)) (\<lambda>fd. bindE (run_prog (accept_prog K c rt fd)) g) =
      bindE (parent_proc_socket K c rt) g" for g :: "Runtime \<Rightarrow> unit core"
    unfolding run_listen_accept [symmetric] run_bindP bindE_assoc ..
  then show ?thesis
    by (simp add: create_parent_prog_def create_parent_def supervise_prog_def run_prog_eqs run_update_state Let_def
        thenE_def)
qed

lemma run_create_front: "run_prog (create_front_prog K c cfg sp) = create_front K c cfg sp"
  by (simp add: create_front_prog_def create_front_def run_prog_eqs run_write_state Let_def thenE_def)

lemma run_create: "run_prog (create_prog K c cfg sp) = create K c cfg sp"
proof -
  have "run_prog (case x of (config, log_fd, runtime, child_pid) \<Rightarrow>
       if child_pid = 0 then atom (create_child K (get_bundle_path c) config runtime log_fd)
       else create_parent_prog K c sp (Event_new c Creating (Some 0)) runtime child_pid log_fd) =
     (case x of (config, log_fd, runtime, child_pid) \<Rightarrow>
       if child_pid = 0 then create_child K (get_bundle_path c) config runtime log_fd
       else create_parent K c sp (Event_new c Creating (Some 0)) runtime child_pid log_fd)" for x
    by (simp add: run_create_parent split: prod.split)
  then show ?thesis
    by (simp add: create_prog_def create_found_prog_def create_eq run_prog_eqs run_create_front throw_def if_distrib cong: if_cong)
qed

lemma nowait_unlink: "nowait p \<Longrightarrow> nowait (unlink_prog q xs p)"
  by (induction xs) (auto intro!: nowait_bindP)

lemma nowait_cleanup: "nowait (cleanup_prog K c force)"
  by (auto simp: cleanup_prog_def rmtree_prog_def Let_def intro!: nowait_bindP nowait_handleP nowait_unlink)

end
