(* ===== verification/Race.thy ===== *)
theory Race
  imports Programs
begin

text \<open>
  The races of the processes that share a state file, over the programs of \<open>Programs\<close>: the
  supervisor of a container against the commands, the commands against each other, and two
  supervisors of one id. The orders of two long programs are examined on the few steps of
  each that touch the text of the state file.
\<close>

section \<open>What they do to the state file\<close>

definition contents :: "string \<Rightarrow> world \<Rightarrow> string" where
  "contents c w = (case node_at w (state_comps c) of Some (File t) \<Rightarrow> t | _ \<Rightarrow> [])"

definition in_place :: "string \<Rightarrow> world \<Rightarrow> bool" where
  "in_place c w \<longleftrightarrow>
     node_at w (bundle_comps c) = Some Dir \<and> node_at w (socket_comps c) = Some Sock \<and>
     (\<exists>t. node_at w (state_comps c) = Some (File t))"

definition to_text :: "('k) state_kernel_scheme \<Rightarrow> State \<Rightarrow> string" where
  "to_text K s = (case j_state_to_string K s of Inr t \<Rightarrow> t | Inl _ \<Rightarrow> [])"

type_synonym text_prog = "(string, unit, unit) prog"

abbreviation finished :: text_prog where
  "finished \<equiv> Halt (Inr ())"

definition reads :: "('k) state_kernel_scheme \<Rightarrow> (State \<Rightarrow> text_prog) \<Rightarrow> text_prog" where
  "reads K k = Step (\<lambda>t. (case j_state_from_str K t of Inl _ \<Rightarrow> finished | Inr s \<Rightarrow> k s, t))"

definition writes :: "string \<Rightarrow> text_prog" where
  "writes t = Step (\<lambda>_. (Step (\<lambda>u. (finished, overwrite t u)), []))"

definition text_update :: "('k) state_kernel_scheme \<Rightarrow> (State \<Rightarrow> State) \<Rightarrow> text_prog" where
  "text_update K f = reads K (\<lambda>s. writes (to_text K (f s)))"

definition text_guarded :: "('k) state_kernel_scheme \<Rightarrow> (State \<Rightarrow> bool) \<Rightarrow> (State \<Rightarrow> State) \<Rightarrow> text_prog" where
  "text_guarded K guard f = reads K (\<lambda>s. if \<not> guard s then finished else text_update K f)"

definition text_kill :: "('k) state_kernel_scheme \<Rightarrow> text_prog" where
  "text_kill K = reads K (\<lambda>s. if can_kill s then writes (to_text K (set_stopped s)) else finished)"

text \<open>The paths whose nodes the simulation looks at.\<close>

definition seen :: "string \<Rightarrow> string list set" where
  "seen c = {bundle_comps c, socket_comps c, state_comps c}"

lemma keeps_seen:
  assumes "keeps (seen c) m" "in_place c w" "m w = (r, w')"
  shows "contents c w' = contents c w \<and> in_place c w'"
proof -
  have "node_at w' p = node_at w p" if "p \<in> seen c" for p
    using keepsD [OF assms(1,3) that] .
  then show ?thesis using assms(2) by (simp add: contents_def in_place_def seen_def)
qed

lemma simulates_neutral:
  assumes "succeeds m" "keeps (seen c) m" "\<And>x. simulates (contents c) (in_place c) (k x) q"
  shows "simulates (contents c) (in_place c) (bindP (atom m) k) q"
  by (rule tracks_skip) (metis assms keeps_seen succeedsD)

lemma simulates_end: "keeps (seen c) m \<Longrightarrow> simulates (contents c) (in_place c) (atom m) finished"
  by (rule simulates_last) (metis keeps_seen prod.collapse)

lemma read_in_place:
  assumes "plain_id c" "obliging K" "in_place c w"
  shows "snd (read_state_file K c w) = log_op (Op_read (get_state_path c)) True w \<and>
    (case j_state_from_str K (contents c w) of
       Inr s \<Rightarrow> fst (read_state_file K c w) = Inr s
     | Inl _ \<Rightarrow> \<exists>e. fst (read_state_file K c w) = Inl e)"
proof -
  obtain t where t: "node_at w (state_comps c) = Some (File t)" using assms(3) by (auto simp: in_place_def)
  have "fs_read_to_string K (get_state_path c) w = (Inr t, log_op (Op_read (get_state_path c)) True w)"
    using assms t by (intro fs_read_run) (simp_all add: obliging_def)
  then show ?thesis
    using t by (simp add: read_state_file_def bindE_def attempt_def contents_def lift_result_def comp_simps split: sum.splits)
qed

lemma in_place_log [simp]: "in_place c (log_op op ok w) = in_place c w" "contents c (log_op op ok w) = contents c w"
  by (simp_all add: in_place_def contents_def)

lemma simulates_reads:
  assumes "plain_id c" "obliging K" "\<And>s. simulates (contents c) (in_place c) (k s) (k' s)"
  shows "simulates (contents c) (in_place c) (bindP (atom (read_state_file K c)) k) (reads K k')"
  unfolding bind_atom reads_def
proof (rule tracks.step, intro conjI)
  fix w
  assume w: "in_place c w"
  obtain r w' where rd: "read_state_file K c w = (r, w')" by fastforce
  note run = read_in_place [OF assms(1,2) w, unfolded rd]
  let ?f = "\<lambda>w. case read_state_file K c w of (Inl e, w') \<Rightarrow> (Halt (Inl e), w') | (Inr x, w') \<Rightarrow> (k x, w')"
  have w': "snd (?f w) = w'" using rd by (simp split: sum.split)
  then show "contents c (snd (?f w)) = snd (case j_state_from_str K (contents c w) of Inl _ \<Rightarrow> finished | Inr s \<Rightarrow> k' s, contents c w)"
    using run by simp
  show "in_place c (snd (?f w))" using w' run w by simp
  show "simulates (contents c) (in_place c) (fst (?f w))
      (fst (case j_state_from_str K (contents c w) of Inl _ \<Rightarrow> finished | Inr s \<Rightarrow> k' s, contents c w))"
    using run rd assms(3) by (auto intro: simulates_halt split: sum.splits)
qed

lemma in_place_put [simp]:
  "in_place c w \<Longrightarrow> in_place c (put_node (state_comps c) (File t) w)"
  "contents c (put_node (state_comps c) (File t) w) = t"
proof -
  have "bundle_comps c \<noteq> state_comps c" "socket_comps c \<noteq> state_comps c" by (metis state_comps_simps(6), simp)
  then show "in_place c w \<Longrightarrow> in_place c (put_node (state_comps c) (File t) w)"
    by (simp add: in_place_def)
qed (simp add: contents_def)

lemma simulates_writes:
  assumes "plain_id c" "obliging K" "state_codec K" "\<And>x. simulates (contents c) (in_place c) (k x) finished"
  shows "simulates (contents c) (in_place c) (bindP (write_state_prog K c s) k) (writes (to_text K s))"
proof -
  obtain t where t: "j_state_to_string K s = Inr t" using assms(3) by (auto simp: state_codec_def)
  let ?E = "\<lambda>e. StateError (state_error.Io e)"
  have create: "map_err ?E (fs_create K (get_state_path c)) w =
      (Inr (), put_node (state_comps c) (File []) (log_op (Op_create (get_state_path c)) True w))" if "in_place c w" for w
  proof -
    have "fs_create K (get_state_path c) w =
        (Inr (), put_node (state_comps c) (File []) (log_op (Op_create (get_state_path c)) True w))"
      using assms(1,2) that by (intro fs_create_run) (auto simp: in_place_def obliging_def is_dir_def)
    then show ?thesis by (simp add: map_err_def)
  qed
  have fill: "map_err ?E (fs_write_all K (get_state_path c) t) w =
      (Inr (), put_node (state_comps c) (File (overwrite t (contents c w))) (log_op (Op_write (get_state_path c) t) True w))"
    if "in_place c w" for w
  proof -
    obtain u where "node_at w (state_comps c) = Some (File u)" using \<open>in_place c w\<close> by (auto simp: in_place_def)
    moreover have "fs_write_all K (get_state_path c) t w =
        (Inr (), put_text (state_comps c) t (log_op (Op_write (get_state_path c) t) True w))"
      using assms(1,2) by (intro fs_write_all_run) (simp_all add: obliging_def)
    ultimately show ?thesis by (simp add: map_err_def put_text_file contents_def)
  qed
  show ?thesis
    unfolding write_state_prog_def writes_def to_text_def t sum.case bindP_assoc
    unfolding bind_atom
    by (rule tracks.step, simp add: create, rule tracks.step, simp add: fill assms(4))
qed

lemma simulates_update:
  assumes "plain_id c" "obliging K" "state_codec K" "\<And>x. simulates (contents c) (in_place c) (k x) finished"
  shows "simulates (contents c) (in_place c) (bindP (update_state_prog K c f) k) (text_update K f)"
  unfolding update_state_prog_def text_update_def bindP_assoc
  by (intro simulates_reads simulates_writes assms) (simp add: assms)

text \<open>
  What \<open>start\<close>, \<open>pause\<close> and \<open>resume\<close> have in common: look at the state, act on the container,
  then update the state.
\<close>

definition guarded_prog ::
    "('k) state_kernel_scheme \<Rightarrow> string \<Rightarrow> (State \<Rightarrow> bool) \<Rightarrow> core_error \<Rightarrow> unit core \<Rightarrow> (State \<Rightarrow> State) \<Rightarrow>
     (world, core_error, unit) prog" where
  "guarded_prog K c guard err act f =
     bindP (atom (read_state_file K c)) (\<lambda>state.
     if \<not> guard state then Halt (Inl (Fail err))
     else bindP (atom act) (\<lambda>_. bindP (update_state_prog K c f) (\<lambda>_. Halt (Inr ()))))"

abbreviation has_status :: "container_state \<Rightarrow> State \<Rightarrow> bool" where
  "has_status st \<equiv> \<lambda>s. s_status s = st"

lemma guarded_progs:
  "start_prog K c = guarded_prog K c (has_status Created) (ContainerNotCreated c) (connect_create_process K c) set_running"
  "pause_prog K c = guarded_prog K c (has_status Running) (ContainerNotRunning c)
     (set_cgroup K (cgroup_dir c) ''cgroup'' ''freeze'' ''1'') set_paused"
  "resume_prog K c = guarded_prog K c (has_status Paused) (ContainerNotPaused c)
     (set_cgroup K (cgroup_dir c) ''cgroup'' ''freeze'' ''0'') set_running"
  by (simp_all add: guarded_prog_def start_prog_def pause_prog_def resume_prog_def)

text \<open>An action that succeeds while the container is in place, and leaves it there.\<close>

definition acts :: "string \<Rightarrow> unit core \<Rightarrow> bool" where
  "acts c act \<longleftrightarrow> keeps (seen c) act \<and> (\<forall>w. in_place c w \<longrightarrow> (\<exists>w'. act w = (Inr (), w')))"

lemma acts_connect:
  assumes "plain_id c" "obliging K"
  shows "acts c (connect_create_process K c)"
  using assms keeps_runtime(3) [of "seen c" K c]
  by (simp add: acts_def connect_create_process_def get_socket_fd_def nix_int_def nix_connect_def connect_errno_def obliging_def in_place_def
      Let_def thenE_def bindE_def map_err_def comp_simps)

lemma acts_freeze:
  assumes "plain_id c" "obliging K"
  shows "acts c (set_cgroup K (cgroup_dir c) ''cgroup'' ''freeze'' v)"
  unfolding acts_def using set_freeze_run [OF assms] keeps_freeze [OF assms(1)] by metis

lemma simulates_guarded:
  assumes "plain_id c" "obliging K" "state_codec K" "acts c act"
  shows "simulates (contents c) (in_place c) (guarded_prog K c guard err act f) (text_guarded K guard f)"
proof -
  have sim: "simulates (contents c) (in_place c) (bindP (update_state_prog K c f) (\<lambda>_. Halt (Inr ()))) (text_update K f)"
    by (intro simulates_update assms simulates_halt)
  have "simulates (contents c) (in_place c) (bindP (atom act) (\<lambda>_. bindP (update_state_prog K c f) (\<lambda>_. Halt (Inr ()))))
      (text_update K f)"
    by (rule tracks_skip)
       (metis acts_def assms(4) keeps_seen sim)
  then show ?thesis
    unfolding guarded_prog_def text_guarded_def
    by (intro simulates_reads assms(1,2)) (simp add: simulates_halt)
qed

lemma simulates_kill:
  assumes "plain_id c" "obliging K" "state_codec K"
  shows "simulates (contents c) (in_place c) (kill_prog K c) (text_kill K)"
proof -
  let ?choice = "\<lambda>s. case (s_status s, s_pid s) of
              (Stopped, _) \<Rightarrow> throw (ContainerAlreadyStopped c)
            | (Running, Some pid) \<Rightarrow> send_sigkill K pid
            | (Created, Some pid) \<Rightarrow> send_sigkill K pid
            | _ \<Rightarrow> throw (Other (Any_msg (''cannot kill '' @ c @ '' in current state'')))"
  have sig: "succeeds (send_sigkill K pid)" for pid
    using assms(2) by (simp add: succeeds_def send_sigkill_def obliging_def bindE_def attempt_def comp_simps)
  have wr: "simulates (contents c) (in_place c) (write_state_prog K c s) (writes (to_text K s))" for s
    by (subst bindP_return [symmetric]) (intro simulates_writes assms simulates_halt)
  have "simulates (contents c) (in_place c) (bindP (atom (?choice s)) (\<lambda>_. write_state_prog K c (set_stopped s)))
      (if can_kill s then writes (to_text K (set_stopped s)) else finished)" for s
  proof (cases "can_kill s")
    case True
    then obtain pid where "?choice s = send_sigkill K pid" by (auto simp: can_kill_def)
    then show ?thesis
      using True wr by (simp only: if_True) (intro simulates_neutral sig keeps_sigkill)
  next
    case False
    then have "\<exists>e. ?choice s = throw e" by (auto simp: can_kill_def split: container_state.splits option.splits)
    then show ?thesis
      using False by (auto simp: bind_atom comp_simps intro!: tracks.skip simulates_halt)
  qed
  then show ?thesis
    unfolding kill_prog_def text_kill_def by (intro simulates_reads assms(1,2))
qed

lemma keeps_blocking: "\<forall>op w. k_others K op w = files w \<Longrightarrow> keeps S (nix_blocking K op)"
  by (auto simp: keeps_def nix_blocking_def nix_call_def node_at_def split: option.splits)

lemma keeps_waitpid: "\<forall>op w. k_others K op w = files w \<Longrightarrow> keeps S (nix_waitpid K p)"
  unfolding keeps_def nix_waitpid_def
  by (auto simp: bindE_def nix_blocking_def nix_call_def node_at_def comp_simps split: option.splits)

text \<open>The supervisor that waits for \<open>start\<close>, up to the container's end.\<close>

definition waiting_prog ::
    "('k) event_kernel_scheme \<Rightarrow> string \<Rightarrow> string option \<Rightarrow> Event \<Rightarrow> i32 \<Rightarrow> Runtime \<Rightarrow> i32 \<Rightarrow> (world, core_error, unit) prog" where
  "waiting_prog K c sp ev pid rt fd = bindP (accept_prog K c rt fd) (supervise_prog K c sp ev pid (log_path c))"

lemma simulates_supervise:
  assumes "plain_id c" "cooperative K" "state_codec K" "event_codec K"
  shows "simulates (contents c) (in_place c) (supervise_prog K c sp ev pid (log_path c) rt) (text_update K set_stopped)"
proof -
  have K: "obliging K" "\<forall>op w. k_others K op w = files w" using assms(2) by (simp_all add: cooperative_def)
  have "log_comps c \<notin> seen c" by (simp add: seen_def) (simp add: log_comps_def socket_comps_def)
  then have last: "simulates (contents c) (in_place c) (atom (write_log_file K (log_path c) t)) finished" for t
    by (intro simulates_end keeps_log(2) assms(1))
  show ?thesis
    unfolding supervise_prog_def
    by (intro simulates_neutral progress K assms keeps_runtime frames keeps_waitpid simulates_update last)
qed

lemma simulates_waiting:
  assumes "plain_id c" "cooperative K" "state_codec K" "event_codec K"
  shows "simulates (contents c) (in_place c) (waiting_prog K c sp ev pid rt fd) (text_update K set_stopped)"
proof -
  have K: "obliging K" "\<forall>op w. k_others K op w = files w" using assms(2) by (simp_all add: cooperative_def)
  show ?thesis
    unfolding waiting_prog_def accept_prog_def bindP.simps bindP_assoc sum.case
    by (intro tracks.await simulates_neutral progress K frames keeps_blocking simulates_supervise assms)
qed

section \<open>All orders\<close>

lemma from_to_text: "state_codec K \<Longrightarrow> j_state_from_str K (to_text K s) = Inr s"
proof -
  assume "state_codec K"
  then obtain t where "j_state_to_string K s = Inr t" "j_state_from_str K t = Inr s"
    unfolding state_codec_def by blast
  then show ?thesis by (simp add: to_text_def)
qed

lemma stopped_again: "set_stopped (set_stopped s) = set_stopped s"
  by (simp add: set_state_defs)

lemma overwrite_same: "overwrite t t = t"
  by (simp add: overwrite_def)

lemmas text_simps = text_guarded_def text_kill_def text_update_def reads_def writes_def interleave_simps

text \<open>The texts that an update \<open>f\<close> and the end of the container can leave behind.\<close>

definition racing_texts :: "('k) state_kernel_scheme \<Rightarrow> (State \<Rightarrow> State) \<Rightarrow> State \<Rightarrow> string set" where
  "racing_texts K f s =
     {to_text K (set_stopped s), to_text K (f s), to_text K (f (set_stopped s)),
      overwrite (to_text K (set_stopped s)) (to_text K (f s)),
      overwrite (to_text K (f s)) (to_text K (set_stopped s))}"

lemma text_kill_exit:
  assumes "state_codec K" "j_state_from_str K [] = Inl e" "j_state_from_str K t0 = Inr s"
    and "interleave (text_kill K) (text_update K set_stopped) t0 r r' t"
  shows "t = to_text K (set_stopped s)"
proof -
  have st: "\<not> can_kill (set_stopped s)" by (simp add: can_kill_def set_state_defs)
  show ?thesis
    using assms(4) unfolding text_simps
    by (cases "can_kill s") (auto simp: text_simps assms(2,3) from_to_text [OF assms(1)] stopped_again overwrite_same st)
qed

text \<open>Run without interruption, an update does what it says.\<close>

lemma text_update_alone:
  assumes "state_codec K" "j_state_from_str K t0 = Inr s"
    and "interleave (text_update K f) (Halt x :: (string, unit, unit) prog) t0 r r' t"
  shows "t = to_text K (f s)"
  using assms by (auto simp: text_simps)

lemma connect_hist:
  assumes "plain_id c" "connect_create_process K c w = (Inr u, w')"
  shows "\<exists>h. hist w' = hist w @ h @ [(Op_connect (get_socket_path c), True)]"
  using assms
  by (auto simp: connect_create_process_def get_socket_fd_def comp_ok nix_call_ok nix_int_def nix_connect_def connect_errno_def
      Let_def comp_simps split: option.splits node.splits if_splits)

lemma stored_contents: "in_place c w \<Longrightarrow> stored K w c = Some s \<longleftrightarrow> j_state_from_str K (contents c w) = Inr s"
  by (auto simp: in_place_def contents_def stored_def split: sum.splits)

lemma nowait_progs:
  "nowait (update_state_prog K c f)" "nowait (supervise_prog K' c sp ev pid fd rt)" "nowait (kill_prog K c)"
  by (auto simp: update_state_prog_def supervise_prog_def write_state_prog_def kill_prog_def intro!: nowait_bindP split: sum.split)

text \<open>A supervisor can run, at any moment when it need not wait, to the recorded end of its container.\<close>

definition can_end :: "(world, core_error, unit) prog \<Rightarrow> world \<Rightarrow> core_error stop + unit \<Rightarrow> world \<Rightarrow> bool" where
  "can_end q w r v \<longleftrightarrow>
     (\<forall>(p :: (world, core_error, unit) prog) x v'. interleave p (Halt r) v x r v' \<longrightarrow> interleave p q w x r v')"

lemma supervisor_ends:
  assumes "state_codec K" "simulates (contents c) (in_place c) Q (text_update K set_stopped)" "nowait Q"
    and "in_place c w" "stored K w c = Some s"
  obtains r v where "intact K v c (set_stopped s)" "can_end Q w r v"
proof -
  obtain r v where run: "run_prog Q w = (r, v)" by fastforce
  have "j_state_from_str K (contents c w) = Inr s"
    using stored_contents [OF assms(4), of K s] assms(5) by simp
  then have v: "in_place c v" "contents c v = to_text K (set_stopped s)"
    using run_simulates [OF assms(3) run assms(2,4)] text_update_alone [OF assms(1), of "contents c w" s] by auto
  then have "intact K v c (set_stopped s)"
    using stored_contents [OF v(1), of K] from_to_text [OF assms(1)] by (simp add: intact_def in_place_def)
  then show ?thesis by (rule that) (auto simp: can_end_def intro: run_right [OF assms(3) run])
qed

lemma waiting_ends:
  assumes "plain_id c" "cooperative K" "state_codec K" "event_codec K"
    and "in_place c w" "stored K w c = Some s" "connected c w"
  obtains r v where "intact K v c (set_stopped s)" "can_end (waiting_prog K c sp ev pid rt fd) w r v"
proof -
  have K: "obliging K" "\<forall>op w. k_others K op w = files w" using assms(2) by (simp_all add: cooperative_def)
  define Q where "Q = bindP (atom (map_err (\<lambda>e. from_runtime (Accept4Failure e)) (nix_blocking K Op_accept)))
    (\<lambda>_. supervise_prog K c sp ev pid (log_path c) (rt\<lparr>unix_sock := Some fd\<rparr>))"
  have Q: "waiting_prog K c sp ev pid rt fd = Await (connected c) Q"
    by (simp add: waiting_prog_def accept_prog_def Q_def bindP_assoc)
  have simQ: "simulates (contents c) (in_place c) Q (text_update K set_stopped)"
    unfolding Q_def by (intro simulates_neutral progress K frames keeps_blocking simulates_supervise assms)
  have nowQ: "nowait Q" unfolding Q_def by (intro nowait_bindP nowait_atom nowait_progs)
  obtain r v where v: "intact K v c (set_stopped s)" "can_end Q w r v"
    by (rule supervisor_ends [OF assms(3) simQ nowQ assms(5,6)])
  from v(1) show ?thesis
    by (rule that) (use v(2) assms(7) in \<open>auto simp: Q can_end_def intro: interleave.await_right\<close>)
qed

text \<open>A command that looks at the status, acts and updates, against the end of the container.\<close>

locale racing_command =
  fixes guard :: "State \<Rightarrow> bool"
    and f :: "State \<Rightarrow> State"
  assumes guard_stopped: "\<not> guard (set_stopped s)"
    and stopped_after: "set_stopped (f s) = set_stopped s"
begin

lemma text_race:
  assumes "state_codec K" "j_state_from_str K [] = Inl e" "j_state_from_str K t0 = Inr s" "guard s"
    and "interleave (text_guarded K guard f) (text_update K set_stopped) t0 r r' t"
  shows "t \<in> racing_texts K f s"
  using assms(5) unfolding text_simps racing_texts_def
  by (auto simp: text_simps assms(2-4) from_to_text [OF assms(1)] guard_stopped stopped_after stopped_again)

text \<open>\<open>kill\<close> is no better: it looks at the state once and writes what it saw, stopped.\<close>

lemma text_race_kill:
  assumes "state_codec K" "j_state_from_str K [] = Inl e" "j_state_from_str K t0 = Inr s" "guard s"
    and "interleave (text_guarded K guard f) (text_kill K) t0 r r' t"
  shows "t \<in> racing_texts K f s"
proof -
  have st: "\<not> can_kill (set_stopped s)" by (simp add: can_kill_def set_state_defs)
  show ?thesis
    using assms(5) unfolding text_simps racing_texts_def
    by (cases "can_kill s"; cases "can_kill (f s)")
       (auto simp: text_simps assms(2-4) from_to_text [OF assms(1)] guard_stopped stopped_after stopped_again st)
qed

lemma race:
  assumes "plain_id c" "obliging K" "state_codec K" "acts c act" "j_state_from_str K [] = Inl e"
    and "simulates (contents c) (in_place c) q T" "T = text_update K set_stopped \<or> T = text_kill K"
    and "in_place c w" "stored K w c = Some s" "guard s"
    and "interleave (guarded_prog K c guard err act f) q w r r' v"
  shows "contents c v \<in> racing_texts K f s"
proof -
  have s: "j_state_from_str K (contents c w) = Inr s" using stored_contents [OF assms(8), of K s] assms(9) by simp
  from interleave_simulates [OF assms(11) simulates_guarded [OF assms(1-4)] assms(6,8)]
  obtain x y where "interleave (text_guarded K guard f) T (contents c w) x y (contents c v)" by blast
  with assms(7) text_race [OF assms(3,5) s assms(10)] text_race_kill [OF assms(3,5) s assms(10)] show ?thesis by blast
qed

text \<open>The container's end can come after the action and before the update, which then undoes it.\<close>

lemma late:
  assumes "plain_id c" "obliging K" "state_codec K" "in_place c w" "stored K w c = Some s" "guard s"
    and act: "act (log_op (Op_read (get_state_path c)) True w) = (Inr (), w2)"
    and ends: "intact K v c (set_stopped s)" "can_end q w2 r v"
  shows "\<exists>v'. interleave (guarded_prog K c guard err act f) q w (Inr ()) r v' \<and> stored K v' c = Some (f (set_stopped s))"
proof -
  have rd: "read_state_file K c w = (Inr s, log_op (Op_read (get_state_path c)) True w)"
    using assms(1-5) by (intro read_state_file_stored) (auto simp: obliging_def)
  obtain v' where v': "update_state K c f v = (Inr (f (set_stopped s)), v')" "intact K v' c (f (set_stopped s))"
    using update_state_run [OF assms(1,3,2) ends(1), of f] by metis
  let ?P = "bindP (update_state_prog K c f) (\<lambda>_. Halt (Inr ()) :: (world, core_error, unit) prog)"
  have runP: "run_prog ?P v = (Inr (), v')"
    using v'(1) by (simp add: run_prog_eqs run_update_state bindE_def comp_simps)
  have "nowait ?P" by (intro nowait_bindP nowait_progs) simp
  from run_left [OF this runP interleave.halt] have "interleave ?P q w2 (Inr ()) r v'"
    using ends(2) by (auto simp: can_end_def)
  then have "interleave (bindP (atom act) (\<lambda>_. ?P)) q (log_op (Op_read (get_state_path c)) True w) (Inr ()) r v'"
    by (rule left_atom [of act, OF act])
  then have "interleave (guarded_prog K c guard err act f) q w (Inr ()) r v'"
    unfolding guarded_prog_def by (intro left_atom [of "read_state_file K c" w, OF rd]) (simp add: assms(6))
  with v'(2) show ?thesis by (auto simp: intact_def)
qed

end

interpretation starting: racing_command "has_status Created" set_running
  by unfold_locales (simp_all add: set_state_defs)

interpretation pausing: racing_command "has_status Running" set_paused
  by unfold_locales (simp_all add: set_state_defs)

interpretation resuming: racing_command "has_status Paused" set_running
  by unfold_locales (simp_all add: set_state_defs)

lemma acts_run:
  assumes "acts c act" "in_place c w" "stored K w c = Some s"
  obtains w' where "act (log_op op ok w) = (Inr (), w')" "in_place c w'" "stored K w' c = Some s"
proof -
  have "in_place c (log_op op ok w)" using assms(2) by simp
  with assms(1) obtain w' where w': "act (log_op op ok w) = (Inr (), w')" unfolding acts_def by blast
  then have "in_place c w'" "contents c w' = contents c w"
    using keeps_seen [of c act "log_op op ok w" "Inr ()" w'] assms(1,2) w' by (auto simp: acts_def)
  with w' assms(2,3) that show ?thesis using stored_contents [of c w K s] stored_contents [of c w' K s] by simp
qed

text \<open>\<open>kill\<close> can run to its end at any moment.\<close>

lemma kill_ends:
  assumes "plain_id c" "obliging K" "state_codec K" "in_place c w" "stored K w c = Some s" "can_kill s"
  obtains v where "intact K v c (set_stopped s)" "can_end (kill_prog K c) w (Inr ()) v"
proof -
  let ?w1 = "log_op (Op_read (get_state_path c)) True w"
  obtain pid where pid: "s_pid s = Some pid" "s_status s = Running \<or> s_status s = Created"
    using assms(6) by (auto simp: can_kill_def)
  let ?w2 = "log_op (Op_kill pid SIGKILL) True ?w1"
  have rd: "read_state_file K c w = (Inr s, ?w1)"
    using assms(1,2,5) by (intro read_state_file_stored) (auto simp: obliging_def)
  have sig: "send_sigkill K pid ?w1 = (Inr (), ?w2)"
    using assms(2) by (simp add: send_sigkill_def obliging_def bindE_def attempt_def comp_simps)
  have "intact K ?w2 c s" using assms(4,5) by (simp add: intact_def in_place_def)
  then obtain v where v: "write_state_file K c (set_stopped s) ?w2 = (Inr (), v)" "intact K v c (set_stopped s)"
    using write_state_intact [OF assms(1,3,2)] by blast
  have "run_prog (kill_prog K c) w = (Inr (), v)"
    using rd sig v(1) pid by (auto simp: run_kill kill_def thenE_def bindE_def)
  from run_right [OF nowait_progs(3) this] have "can_end (kill_prog K c) w (Inr ()) v" by (auto simp: can_end_def)
  with v(2) show ?thesis by (rule that)
qed

lemma late_start:
  assumes "plain_id c" "cooperative K" "state_codec K" "event_codec K"
    and "in_place c w" "stored K w c = Some s" "s_status s = Created"
  shows "\<exists>r v. interleave (start_prog K c) (waiting_prog K c sp ev pid rt fd) w (Inr ()) r v \<and>
      stored K v c = Some (set_running (set_stopped s))"
proof -
  have K: "obliging K" using assms(2) by (simp add: cooperative_def)
  obtain w2 where w2: "connect_create_process K c (log_op (Op_read (get_state_path c)) True w) = (Inr (), w2)"
    "in_place c w2" "stored K w2 c = Some s"
    by (rule acts_run [OF acts_connect [OF assms(1) K] assms(5,6)])
  have "connected c w2"
    using connect_hist [OF assms(1) w2(1)] by (auto simp: connected_def)
  then obtain r v where v: "intact K v c (set_stopped s)" "can_end (waiting_prog K c sp ev pid rt fd) w2 r v"
    by (rule waiting_ends [OF assms(1-4) w2(2,3)])
  from starting.late [where act = "connect_create_process K c", OF assms(1) K assms(3,5-7) w2(1) v] show ?thesis unfolding guarded_progs by blast
qed

text \<open>\<open>start\<close> while the supervisor waits.\<close>

lemma start_in_place:
  assumes "plain_id c" "obliging K" "state_codec K" "in_place c w" "stored K w c = Some s" "s_status s = Created"
  shows "\<exists>w'. start K c w = (Inr (), w')"
proof -
  have rd: "read_state_file K c w = (Inr s, log_op (Op_read (get_state_path c)) True w)"
    using assms(1,2,5) by (intro read_state_file_stored) (auto simp: obliging_def)
  obtain w2 where w2: "connect_create_process K c (log_op (Op_read (get_state_path c)) True w) = (Inr (), w2)"
    "in_place c w2" "stored K w2 c = Some s"
    by (rule acts_run [OF acts_connect [OF assms(1,2)] assms(4,5)])
  then have "intact K w2 c s" by (simp add: intact_def in_place_def)
  then obtain w3 where "update_state K c set_running w2 = (Inr (set_running s), w3)"
    using update_state_run [OF assms(1,3,2)] by metis
  with rd w2(1) assms(6) show ?thesis by (simp add: start_def thenE_def bindE_def ret_def)
qed

section \<open>Properties\<close>

text \<open>
  C9. \<open>start\<close> races with the end of a short-lived container. In every order of the steps of
  \<open>start\<close> and of the waiting supervisor, the state file ends as one of five texts: the stopped
  state, the running state, the running state without a pid, or one of the first two written
  over the other. The third does occur: the supervisor records the end first, and \<open>start\<close>,
  which succeeds, then stores running for a container that has no process.
\<close>

theorem start_exit_race:
  assumes "plain_id c" "cooperative K" "state_codec K" "event_codec K" "j_state_from_str K [] = Inl e"
    and "in_place c w" "stored K w c = Some s" "s_status s = Created"
  shows "(\<forall>r r' v. interleave (start_prog K c) (waiting_prog K c sp ev pid rt fd) w r r' v \<longrightarrow>
      contents c v \<in> {to_text K (set_stopped s), to_text K (set_running s), to_text K (set_running (set_stopped s)),
        overwrite (to_text K (set_stopped s)) (to_text K (set_running s)),
        overwrite (to_text K (set_running s)) (to_text K (set_stopped s))}) \<and>
    (\<exists>r' v. interleave (start_prog K c) (waiting_prog K c sp ev pid rt fd) w (Inr ()) r' v \<and>
      stored K v c = Some (set_running (set_stopped s)))"
proof (intro conjI allI impI)
  fix r r' v
  assume run: "interleave (start_prog K c) (waiting_prog K c sp ev pid rt fd) w r r' v"
  have K: "obliging K" using assms(2) by (simp add: cooperative_def)
  from starting.race [OF assms(1) K assms(3) acts_connect [OF assms(1) K] assms(5) simulates_waiting [OF assms(1-4)]
    disjI1 [OF refl] assms(6-8) run [unfolded guarded_progs]]
  show "contents c v \<in> {to_text K (set_stopped s), to_text K (set_running s), to_text K (set_running (set_stopped s)),
        overwrite (to_text K (set_stopped s)) (to_text K (set_running s)),
        overwrite (to_text K (set_running s)) (to_text K (set_stopped s))}" unfolding racing_texts_def .
qed (rule late_start [OF assms(1-4,6-8)])

text \<open>
  C19. \<open>pause\<close> and \<open>resume\<close> race with the end of the container too. In every order of their
  steps and the supervisor's, the state file ends as one of the five texts; and in one order the
  command succeeds and leaves the container paused, or running, without a process, although its
  end has been recorded.
\<close>

theorem freeze_exit_race:
  assumes "plain_id c" "cooperative K" "state_codec K" "event_codec K" "j_state_from_str K [] = Inl e"
    and "in_place c w" "stored K w c = Some s"
    and "s_status s = Running \<and> P = pause_prog K c \<and> f = set_paused \<or>
         s_status s = Paused \<and> P = resume_prog K c \<and> f = set_running"
  shows "(\<forall>r r' v. interleave P (supervise_prog K c sp ev pid (log_path c) rt) w r r' v \<longrightarrow> contents c v \<in> racing_texts K f s) \<and>
    (\<exists>r' v. interleave P (supervise_prog K c sp ev pid (log_path c) rt) w (Inr ()) r' v \<and>
      stored K v c = Some (f (set_stopped s)))"
proof -
  have K: "obliging K" using assms(2) by (simp add: cooperative_def)
  let ?Q = "supervise_prog K c sp ev pid (log_path c) rt"
  note sim = simulates_supervise [OF assms(1-4), where sp = sp and ev = ev and pid = pid and rt = rt]
  note fr = acts_freeze [OF assms(1) K]
  have 1: "contents c v \<in> racing_texts K f s" if "interleave P ?Q w r r' v" for r r' v
    using assms(8) that
      pausing.race [OF assms(1) K assms(3) fr assms(5) sim disjI1 [OF refl] assms(6,7)]
      resuming.race [OF assms(1) K assms(3) fr assms(5) sim disjI1 [OF refl] assms(6,7)]
    unfolding guarded_progs by blast
  have ends: "\<exists>w2 r v. set_cgroup K (cgroup_dir c) ''cgroup'' ''freeze'' x (log_op (Op_read (get_state_path c)) True w) = (Inr (), w2) \<and>
      intact K v c (set_stopped s) \<and> can_end ?Q w2 r v" for x
  proof -
    obtain w2 where w2: "set_cgroup K (cgroup_dir c) ''cgroup'' ''freeze'' x (log_op (Op_read (get_state_path c)) True w) = (Inr (), w2)"
      "in_place c w2" "stored K w2 c = Some s"
      by (rule acts_run [OF fr assms(6,7)])
    show ?thesis by (rule supervisor_ends [OF assms(3) sim nowait_progs(2) w2(2,3)]) (use w2(1) in blast)
  qed
  have 2: "\<exists>r' v. interleave P ?Q w (Inr ()) r' v \<and> stored K v c = Some (f (set_stopped s))"
    using assms(8)
  proof
    assume p: "s_status s = Running \<and> P = pause_prog K c \<and> f = set_paused"
    with ends [of "''1''"] pausing.late [OF assms(1) K assms(3,6,7)] show ?thesis unfolding guarded_progs by metis
  next
    assume p: "s_status s = Paused \<and> P = resume_prog K c \<and> f = set_running"
    with ends [of "''0''"] resuming.late [OF assms(1) K assms(3,6,7)] show ?thesis unfolding guarded_progs by metis
  qed
  from 1 2 show ?thesis by blast
qed

text \<open>
  C12. \<open>kill\<close> and the end of the container do not race: in every order of their steps, and
  whatever the stored state was when they began, the state file ends as exactly the stopped
  state without a pid.
\<close>

theorem kill_exit_race:
  assumes "plain_id c" "cooperative K" "state_codec K" "event_codec K" "j_state_from_str K [] = Inl e"
    and "in_place c w" "stored K w c = Some s"
    and "interleave (kill_prog K c) (supervise_prog K c sp ev pid (log_path c) rt) w r r' v"
  shows "stored K v c = Some (set_stopped s)"
proof -
  have K: "obliging K" using assms(2) by (simp add: cooperative_def)
  have s: "j_state_from_str K (contents c w) = Inr s" using stored_contents [OF assms(6), of K s] assms(7) by simp
  from interleave_simulates [OF assms(8) simulates_kill [OF assms(1) K assms(3)] simulates_supervise [OF assms(1-4)] assms(6)]
  obtain q q' where "in_place c v" "interleave (text_kill K) (text_update K set_stopped) (contents c w) q q' (contents c v)"
    by blast
  with text_kill_exit [OF assms(3,5) s this(2)] from_to_text [OF assms(3)] stored_contents [of c v K]
  show ?thesis by simp
qed

text \<open>
  C17. Two requests at once can lose a container. While \<open>kill\<close> runs, \<open>start\<close> (of a created
  container) or \<open>pause\<close> (of a running one) can read the state before it and write after it. In
  every order of their steps the state file ends as one of the five texts; and in one order both
  requests succeed and the killed container is left stored as running, or paused, without a
  process.
\<close>

theorem kill_command_race:
  assumes "plain_id c" "obliging K" "state_codec K" "j_state_from_str K [] = Inl e"
    and "in_place c w" "stored K w c = Some s" "can_kill s"
    and "s_status s = Created \<and> P = start_prog K c \<and> f = set_running \<or>
         s_status s = Running \<and> P = pause_prog K c \<and> f = set_paused"
  shows "(\<forall>r r' v. interleave P (kill_prog K c) w r r' v \<longrightarrow> contents c v \<in> racing_texts K f s) \<and>
    (\<exists>v. interleave P (kill_prog K c) w (Inr ()) (Inr ()) v \<and> stored K v c = Some (f (set_stopped s)))"
proof -
  have both: "contents c v \<in> racing_texts K f s"
    if "P = guarded_prog K c g err act f" "racing_command g f" "acts c act" "g s" "interleave P (kill_prog K c) w r r' v"
    for g err act r r' v
    using racing_command.race [OF that(2) assms(1-3) that(3) assms(4) simulates_kill [OF assms(1-3)] _ assms(5,6) that(4)] that(1,5)
    by blast
  have late: "\<exists>v. interleave P (kill_prog K c) w (Inr ()) (Inr ()) v \<and> stored K v c = Some (f (set_stopped s))"
    if P: "P = guarded_prog K c g err act f" and g: "racing_command g f" "acts c act" "g s" for g err act
  proof -
    obtain w2 where w2: "act (log_op (Op_read (get_state_path c)) True w) = (Inr (), w2)" "in_place c w2" "stored K w2 c = Some s"
      by (rule acts_run [OF g(2) assms(5,6)])
    obtain v where "intact K v c (set_stopped s)" "can_end (kill_prog K c) w2 (Inr ()) v"
      by (rule kill_ends [OF assms(1-3) w2(2,3) assms(7)])
    from racing_command.late [where act = act, OF g(1) assms(1-3,5,6) g(3) w2(1) this] P show ?thesis by blast
  qed
  note races = starting.racing_command_axioms pausing.racing_command_axioms
  note acts = acts_connect [OF assms(1,2)] acts_freeze [OF assms(1,2), of "''1''"]
  from assms(8) show ?thesis
  proof (elim disjE conjE)
    assume s: "s_status s = Created" and P: "P = start_prog K c" "f = set_running"
    note f = races(1) [folded P(2)]
    show ?thesis using both [OF _ f acts(1) s] late [OF _ f acts(1) s] P by (auto simp: guarded_progs)
  next
    assume s: "s_status s = Running" and P: "P = pause_prog K c" "f = set_paused"
    note f = races(2) [folded P(2)]
    show ?thesis using both [OF _ f acts(2) s] late [OF _ f acts(2) s] P by (auto simp: guarded_progs)
  qed
qed

section \<open>Two supervisors\<close>

lemma advance_update:
  "update_state K c f w = (Inr s, w') \<Longrightarrow> advance (bindP (update_state_prog K c f) k) w = advance (k s) w'"
  by (simp add: advance_bind nowait_progs run_update_state)

text \<open>The supervisor up to its socket.\<close>

lemma parent_to_socket:
  assumes "friendly K" "plain_id c" "state_codec K" "event_codec K" "slice_to c (min (length c) 9) = Some host" "intact K w c s"
  obtains w' where "\<And>fd. advance (create_parent_prog K c sp ev rt pid fd) w =
      advance (bindP (listen_prog K c) (\<lambda>x. bindP (accept_prog K c rt x) (supervise_prog K c sp (event_update_state Created ev) pid fd))) w'"
    "intact K w' c (set_created pid s)" "\<And>q. q \<noteq> state_comps c \<Longrightarrow> node_at w' q = node_at w q" "calm w w'"
proof -
  let ?ev1 = "event_update_state Created ev"
  obtain u1 w1 u2 w2 u3 w3 u4 w4 w5 where 1: "create_network K c pid w = (Inr u1, w1)"
    and 2: "set_cgroup K (get_child_cgroup_path c) ''cpu'' ''max'' ''100000 100000'' w1 = (Inr u2, w2)"
    and 3: "set_cgroup K (get_child_cgroup_path c) ''memory'' ''max'' ''256M'' w2 = (Inr u3, w3)"
    and 4: "notify K sp ?ev1 w3 = (Inr u4, w4)" and 5: "update_state K c (set_created pid) w4 = (Inr (set_created pid s), w5)"
      "intact K w5 c (set_created pid s)" "\<And>q. q \<noteq> state_comps c \<Longrightarrow> node_at w5 q = node_at w q"
    by (rule parent_front_run [OF assms]) (rule that)
  show ?thesis
  proof (rule that)
    show "intact K w5 c (set_created pid s)" by (rule 5(2))
    show "node_at w5 q = node_at w q" if "q \<noteq> state_comps c" for q by (rule 5(3) [OF that])
    show "calm w w5"
      by (rule calm_trans [OF silent_calm [OF silent_create_network 1] calm_trans [OF silent_calm [OF silent_steps(9) 2]
        calm_trans [OF silent_calm [OF silent_steps(9) 3] calm_trans [OF emits_calm [OF emits_notify_calm 4]
        silent_calm [OF silent_steps(6) 5(1)]]]]])
  qed (simp add: create_parent_prog_def Let_def advance_bind 1 2 3 4 advance_update [OF 5(1)])
qed

lemma nowait_supervisor: "nowait (listen_prog K c)" "nowait (create_front_prog K' c cfg sp)"
  by (auto simp: listen_prog_def create_front_prog_def write_state_prog_def Let_def intro!: nowait_bindP split: sum.split)

lemma listen_run:
  assumes "obliging K" "plain_id c" "node_at w (bundle_comps c) = Some Dir"
  shows "node_at w (socket_comps c) = None \<Longrightarrow> \<exists>fd w'. run_prog (listen_prog K c) w = (Inr fd, w') \<and>
      node_at w' (socket_comps c) = Some Sock \<and> \<not> connected c w' \<and> (\<forall>q. q \<noteq> socket_comps c \<longrightarrow> node_at w' q = node_at w q)"
    and "node_at w (socket_comps c) = Some n \<Longrightarrow> \<exists>w'. run_prog (listen_prog K c) w =
      (Inl (Fail (from_runtime (runtime_error.BindFailure EADDRINUSE))), w') \<and> node_at w' = node_at w"
  using assms
  by (simp_all add: listen_prog_def run_prog_eqs get_socket_fd_def nix_int_def nix_bind_def bind_errno_def fs_set_permissions_def
      obliging_def Let_def bindE_def map_err_def comp_simps is_dir_def connected_def)

lemma silent_listen: "silent (run_prog (listen_prog K c))"
  unfolding listen_prog_def get_socket_fd_def Let_def run_prog_eqs run_atom by (intro frames; simp)

text \<open>A supervisor that found no bundle, up to where it waits for \<open>start\<close> or finds the socket taken.\<close>

lemma create_found_run:
  assumes "friendly K" "plain_id c" "state_codec K" "event_codec K" "slice_to c (min (length c) 9) = Some host"
    and "usable c w" "\<not> is_pseudo (norm_path (k_cwd K) (cfg @ ''/config.json''))"
    and "node_at w (norm_path (k_cwd K) (cfg @ ''/config.json'')) = Some (File raw)"
    and "j_config_from_str K raw = Inr config" "get_root_path config \<noteq> []" "get_process_args config = Some (a # as)"
    and home: "H = {[''run''], [''run'', ''clonebox''], bundle_comps c}"
  obtains rt pid u q w' where "create_front K c cfg sp w = (Inr (config, log_path c, rt, pid), u)" "pid \<noteq> 0"
    "advance (create_parent_prog K c sp (Event_new c Creating (Some 0)) rt pid (log_path c)) u = (q, w')"
    "advance (create_found_prog K c cfg sp) w = (q, w')" "calm u w'"
    "if node_at w (socket_comps c) = None
     then (\<exists>fd. q = waiting_prog K c sp (Event_new c Created (Some 0)) pid rt fd) \<and>
       node_at w' (socket_comps c) = Some Sock \<and> \<not> connected c w'
     else q = Halt (Inl (Fail (from_runtime (runtime_error.BindFailure EADDRINUSE))))"
    "intact K w' c (set_created pid (State_new (c_oci_version config) c Creating None (get_bundle_path c) None))"
    "\<And>x. x \<notin> H \<union> {log_comps c, state_comps c, socket_comps c} \<Longrightarrow> node_at w' x = node_at w x" "usable c w'"
proof -
  note co = friendly_cooperative [OF assms(1)]
  note ob = cooperative_obliging [OF co]
  let ?ev = "Event_new c Creating (Some 0)"
  let ?st = "State_new (c_oci_version config) c Creating None (get_bundle_path c) None"
  obtain rt pid w1 where front: "create_front K c cfg sp w = (Inr (config, log_path c, rt, pid), w1)" "pid \<noteq> 0" "intact K w1 c ?st"
    "usable c w1" and n1: "\<And>x. x \<notin> {[''run''], [''run'', ''clonebox''], bundle_comps c, log_comps c, state_comps c} \<Longrightarrow>
      node_at w1 x = node_at w x"
    by (rule create_front_ends [OF co assms(2-4,6-11)]) (rule that)
  let ?tail = "\<lambda>x. bindP (accept_prog K c rt x) (supervise_prog K c sp (event_update_state Created ?ev) pid (log_path c))"
  obtain w2 where run2: "advance (create_parent_prog K c sp ?ev rt pid (log_path c)) w1 = advance (bindP (listen_prog K c) ?tail) w2"
    and i2: "intact K w2 c (set_created pid ?st)" and n2: "\<And>x. x \<noteq> state_comps c \<Longrightarrow> node_at w2 x = node_at w1 x"
    and calm2: "calm w1 w2"
    by (rule parent_to_socket [OF assms(1-5) front(3)]) (rule that)
  have found: "advance (create_found_prog K c cfg sp) w = advance (create_parent_prog K c sp ?ev rt pid (log_path c)) w1"
    using front(1,2) by (simp add: create_found_prog_def advance_bind nowait_supervisor run_create_front)
  have ne: "state_comps c \<notin> H" "log_comps c \<notin> H" "socket_comps c \<notin> H" "socket_comps c \<noteq> state_comps c"
    "socket_comps c \<noteq> log_comps c"
    by (simp_all add: home bundle_comps_def log_comps_def state_comps_def socket_comps_def)
  have sock: "node_at w2 (socket_comps c) = node_at w (socket_comps c)"
    using n1(1) [of "socket_comps c"] n2 ne by (simp add: home)
  have dir2: "node_at w2 (bundle_comps c) = Some Dir" and st2: "stored K w2 c = Some (set_created pid ?st)"
    using i2 by (simp_all add: intact_def)
  have nodes: "node_at v x = node_at w x"
    if "x \<notin> H \<union> {log_comps c, state_comps c, socket_comps c}" "\<forall>x. x \<noteq> socket_comps c \<longrightarrow> node_at v x = node_at w2 x" for v x
    using that n1 n2 by (simp add: home)
  have use: "usable c v" "intact K v c (set_created pid ?st)"
    if "\<forall>x. x \<noteq> socket_comps c \<longrightarrow> node_at v x = node_at w2 x" for v
  proof -
    have v: "node_at v x = node_at w1 x" if "x \<in> H \<union> {log_comps c}" for x
    proof -
      have "x \<noteq> socket_comps c" "x \<noteq> state_comps c" using that ne by (auto simp: log_comps_def state_comps_def)
      then show ?thesis using \<open>\<forall>x. x \<noteq> socket_comps c \<longrightarrow> node_at v x = node_at w2 x\<close> n2 by simp
    qed
    have st: "stored K v c = Some (set_created pid ?st)"
      using st2 that ne(4) stored_cong [of v c w2 K] by simp
    moreover have "node_at v (bundle_comps c) = Some Dir"
      using that dir2 by (simp add: bundle_comps_def socket_comps_def)
    ultimately show "intact K v c (set_created pid ?st)" by (simp add: intact_def)
    have "node_at v [''run''] = node_at w1 [''run'']" "node_at v [''run'', ''clonebox''] = node_at w1 [''run'', ''clonebox'']"
      "node_at v (bundle_comps c) = node_at w1 (bundle_comps c)" "node_at v (log_comps c) = node_at w1 (log_comps c)"
      by (rule v, simp add: home)+
    with stored_file [OF st] front(4) show "usable c v" unfolding usable_def by fastforce
  qed
  show ?thesis
  proof (cases "node_at w (socket_comps c)")
    case None
    then obtain fd w' where w': "run_prog (listen_prog K c) w2 = (Inr fd, w')" "node_at w' (socket_comps c) = Some Sock"
      "\<not> connected c w'" "\<forall>q. q \<noteq> socket_comps c \<longrightarrow> node_at w' q = node_at w2 q"
      using listen_run(1) [OF ob assms(2) dir2] sock by auto
    have run: "advance (create_parent_prog K c sp ?ev rt pid (log_path c)) w1 =
        (waiting_prog K c sp (Event_new c Created (Some 0)) pid rt fd, w')"
      using w'(1) unfolding run2
      by (simp add: advance_bind nowait_supervisor waiting_prog_def accept_prog_def event_update_state_def Event_new_def)
    have "calm w1 w'" by (rule calm_trans [OF calm2 silent_calm [OF silent_listen w'(1)]])
    from that [OF front(1,2) run found [unfolded run] this _ use(2) [OF w'(4)] nodes [OF _ w'(4)] use(1) [OF w'(4)]] show ?thesis
      using None w'(2,3) by auto
  next
    case (Some n)
    then obtain w' where w': "run_prog (listen_prog K c) w2 =
        (Inl (Fail (from_runtime (runtime_error.BindFailure EADDRINUSE))), w')" "node_at w' = node_at w2"
      using listen_run(2) [OF ob assms(2) dir2] sock by auto
    then have n': "\<forall>q. q \<noteq> socket_comps c \<longrightarrow> node_at w' q = node_at w2 q" by simp
    have run: "advance (create_parent_prog K c sp ?ev rt pid (log_path c)) w1 =
        (Halt (Inl (Fail (from_runtime (runtime_error.BindFailure EADDRINUSE)))), w')"
      using w'(1) unfolding run2 by (simp add: advance_bind nowait_supervisor)
    have "calm w1 w'" by (rule calm_trans [OF calm2 silent_calm [OF silent_listen w'(1)]])
    from that [OF front(1,2) run found [unfolded run] this _ use(2) [OF n'] nodes [OF _ n'] use(1) [OF n']] show ?thesis
      using Some by auto
  qed
qed

text \<open>
  What the kernel promises of pids, as far as it is used here: the pid of a process that nobody has
  waited for is not given to the process started next.
\<close>

definition live_pids :: "('k) kernel_scheme \<Rightarrow> bool" where
  "live_pids K \<longleftrightarrow>
     (\<forall>a b u u' v. hist u' = hist u @ [(Op_clone3 a, True)] \<and> calm u' v \<longrightarrow> k_int K (Op_clone3 b) v \<noteq> k_int K (Op_clone3 a) u)"

lemma fronts_differ:
  assumes "create_front K c cfg sp w = (Inr (config, fd, rt, pid), u)" "calm u v"
    and "create_front K c cfg' sp' v = (Inr (config', fd', rt', pid'), u')" "live_pids K"
  shows "pid' \<noteq> pid"
proof -
  obtain wc a where 1: "pid = k_int K (Op_clone3 a) wc" "hist u = hist wc @ [(Op_clone3 a, True)]"
    by (rule create_front_ok [OF assms(1)])
  obtain wd b where 2: "calm v wd" "pid' = k_int K (Op_clone3 b) wd"
    by (rule create_front_ok [OF assms(3)])
  from calm_trans [OF assms(2) 2(1)] 1 2(2) assms(4) show ?thesis unfolding live_pids_def by blast
qed

text \<open>The clone of a supervisor is its own: a task of the pool goes up to it, and from it to its await.\<close>

lemma pool_front:
  assumes "create_front K c cfg sp w = (Inr (config, fd, rt, pid), u)" "pid \<noteq> 0"
  shows "pool_run env new (ps @ create_found_prog K c cfg sp # qs, w)
    (ps @ create_parent_prog K c sp (Event_new c Creating (Some 0)) rt pid fd # qs, u)"
proof -
  have "run_prog (create_front_prog K c cfg sp) w = (Inr (config, fd, rt, pid), u)"
    using assms(1) by (simp add: run_create_front)
  from pool_prefix [OF nowait_supervisor(2) this, where k = "\<lambda>(config, log_fd, runtime, child_pid).
      if child_pid = 0 then atom (create_child K (get_bundle_path c) config runtime log_fd)
      else create_parent_prog K c sp (Event_new c Creating (Some 0)) runtime child_pid log_fd", of env new ps qs] assms(2)
  show ?thesis by (simp add: create_found_prog_def)
qed

text \<open>Both can pass the check before either goes on.\<close>

lemma both_checked:
  assumes "obliging K" "plain_id c" "fresh c w"
  shows "pool_run env new ([create_prog K c cfg sp1, create_prog K c cfg sp2], w)
    ([create_found_prog K c cfg sp1, create_found_prog K c cfg sp2],
     log_op (Op_exists (get_bundle_path c)) True (log_op (Op_exists (get_bundle_path c)) True w))"
proof -
  let ?op = "log_op (Op_exists (get_bundle_path c)) True"
  let ?P = "\<lambda>sp. create_prog K c cfg sp" and ?F = "\<lambda>sp. create_found_prog K c cfg sp"
  have ex: "path_exists K (get_bundle_path c) x = (Inr False, ?op x)" if "node_at x = node_at w" for x
    using assms that by (simp add: path_exists_def fs_exists_def Let_def obliging_def fresh_def)
  have check: "pool_run env new (ps @ ?P sp # qs, x) (ps @ ?F sp # qs, ?op x)" if "node_at x = node_at w" for ps sp qs x
    using pool_prefix [of "atom (path_exists K (get_bundle_path c))" x False "?op x" env new ps
      "\<lambda>found. if found then Halt (Inl (Fail (ContainerAlreadyExists c))) else ?F sp" qs] ex [OF that]
    by (simp add: create_prog_def)
  have "pool_run env new ([?P sp1, ?P sp2], w) ([?F sp1, ?P sp2], ?op w)" using check [of w "[]"] by simp
  also have "pool_run env new ([?F sp1, ?P sp2], ?op w) ([?F sp1, ?F sp2], ?op (?op w))"
    using check [of "?op w" "[?F sp1]"] by (simp add: fun_eq_iff)
  finally show ?thesis .
qed

text \<open>
  C18. Two creations of one id can both succeed in part. The check for the bundle and its making are
  two steps, so two supervisors of one unused id can both pass the check: the first clones a
  process, \<open>pid1\<close>, and waits for \<open>start\<close> on the container's socket; the second then clones another,
  \<open>pid2\<close>, finds the socket taken and gives up. The state file is left naming \<open>pid2\<close>, the process of
  the one that gave up, and on a kernel that does not reuse the pid of a process that nobody has
  waited for, that is not the process that waits to be started.
\<close>

theorem create_create_race:
  assumes "friendly K" "plain_id c" "state_codec K" "event_codec K"
    and "\<not> (9 < length c \<and> of_char (c ! 9) \<in> {128..<192 :: nat})"
    and "fresh c w" "\<not> is_pseudo (norm_path (k_cwd K) (cfg @ ''/config.json''))"
    and "node_at w (norm_path (k_cwd K) (cfg @ ''/config.json'')) = Some (File raw)"
    and "j_config_from_str K raw = Inr config" "get_root_path config \<noteq> []" "get_process_args config = Some (a # as)"
  shows "\<exists>pid1 pid2 rt1 rt2 fd w1 u1 w2 u2 w3.
    pool_run env new ([create_prog K c cfg sp1, create_prog K c cfg sp2], w)
      ([create_found_prog K c cfg sp1, create_found_prog K c cfg sp2], w1) \<and>
    create_front K c cfg sp1 w1 = (Inr (config, log_path c, rt1, pid1), u1) \<and>
    pool_run env new ([create_found_prog K c cfg sp1, create_found_prog K c cfg sp2], w1)
      ([create_parent_prog K c sp1 (Event_new c Creating (Some 0)) rt1 pid1 (log_path c), create_found_prog K c cfg sp2], u1) \<and>
    pool_run env new
      ([create_parent_prog K c sp1 (Event_new c Creating (Some 0)) rt1 pid1 (log_path c), create_found_prog K c cfg sp2], u1)
      ([waiting_prog K c sp1 (Event_new c Created (Some 0)) pid1 rt1 fd, create_found_prog K c cfg sp2], w2) \<and>
    create_front K c cfg sp2 w2 = (Inr (config, log_path c, rt2, pid2), u2) \<and>
    pool_run env new ([waiting_prog K c sp1 (Event_new c Created (Some 0)) pid1 rt1 fd, create_found_prog K c cfg sp2], w2)
      ([waiting_prog K c sp1 (Event_new c Created (Some 0)) pid1 rt1 fd,
        create_parent_prog K c sp2 (Event_new c Creating (Some 0)) rt2 pid2 (log_path c)], u2) \<and>
    pool_run env new
      ([waiting_prog K c sp1 (Event_new c Created (Some 0)) pid1 rt1 fd,
        create_parent_prog K c sp2 (Event_new c Creating (Some 0)) rt2 pid2 (log_path c)], u2)
      ([waiting_prog K c sp1 (Event_new c Created (Some 0)) pid1 rt1 fd,
        Halt (Inl (Fail (from_runtime (runtime_error.BindFailure EADDRINUSE))))], w3) \<and>
    map_option (\<lambda>s. (s_status s, s_pid s)) (stored K w3 c) = Some (Created, Some pid2) \<and>
    (live_pids K \<longrightarrow> pid1 \<noteq> pid2)"
proof -
  have slice: "slice_to c (min (length c) 9) = Some (take 9 c)" using assms(5) slice_to_9 [of c] by presburger
  note ob = cooperative_obliging [OF friendly_cooperative [OF assms(1)]]
  let ?op = "log_op (Op_exists (get_bundle_path c)) True" and ?q = "norm_path (k_cwd K) (cfg @ ''/config.json'')"
  define H where "H = {[''run''], [''run'', ''clonebox''], bundle_comps c}"
  let ?P = "\<lambda>sp. create_prog K c cfg sp" and ?F = "\<lambda>sp. create_found_prog K c cfg sp"
  let ?outcome = "\<lambda>w sp pid rt q w'. if node_at w (socket_comps c) = None
     then (\<exists>fd. q = waiting_prog K c sp (Event_new c Created (Some 0)) pid rt fd) \<and>
       node_at w' (socket_comps c) = Some Sock \<and> \<not> connected c w'
     else q = Halt (Inl (Fail (from_runtime (runtime_error.BindFailure EADDRINUSE))))"
  let ?G = "\<lambda>sp rt pid. create_parent_prog K c sp (Event_new c Creating (Some 0)) rt pid (log_path c)"
  let ?w1 = "?op (?op w)"
  have w1: "usable c ?w1" "node_at ?w1 ?q = Some (File raw)" "node_at ?w1 (socket_comps c) = None"
    using fresh_usable [OF assms(6)] assms(8) fresh_below(4) [OF assms(6)] by (simp_all add: usable_def)
  obtain rt1 pid1 u1 q1 w2 where 1: "create_front K c cfg sp1 ?w1 = (Inr (config, log_path c, rt1, pid1), u1)" "pid1 \<noteq> 0"
    "advance (?G sp1 rt1 pid1) u1 = (q1, w2)" "calm u1 w2" "?outcome ?w1 sp1 pid1 rt1 q1 w2"
    and n2: "\<And>x. x \<notin> H \<union> {log_comps c, state_comps c, socket_comps c} \<Longrightarrow> node_at w2 x = node_at ?w1 x"
    and use2: "usable c w2"
    by (rule create_found_run [OF assms(1-4) slice w1(1) assms(7) w1(2) assms(9-11) H_def]) (rule that)
  from 1(5) w1(3) obtain fd where fd: "q1 = waiting_prog K c sp1 (Event_new c Created (Some 0)) pid1 rt1 fd"
    and s2: "node_at w2 (socket_comps c) = Some Sock" by auto
  have q: "?q \<notin> H \<union> {log_comps c, state_comps c, socket_comps c}"
    using assms(6,8) fresh_below [OF assms(6)] by (auto simp: H_def fresh_def)
  have c2: "node_at w2 ?q = Some (File raw)" using n2 [OF q] w1(2) by simp
  obtain rt2 pid2 u2 q2 w3 where 2: "create_front K c cfg sp2 w2 = (Inr (config, log_path c, rt2, pid2), u2)" "pid2 \<noteq> 0"
    "advance (?G sp2 rt2 pid2) u2 = (q2, w3)" "?outcome w2 sp2 pid2 rt2 q2 w3"
    and st3: "intact K w3 c (set_created pid2 (State_new (c_oci_version config) c Creating None (get_bundle_path c) None))"
    by (rule create_found_run [OF assms(1-4) slice use2 assms(7) c2 assms(9-11) H_def]) (rule that)
  have both: "pool_run env new ([?P sp1, ?P sp2], w) ([?F sp1, ?F sp2], ?w1)" by (rule both_checked [OF ob assms(2,6)])
  have stages: "pool_run env new ([?F sp1, ?F sp2], ?w1) ([?G sp1 rt1 pid1, ?F sp2], u1)"
    "pool_run env new ([?G sp1 rt1 pid1, ?F sp2], u1) ([q1, ?F sp2], w2)"
    "pool_run env new ([q1, ?F sp2], w2) ([q1, ?G sp2 rt2 pid2], u2)"
    "pool_run env new ([q1, ?G sp2 rt2 pid2], u2) ([q1, q2], w3)"
    using pool_front [OF 1(1,2), of env new "[]"] pool_advance [OF 1(3), of env new "[]"]
      pool_front [OF 2(1,2), of env new "[q1]" "[]"] pool_advance [OF 2(3), of env new "[q1]" "[]"] by simp_all
  have q2: "q2 = Halt (Inl (Fail (from_runtime (runtime_error.BindFailure EADDRINUSE))))" using 2(4) s2 by simp
  have st: "map_option (\<lambda>s. (s_status s, s_pid s)) (stored K w3 c) = Some (Created, Some pid2)"
    using st3 by (simp add: intact_def set_state_defs)
  have "live_pids K \<longrightarrow> pid1 \<noteq> pid2" using fronts_differ [OF 1(1,4) 2(1)] by blast
  with both 1(1) stages 2(1) st show ?thesis unfolding fd q2 by blast
qed

end
