(* ===== verification/Tasks.thy ===== *)
theory Tasks
  imports System Race
begin

text \<open>
  The requests of \<open>cloneboxd/src/daemon.rs\<close> as tasks. The server runs every request in a task of
  its own and the runtime has several threads, so the requests interleave with each other, with
  the event loop and with the supervisors. A task is the program of its steps: an access to a
  shared file, a block that holds the mutex, or the spawning of the supervisor is one step, and
  \<open>create\<close> and \<open>wait\<close> end with an await. A client that goes away cancels a task that waits.
\<close>

section \<open>The tasks\<close>

text \<open>A program of the runtime inside the daemon, its errors converted.\<close>

primrec lift_prog :: "('e \<Rightarrow> 'f) \<Rightarrow> (world, 'e, 'a) prog \<Rightarrow> (Cloneboxd, 'f, 'a) prog" where
  "lift_prog h (Halt r) = Halt (map_sum (map_stop h) id r)"
| "lift_prog h (Step f) = Step (\<lambda>d. map_prod id (\<lambda>w. d\<lparr>d_world := w\<rparr>) (map_prod (lift_prog h) id (f (d_world d))))"
| "lift_prog h (Await g p) = Await (\<lambda>d. g (d_world d)) (lift_prog h p)"

type_synonym rpc_task = "(Cloneboxd, status, response) prog"

definition answer :: "('a \<Rightarrow> response) \<Rightarrow> (status + 'a) option \<Rightarrow> status stop + response" where
  "answer resp r = (case r of Some (Inr x) \<Rightarrow> Inr (resp x) | Some (Inl e) \<Rightarrow> Inl (Fail e) | None \<Rightarrow> Inl Panicked)"

definition created_ready :: "nat \<Rightarrow> Cloneboxd \<Rightarrow> bool" where
  "created_ready rx d \<longleftrightarrow> created_ch d ! rx \<noteq> Pending"

definition created_answer :: "nat \<Rightarrow> rpc_task" where
  "created_answer rx = atom (\<lambda>d. (answer (\<lambda>_. CreateResponse) (create_reply rx d), d))"

definition exit_ready :: "nat \<Rightarrow> Cloneboxd \<Rightarrow> bool" where
  "exit_ready rx d \<longleftrightarrow> exit_ch d ! rx \<noteq> Pending"

definition exit_answer :: "('k) daemon_kernel_scheme \<Rightarrow> nat \<Rightarrow> rpc_task" where
  "exit_answer K rx = atom (\<lambda>d. (answer WaitResponse (wait_reply K rx d), d))"

definition create_task :: "('k) daemon_kernel_scheme \<Rightarrow> string \<Rightarrow> string \<Rightarrow> rpc_task" where
  "create_task K cid cfg =
     bindP (atom (map_err (\<lambda>e. Status Internal (k_io_text K e)) (shim_path K))) (\<lambda>path_to_exec.
     bindP (atom (insert_new cid)) (\<lambda>created_rx.
     bindP (atom (spawn_shim K path_to_exec cid cfg)) (\<lambda>_.
     Await (created_ready created_rx) (created_answer created_rx))))"

text \<open>The handlers that call the runtime and then lock the table.\<close>

definition locked_task ::
    "('k) daemon_kernel_scheme \<Rightarrow> (world, core_error, unit) prog \<Rightarrow> unit rpc \<Rightarrow> response \<Rightarrow> rpc_task" where
  "locked_task K p section resp =
     bindP (lift_prog (to_status K) p) (\<lambda>_. bindP (atom section) (\<lambda>_. Halt (Inr resp)))"

definition wait_task :: "('k) daemon_kernel_scheme \<Rightarrow> string \<Rightarrow> rpc_task" where
  "wait_task K cid = bindP (atom (daemon_wait cid)) (\<lambda>exit_rx. Await (exit_ready exit_rx) (exit_answer K exit_rx))"

fun list_prog :: "('k) daemon_kernel_scheme \<Rightarrow> string list \<Rightarrow> ProtoState list \<Rightarrow> rpc_task" where
  "list_prog K [] states = Halt (Inr (ListResponse states))"
| "list_prog K (i # ids) states =
     bindP (atom (attempt (core K (state K i))))
       (\<lambda>r. case r of Inr s \<Rightarrow> list_prog K ids (states @ [ProtoState_from s]) | Inl _ \<Rightarrow> list_prog K ids states)"

definition table_ids :: "('k) daemon_kernel_scheme \<Rightarrow> string list rpc" where
  "table_ids K d = (Inr (k_order K (map fst (containers d)) (d_world d)), d)"

fun task :: "('k) daemon_kernel_scheme \<Rightarrow> request \<Rightarrow> rpc_task" where
  "task K (CreateRequest i c) = create_task K i c"
| "task K (StartRequest i) = locked_task K (start_prog K i) (set_entry_state i Running) StartResponse"
| "task K (StateRequest i) =
     bindP (atom (core K (state K i))) (\<lambda>s. Halt (Inr (StateResponse (ProtoState_from s))))"
| "task K (KillRequest i) = locked_task K (kill_prog K i) (set_entry_state i Stopped) KillResponse"
| "task K (DeleteRequest i f) = locked_task K (delete_prog K i f) (remove_if_stopped i) DeleteResponse"
| "task K (PauseRequest i) = locked_task K (pause_prog K i) (set_entry_state i Paused) PauseResponse"
| "task K (ResumeRequest i) = locked_task K (resume_prog K i) (set_entry_state i Running) ResumeResponse"
| "task K (ExecRequest i c) = bindP (atom daemon_exec) (\<lambda>_. Halt (Inr ExecResponse))"
| "task K (WaitRequest i) = wait_task K i"
| "task K ListRequest = bindP (atom (table_ids K)) (\<lambda>ids. list_prog K ids [])"

text \<open>What happens beside the requests: a line of an event arrives, or another process changes the world.\<close>

definition environment :: "('k) event_kernel_scheme \<Rightarrow> Cloneboxd \<Rightarrow> Cloneboxd \<Rightarrow> bool" where
  "environment K d d' \<longleftrightarrow> (\<exists>line. d' = event_line K line d) \<or> (\<exists>w. d' = d\<lparr>d_world := w\<rparr>)"

section \<open>A task alone is its handler\<close>

lemma run_lift: "run_prog (lift_prog h p) = map_err h (on_world (run_prog p))"
proof (induction p)
  case (Halt r)
  then show ?case
    by (cases r) (simp_all add: fun_eq_iff run_prog.simps(1) map_err_def on_world_def)
next
  case (Step f)
  have "run_prog (lift_prog h (fst (f w))) = map_err h (on_world (run_prog (fst (f w))))" for w
    using Step [of "f w" "fst (f w)"] by (simp add: fsts.simps prod_eq_iff)
  then show ?case
    by (auto simp: fun_eq_iff map_err_def on_world_def Let_def case_prod_unfold split: sum.splits)
next
  case (Await g p)
  then show ?case by simp
qed

lemma nowait_lift: "nowait p \<Longrightarrow> nowait (lift_prog h p)"
proof (induction p)
  case (Step f)
  then have "nowait (lift_prog h (fst (f w)))" for w
    using Step.IH [of "f w" "fst (f w)"] by (simp add: fsts.simps prod_eq_iff)
  then show ?case by simp
qed simp_all

lemma nowait_commands:
  "nowait (start_prog K c)" "nowait (pause_prog K c)" "nowait (resume_prog K c)" "nowait (delete_prog K c f)"
  by (auto simp: start_prog_def pause_prog_def resume_prog_def delete_prog_def nowait_cleanup intro!: nowait_bindP nowait_progs)

lemma nowait_list: "nowait (list_prog K ids ss)"
  by (induction ids arbitrary: ss) (auto intro!: nowait_bindP split: sum.splits)

lemma run_list: "run_prog (list_prog K ids ss) = bindE (list_states K ids ss) (\<lambda>ss. ret (ListResponse ss))"
proof (induction ids arbitrary: ss)
  case (Cons i ids)
  then show ?case
    by (simp add: run_prog_eqs bindE_assoc) (rule arg_cong [where f = "bindE _"], simp add: fun_eq_iff split: sum.splits)
qed (simp add: run_prog_eqs)

text \<open>What is left of a task once its handler has returned or awaits.\<close>

fun rest :: "('k) daemon_kernel_scheme \<Rightarrow> status stop + outcome \<Rightarrow> rpc_task" where
  "rest K (Inl e) = Halt (Inl e)"
| "rest K (Inr (Ready resp)) = Halt (Inr resp)"
| "rest K (Inr (Await_created rx)) = Await (created_ready rx) (created_answer rx)"
| "rest K (Inr (Await_exit rx)) = Await (exit_ready rx) (exit_answer K rx)"

lemma advance_step: "advance (bindP (atom m) k) d =
    (case m d of (Inl e, d') \<Rightarrow> (Halt (Inl e), d') | (Inr x, d') \<Rightarrow> advance (k x) d')"
  by (simp add: advance_bind)

lemma advance_locked:
  assumes "nowait p" "run_prog p = m"
  shows "advance (locked_task K p section resp) d = map_prod (rest K) id (reply resp (thenE (core K m) section) d)"
  using assms
  by (simp add: locked_task_def advance_bind nowait_lift run_lift core_def reply_def bindE_def thenE_def ret_def
      split: prod.splits sum.splits)

lemma advance_list:
  "advance (list_prog K ids ss) d = map_prod (rest K) id (bindE (list_states K ids ss) (\<lambda>ss. ret (Ready (ListResponse ss))) d)"
  by (simp add: advance_nowait [OF nowait_list] run_list bindE_def ret_def split: prod.splits sum.splits)

text \<open>
  Run without interruption up to its end or its await, the task of a request leaves the daemon as
  the handler does, and has the handler's answer or waits for the channel of its receiver.
\<close>

lemma advance_task: "advance (task K req) d = map_prod (rest K) id (handle K req d)"
proof (cases req)
  case (CreateRequest i c)
  then show ?thesis
    by (simp add: create_task_def advance_step daemon_create_def bindE_def thenE_def ret_def split: prod.splits sum.splits)
next
  case ListRequest
  then show ?thesis by (simp add: advance_step table_ids_def advance_list daemon_list_def bindE_def)
qed (simp_all add: advance_locked [OF nowait_commands(1) run_start] advance_locked [OF nowait_progs(3) run_kill]
    advance_locked [OF nowait_commands(4) run_delete] advance_locked [OF nowait_commands(2) run_pause]
    advance_locked [OF nowait_commands(3) run_resume] daemon_start_def daemon_kill_def daemon_delete_def
    daemon_pause_def daemon_resume_def advance_step wait_task_def daemon_state_def reply_def thenE_def bindE_def ret_def
    split: prod.splits sum.splits)

section \<open>Many tasks\<close>

text \<open>What a task waits for: a channel of its own, whose cell exists.\<close>

definition waits_for :: "('k) daemon_kernel_scheme \<Rightarrow> (Cloneboxd \<Rightarrow> bool) \<Rightarrow> rpc_task \<Rightarrow> Cloneboxd \<Rightarrow> bool" where
  "waits_for K g p d \<longleftrightarrow>
     (\<exists>i < length (created_ch d). g = created_ready i \<and> p = created_answer i) \<or>
     (\<exists>j < length (exit_ch d). g = exit_ready j \<and> p = exit_answer K j)"

abbreviation task_safe :: "('k) daemon_kernel_scheme \<Rightarrow> rpc_task \<Rightarrow> Cloneboxd \<Rightarrow> bool" where
  "task_safe K \<equiv> safe table_step (waits_for K)"

lemma step_wf: "table_step d d' \<Longrightarrow> table_wf d'"
  by (simp add: table_step_def)

lemma step_lengths:
  "table_step d d' \<Longrightarrow> length (created_ch d) \<le> length (created_ch d') \<and> length (exit_ch d) \<le> length (exit_ch d')"
  by (simp add: table_step_def grows_def)

named_theorems safe_tasks \<open>tasks that only take steps of the table\<close>

lemma safe_halt [safe_tasks]: "task_safe K (Halt r) d"
  by (rule safe.halt)

text \<open>A step that keeps the table, and what follows it; the rest may use the step's result.\<close>

lemma safe_step:
  assumes "table_keeps m" "\<And>v x v'. table_step d v \<Longrightarrow> m v = (Inr x, v') \<Longrightarrow> table_step v v' \<Longrightarrow> task_safe K (k x) v'"
  shows "task_safe K (bindP (atom m) k) d"
  unfolding bind_atom
proof (rule safe.step)
  fix v
  assume v: "table_step d v"
  obtain r v' where m: "m v = (r, v')" by fastforce
  from table_keepsD [OF assms(1) m step_wf [OF v]] have "table_step v v'" .
  with m assms(2) [OF v, of _ v'] show "table_step v (snd (case m v of (Inl e, w') \<Rightarrow> (Halt (Inl e), w') | (Inr x, w') \<Rightarrow> (k x, w'))) \<and>
      task_safe K (fst (case m v of (Inl e, w') \<Rightarrow> (Halt (Inl e), w') | (Inr x, w') \<Rightarrow> (k x, w')))
        (snd (case m v of (Inl e, w') \<Rightarrow> (Halt (Inl e), w') | (Inr x, w') \<Rightarrow> (k x, w')))"
    by (cases r) (auto intro: safe.halt)
qed

lemma safe_steps [safe_tasks]:
  "table_keeps m \<Longrightarrow> (\<And>x v. task_safe K (k x) v) \<Longrightarrow> task_safe K (bindP (atom m) k) d"
  by (rule safe_step)

lemma safe_lift: "nowait p \<Longrightarrow> safe table_step waits (lift_prog h p) d"
proof (induction p arbitrary: d)
  case (Step f d)
  show ?case
    unfolding lift_prog.simps
  proof (rule safe.step)
    fix v
    let ?F = "\<lambda>d :: Cloneboxd. map_prod id (\<lambda>w. d\<lparr>d_world := w\<rparr>) (map_prod (lift_prog h) id (f (d_world d)))"
    assume "table_step d v"
    then show "table_step v (snd (?F v)) \<and> safe table_step waits (fst (?F v)) (snd (?F v))"
      using Step.IH [of "f (d_world v)" "fst (f (d_world v))"] Step.prems step_wf [of d v]
      by (simp add: fsts.simps prod_eq_iff)
  qed
qed (simp_all add: safe.halt)

lemma safe_locked:
  assumes "nowait p" "table_keeps section" "table_wf d"
  shows "task_safe K (locked_task K' p section resp) d"
  unfolding locked_task_def
proof (rule safe_bind)
  show "safe table_step (\<lambda>_ _ _. True) (lift_prog (to_status K') p) d" "nowait (lift_prog (to_status K') p)"
    using assms(1) by (simp_all add: safe_lift nowait_lift)
  show "table_step d d" using assms(3) by simp
  show "table_step v v" if "table_step u v" for u v using step_wf [OF that] by simp
qed (auto intro: safe_tasks assms table_step_trans)

lemma safe_list [safe_tasks]: "task_safe K (list_prog K' ids ss) d"
proof (induction ids arbitrary: ss d)
  case (Cons i ids)
  then show ?case
    by (auto simp: core_def intro!: safe_steps tables split: sum.split)
qed (simp add: safe_tasks)

lemma table_keeps_answer [tables]: "table_keeps (\<lambda>d. (h d, d))"
  by (simp add: moves_def table_move_def)

lemma safe_atom: "table_keeps m \<Longrightarrow> task_safe K (atom m) d"
  using safe_steps [of m K "\<lambda>x. Halt (Inr x)"] by (simp add: bindP_return safe.halt)

lemma safe_answers: "task_safe K (created_answer i) d" "task_safe K (exit_answer K j) d"
  by (simp_all add: created_answer_def exit_answer_def safe_atom table_keeps_answer)

lemma waits_forI:
  "i < length (created_ch d) \<Longrightarrow> waits_for K (created_ready i) (created_answer i) d"
  "j < length (exit_ch d) \<Longrightarrow> waits_for K (exit_ready j) (exit_answer K j) d"
  by (auto simp: waits_for_def)

lemma safe_await_created: "i < length (created_ch d) \<Longrightarrow> task_safe K (Await (created_ready i) (created_answer i)) d"
  by (rule safe.await) (metis waits_forI(1) step_lengths order_less_le_trans, rule safe_answers)

lemma safe_await_exit: "j < length (exit_ch d) \<Longrightarrow> task_safe K (Await (exit_ready j) (exit_answer K j)) d"
  by (rule safe.await) (metis waits_forI(2) step_lengths order_less_le_trans, rule safe_answers)

lemma insert_new_length: "insert_new c d = (Inr i, d') \<Longrightarrow> i < length (created_ch d')"
  by (auto simp: insert_new_def Let_def drop_entry_def split: option.splits)

lemma daemon_wait_length: "daemon_wait c d = (Inr i, d') \<Longrightarrow> i < length (exit_ch d')"
  by (auto simp: daemon_wait_def Let_def split: option.splits)

lemma safe_create: "task_safe K (create_task K' c cfg) d"
  unfolding create_task_def
proof (rule safe_steps)
  fix path v
  show "task_safe K (bindP (atom (insert_new c)) (\<lambda>rx. bindP (atom (spawn_shim K' path c cfg)) (\<lambda>_.
      Await (created_ready rx) (created_answer rx)))) v"
  proof (rule safe_step)
    fix v0 i v1
    assume i: "insert_new c v0 = (Inr i, v1)"
    show "task_safe K (bindP (atom (spawn_shim K' path c cfg)) (\<lambda>_. Await (created_ready i) (created_answer i))) v1"
    proof (rule safe_step)
      fix u x u1
      assume "table_step v1 u" "table_step u u1"
      then show "task_safe K (Await (created_ready i) (created_answer i)) u1"
        using insert_new_length [OF i] step_lengths [of v1 u] step_lengths [of u u1]
        by (intro safe_await_created) linarith
    qed (auto simp: spawn_shim_def intro: tables)
  qed (rule tables)
qed (intro tables)

lemma safe_wait: "task_safe K (wait_task K c) d"
  unfolding wait_task_def
  by (rule safe_step) (auto intro: tables safe_await_exit daemon_wait_length)

lemma table_keeps_ids [tables]: "table_keeps (table_ids K)" "table_keeps daemon_exec"
  by (auto simp: table_ids_def daemon_exec_def intro: tables table_keepsI)

lemma task_is_safe: "table_wf d \<Longrightarrow> task_safe K (task K req) d"
proof (cases req)
  case (StateRequest c)
  then show ?thesis by (auto simp: core_def intro!: safe_steps tables safe_halt)
qed (auto intro: safe_create safe_wait safe_locked nowait_commands nowait_progs tables safe_tasks)

lemma environment_step: "table_wf d \<Longrightarrow> environment K d d' \<Longrightarrow> table_step d d'"
  by (auto simp: environment_def table_event_line)

interpretation tasks: rely_guarantee table_wf table_step "environment K" "range (task K)" "waits_for K"
  for K :: "('k) daemon_kernel_scheme"
  by unfold_locales (auto intro: table_step_trans step_wf environment_step task_is_safe)

lemma run_answers:
  "run_prog (created_answer i) d = (answer (\<lambda>_. CreateResponse) (create_reply i d), d)"
  "run_prog (exit_answer K j) d = (answer WaitResponse (wait_reply K j d), d)"
  by (simp_all add: created_answer_def exit_answer_def)

lemma ready_reply:
  "created_ready i d \<longleftrightarrow> create_reply i d \<noteq> None" "exit_ready j d \<longleftrightarrow> wait_reply K j d \<noteq> None"
  by (simp_all add: created_ready_def exit_ready_def create_reply_None wait_reply_None)

text \<open>A sequential run of the daemon is one of the pool's, in which no task is interrupted.\<close>

lemma serve_in_pool:
  assumes "serve K d d'"
  shows "\<exists>qs. pool_run (environment K) (range (task K)) (ps, d) (qs, d')"
proof -
  have env: "environment K d d' \<Longrightarrow> ?thesis" by (blast intro: pool.others r_into_rtranclp)
  from assms show ?thesis
  proof cases
    case (request req r)
    then have "advance (task K req) d = (rest K r, d')" by (simp add: advance_task)
    from pool_advance [OF this, of "environment K" "range (task K)" "[]" ps]
    have "pool_run (environment K) (range (task K)) (task K req # ps, d) (rest K r # ps, d')" by simp
    moreover have "pool (environment K) (range (task K)) (ps, d) (task K req # ps, d)" by (rule pool.spawn) simp
    ultimately show ?thesis by (blast intro: converse_rtranclp_into_rtranclp)
  next
    case (event line)
    then show ?thesis by (intro env) (auto simp: environment_def)
  next
    case (others w)
    then show ?thesis by (intro env) (auto simp: environment_def)
  qed
qed

lemma serves_in_pool: "(serve K)\<^sup>*\<^sup>* d d' \<Longrightarrow> \<exists>qs. pool_run (environment K) (range (task K)) (ps, d) (qs, d')"
proof (induction rule: rtranclp_induct)
  case (step d1 d2)
  then show ?case by (meson serve_in_pool rtranclp_trans)
qed blast

lemma about_line: "about K (e_id ev) t = Some ev \<Longrightarrow> event_line K t d = update_status ev d"
  by (auto simp: about_def event_line_def split: sum.splits if_splits)

text \<open>Different channels are different conditions.\<close>

lemma created_ready_inject: "created_ready i = created_ready i' \<longleftrightarrow> i = i'"
proof
  assume "created_ready i = created_ready i'"
  from fun_cong [OF this, of "\<lparr>containers = [], created_ch = (replicate (Suc (i + i')) Pending)[i := Sent ()], exit_ch = [], d_world = w\<rparr>" for w]
  show "i = i'" by (auto simp: created_ready_def nth_list_update simp del: replicate_Suc split: if_splits)
qed simp

lemma created_ready_not_exit: "created_ready i \<noteq> exit_ready j"
proof
  assume "created_ready i = exit_ready j"
  from fun_cong [OF this, of "\<lparr>containers = [], created_ch = replicate (Suc i) Pending, exit_ch = replicate (Suc j) Dropped, d_world = w\<rparr>" for w]
  show False by (simp add: created_ready_def exit_ready_def del: replicate_Suc)
qed

text \<open>One channel of each kind: who holds its sender, what answers it, and that the answer stays.\<close>

lemma created_channel:
  assumes "table_wf d" "i < length (created_ch d)"
  shows "\<not> created_ready i d \<longleftrightarrow> (\<exists>!c. i \<in> set (created_of d c))"
    and "e_state ev \<noteq> Creating \<Longrightarrow> i \<in> set (created_of d (e_id ev)) \<Longrightarrow> create_reply i (update_status ev d) = Some (Inr ())"
    and "table_step d d' \<Longrightarrow> created_ready i d \<Longrightarrow> create_reply i d' = create_reply i d"
  using assms fits_iff [of "created_of d" "created_ch d" i] update_status_run(2) [OF refl, of ev d]
    grows_settled [of "created_ch d" "created_ch d'" i]
  by (simp_all add: created_ready_def create_reply_def table_wf_def table_step_def nth_mark)

lemma exit_channel:
  assumes "table_wf d" "j < length (exit_ch d)"
  shows "\<not> exit_ready j d \<longleftrightarrow> (\<exists>!c. j \<in> set (exit_of d c))"
    and "e_state ev = Stopped \<Longrightarrow> j \<in> set (exit_of d (e_id ev)) \<Longrightarrow>
      wait_reply K j (update_status ev d) = Some (Inr (exit_code_of ev))"
    and "table_step d d' \<Longrightarrow> exit_ready j d \<Longrightarrow> wait_reply K j d' = wait_reply K j d"
  using assms fits_iff [of "exit_of d" "exit_ch d" j] update_status_run(3) [OF refl, of ev d]
    grows_settled [of "exit_ch d" "exit_ch d'" j]
  by (simp_all add: exit_ready_def wait_reply_def table_wf_def table_step_def nth_mark)

section \<open>Properties\<close>

text \<open>
  C7. No waiting request is lost, however the requests interleave. After start-up, and after any
  schedule of any number of requests, events, cancelled requests and changes by other processes,
  a task can only ever wait for the channel of its own \<open>create\<close> or \<open>wait\<close>. It is blocked exactly
  while one entry of the table, and only one, holds the sender; an event for that container, of
  any state but creating or of the stopped state respectively, unblocks it with success or with
  the exit code; and once it is unblocked its answer is settled, whatever happens until it goes on.
\<close>

theorem no_request_lost:
  assumes "daemon_up K (Cloneboxd_new w) = (Inr u, d0)"
    and "pool_run (environment K) (range (task K)) ([], d0) (ps, d)" "Await g p \<in> set ps"
  shows "(\<forall>qs d'. pool_run (environment K) (range (task K)) (ps, d) (qs, d') \<and> g d \<longrightarrow>
            g d' \<and> fst (run_prog p d') = fst (run_prog p d)) \<and>
    ((\<exists>i. g = created_ready i \<and> (\<not> g d \<longleftrightarrow> (\<exists>!c. i \<in> set (created_of d c))) \<and>
          (\<forall>line ev. about K (e_id ev) line = Some ev \<and> e_state ev \<noteq> Creating \<and> i \<in> set (created_of d (e_id ev)) \<longrightarrow>
             g (event_line K line d) \<and> fst (run_prog p (event_line K line d)) = Inr CreateResponse)) \<or>
     (\<exists>j. g = exit_ready j \<and> (\<not> g d \<longleftrightarrow> (\<exists>!c. j \<in> set (exit_of d c))) \<and>
          (\<forall>line ev. about K (e_id ev) line = Some ev \<and> e_state ev = Stopped \<and> j \<in> set (exit_of d (e_id ev)) \<longrightarrow>
             g (event_line K line d) \<and> fst (run_prog p (event_line K line d)) = Inr (WaitResponse (exit_code_of ev)))))"
    (is "?settled \<and> (?created \<or> ?exit)")
proof -
  have "table_wf d0" using table_keepsD [OF table_up assms(1) table_new] by (rule step_wf)
  note run = tasks.run_waits [OF assms(2) this assms(3)] tasks.run_rel [OF assms(2) this]
  have wf: "table_wf d" using run(2) [OF rtranclp.rtrancl_refl] by simp
  have step: "table_step d d'" if "pool_run (environment K) (range (task K)) (ps, d) (qs, d')" for qs d'
    using run(2) [OF that] by simp
  from run(1) consider
      (created) i where "i < length (created_ch d)" "g = created_ready i" "p = created_answer i"
    | (exit) j where "j < length (exit_ch d)" "g = exit_ready j" "p = exit_answer K j"
    unfolding waits_for_def by blast
  then show ?thesis
  proof cases
    case created
    note ch = created_channel [OF wf created(1)]
    have ?settled
      using created(2,3) ch(3) [OF step] by (auto simp: run_answers ready_reply(1))
    moreover have ?created
      using created(2,3) ch(1,2) by (auto simp: about_line run_answers ready_reply(1) answer_def)
    ultimately show ?thesis by blast
  next
    case exit
    note ch = exit_channel [OF wf exit(1)]
    have ?settled
      using exit(2,3) ch(3) [OF step, of _ _ K] by (auto simp: run_answers ready_reply(2) [of _ _ K])
    moreover have ?exit
      unfolding exit(2,3) using ch(2) [of _ K]
      by (intro exI [of _ j] conjI refl ch(1)) (auto simp: about_line run_answers ready_reply(2) [of _ _ K] answer_def)
    ultimately show ?thesis by blast
  qed
qed

section \<open>An overtaken start\<close>

lemma delete_keeps_entry:
  assumes "entry_of d c = Some e" "ce_state e \<noteq> Stopped" "handle K (DeleteRequest c force) d = (Inr x, d')"
  shows "entry_of d' = entry_of d"
proof -
  from assms(3) obtain d1 where "core K (delete K c force) d = (Inr (), d1)" and d': "remove_if_stopped c d1 = (Inr (), d')"
    by (auto simp: reply_def daemon_delete_def comp_ok comp_simps)
  then have "entry_of d1 = entry_of d"
    by (auto simp: core_def map_err_ok on_world_def Let_def split: prod.splits)
  with d' assms(1,2) show ?thesis by (simp add: remove_if_stopped_def)
qed

text \<open>
  What can happen to the daemon without an event for the container \<open>c\<close> and without a kill of it:
  any other request, an event for another container, and any change of the world.
\<close>

inductive meanwhile :: "('k) daemon_kernel_scheme \<Rightarrow> string \<Rightarrow> Cloneboxd \<Rightarrow> Cloneboxd \<Rightarrow> bool" for K c where
  request: "handle K req d = (r, d') \<Longrightarrow> req \<noteq> KillRequest c \<Longrightarrow> meanwhile K c d d'"
| event: "about K c line = None \<Longrightarrow> meanwhile K c d (event_line K line d)"
| others: "meanwhile K c d (d\<lparr>d_world := w\<rparr>)"

abbreviation not_stopped :: "ContainerEntry \<Rightarrow> bool" where
  "not_stopped e \<equiv> ce_state e \<noteq> Stopped"

lemma entry_move_line: "about K c line = None \<Longrightarrow> entry_move c P d (event_line K line d)"
  by (auto simp: entry_move_def has_entry_def entry_after_line)

lemma meanwhile_keeps: "(meanwhile K c)\<^sup>*\<^sup>* d d' \<Longrightarrow> has_entry c not_stopped d \<Longrightarrow> has_entry c not_stopped d'"
proof (induction rule: rtranclp_induct)
  case (step u v)
  from step.hyps(2) have "entry_move c not_stopped u v"
  proof cases
    case (request req r)
    have "moves (entry_move c not_stopped) (handle K req)"
      using request(2) by (intro entry_keeps_handle) auto
    from movesD [OF this request(1)] show ?thesis .
  qed (auto simp: entry_move_line entry.other_world)
  with step show ?case by (simp add: entry_move_def)
qed

lemma create_refused:
  assumes "has_entry c P d" "handle K (CreateRequest c cfg) d = (Inr (Await_created i), d')"
  shows "create_reply i d' = Some (Inl (Status Internal ''container creation failed''))"
proof -
  from assms(2) have "daemon_create K c cfg d = (Inr i, d')"
    by (auto simp: bindE_def ret_def split: prod.splits sum.splits)
  with assms(1) show ?thesis by (auto simp: has_entry_def intro: daemon_create_known(1))
qed

lemma delete_removes_entry:
  assumes "entry_of d c = Some e" "ce_state e = Stopped" "handle K (DeleteRequest c force) d = (Inr x, d')"
  shows "entry_of d' c = None"
proof -
  from assms(3) obtain d1 where "core K (delete K c force) d = (Inr (), d1)" and d': "remove_if_stopped c d1 = (Inr (), d')"
    by (auto simp: reply_def daemon_delete_def comp_ok comp_simps)
  then have "entry_of d1 = entry_of d"
    by (auto simp: core_def map_err_ok on_world_def Let_def split: prod.splits)
  with d' assms(1,2) show ?thesis by (auto simp: remove_if_stopped_def)
qed

text \<open>
  C22. A start that is overtaken blocks its container's id for a while. The request is answered with
  success, but between the runtime's part and the table's the daemon can take the stopped event of
  a container that ended at once: the entry then says running. From then on, whatever requests
  come, a kill of the container excepted, the entry stays, a delete that succeeds leaves it as it
  is, and every \<open>create\<close> of the id is answered with a failure. This lasts
  until the next event of the id, such as those of the supervisor that a refused \<open>create\<close> has
  spawned all the same: after a stopped event, a delete that succeeds removes the entry.
\<close>

theorem overtaken_start_blocks_id:
  assumes "start K c (d_world d) = (Inr (), w)" "entry_of d c \<noteq> None"
    and "about K c line = Some ev" "e_state ev = Stopped"
  shows "\<exists>d'. pool_run (environment K) (range (task K)) ([task K (StartRequest c)], d) ([Halt (Inr StartResponse)], d') \<and>
    d_world d' = w \<and> entry_of d' c = Some (ContainerEntry_new Running None []) \<and>
    (\<forall>u. (meanwhile K c)\<^sup>*\<^sup>* d' u \<longrightarrow>
       (\<forall>force v. handle K (DeleteRequest c force) u = (Inr (Ready DeleteResponse), v) \<longrightarrow> entry_of v c = entry_of u c) \<and>
       (\<forall>cfg i v. handle K (CreateRequest c cfg) u = (Inr (Await_created i), v) \<longrightarrow>
          create_reply i v = Some (Inl (Status Internal ''container creation failed''))) \<and>
       (\<forall>line' ev' force v. about K c line' = Some ev' \<and> e_state ev' = Stopped \<and>
          handle K (DeleteRequest c force) (event_line K line' u) = (Inr (Ready DeleteResponse), v) \<longrightarrow> entry_of v c = None))"
proof -
  let ?run = "pool_run (environment K) (range (task K))"
  let ?section = "bindP (atom (set_entry_state c Running)) (\<lambda>_. Halt (Inr StartResponse))"
  let ?d1 = "d\<lparr>d_world := w\<rparr>"
  let ?d2 = "event_line K line ?d1"
  let ?d3 = "put_entry c (ContainerEntry_new Running None []) ?d2"
  obtain e where e: "entry_of d c = Some e" using assms(2) by blast
  have d2: "entry_of ?d2 c = Some (ContainerEntry_new Stopped None [])" "d_world ?d2 = w"
    using entry_after_line [of ?d1 c e K line] e assms(3,4) update_status_run(4) [OF refl, of _ ?d1]
    by (auto simp: event_line_def split: sum.splits)
  have "run_prog (lift_prog (to_status K) (start_prog K c)) d = (Inr (), ?d1)"
    using assms(1) by (simp add: run_lift run_start map_err_def on_world_def)
  from pool_prefix [OF nowait_lift [OF nowait_commands(1)] this, where ps = "[]" and qs = "[]"]
  have "?run ([task K (StartRequest c)], d) ([?section], ?d1)" by (simp add: locked_task_def)
  also have "?run ([?section], ?d1) ([?section], ?d2)"
    by (rule r_into_rtranclp, rule pool.others) (auto simp: environment_def)
  also have "?run ([?section], ?d2) ([Halt (Inr StartResponse)], ?d3)"
    using pool_advance [of ?section ?d2 "Halt (Inr StartResponse)" ?d3 _ _ "[]" "[]"] d2(1)
    by (simp add: advance_step set_entry_state_def ContainerEntry_new_def)
  finally have run: "?run ([task K (StartRequest c)], d) ([Halt (Inr StartResponse)], ?d3)" .
  have e3: "entry_of ?d3 c = Some (ContainerEntry_new Running None [])" "d_world ?d3 = w"
    using d2(2) by simp_all
  then have "has_entry c not_stopped ?d3" by (simp add: has_entry_def ContainerEntry_new_def)
  then have stays: "has_entry c not_stopped u" if "(meanwhile K c)\<^sup>*\<^sup>* ?d3 u" for u
    by (rule meanwhile_keeps [OF that])
  have kept: "entry_of v c = entry_of u c"
    if "(meanwhile K c)\<^sup>*\<^sup>* ?d3 u" "handle K (DeleteRequest c force) u = (Inr (Ready DeleteResponse), v)" for u force v
    using stays [OF that(1)] delete_keeps_entry [OF _ _ that(2)] by (auto simp: has_entry_def)
  have recovers: "entry_of v c = None"
    if "(meanwhile K c)\<^sup>*\<^sup>* ?d3 u" "about K c line' = Some ev'" "e_state ev' = Stopped"
      "handle K (DeleteRequest c force) (event_line K line' u) = (Inr (Ready DeleteResponse), v)" for u line' ev' force v
  proof -
    from stays [OF that(1)] obtain e' where "entry_of u c = Some e'" by (auto simp: has_entry_def)
    from entry_after_line [OF this, of K line'] that(2,3)
    have "entry_of (event_line K line' u) c = Some (ContainerEntry_new Stopped None [])" by simp
    from delete_removes_entry [OF this _ that(4)] show ?thesis by (simp add: ContainerEntry_new_def)
  qed
  show ?thesis
    using run e3 kept recovers create_refused [OF stays] by (intro exI [of _ ?d3] conjI allI impI) blast+
qed

end
