(* ===== verification/Boot.thy ===== *)
theory Boot
  imports Service
begin

text \<open>
  The daemon's \<open>main\<close> in \<open>cloneboxd/src/main.rs\<close> from end to end: what a start leaves in the
  file system and in the table, and what is left after ctrl-c.
\<close>

section \<open>The pieces\<close>

definition client_comps :: "string list" where
  "client_comps = bundle_comps ''clonebox.sk''"

definition event_comps :: "string list" where
  "event_comps = bundle_comps ''event.sk''"

lemma boot_paths:
  "norm_path cwd app_data_path = [''run'', ''clonebox'']"
  "norm_path cwd client_socket = client_comps" "norm_path cwd get_event_socket_path = event_comps"
  by (simp_all add: norm_path_def app_data_path_def client_socket_def get_event_socket_path_def client_comps_def
      event_comps_def bundle_comps_def)

lemma boot_comps [simp]:
  "\<not> is_pseudo client_comps" "\<not> is_pseudo event_comps" "client_comps \<noteq> []" "event_comps \<noteq> []"
  "butlast client_comps = [''run'', ''clonebox'']" "butlast event_comps = [''run'', ''clonebox'']"
  "\<not> prefix client_comps event_comps" "\<not> prefix event_comps client_comps"
  "\<not> prefix client_comps [''run'', ''clonebox'']" "\<not> prefix event_comps [''run'', ''clonebox'']"
  by (simp_all add: client_comps_def event_comps_def bundle_comps_def is_pseudo_def)

lemma under_sockets:
  "prefix client_comps (bundle_comps n) \<longleftrightarrow> n = ''clonebox.sk''" "prefix event_comps (bundle_comps n) \<longleftrightarrow> n = ''event.sk''"
  "prefix client_comps (state_comps n) \<longleftrightarrow> n = ''clonebox.sk''" "prefix event_comps (state_comps n) \<longleftrightarrow> n = ''event.sk''"
  by (auto simp: client_comps_def event_comps_def state_comps_def bundle_comps_def)

lemma attempt_remove_run:
  assumes "obliging K" "norm_path (k_cwd K) p = q" "\<not> is_pseudo q" "node_at w q \<noteq> Some Dir"
  shows "\<exists>r w'. attempt (fs_remove_file K p) w = (Inr r, w') \<and>
    (\<forall>x. node_at w' x = (if prefix q x \<and> node_at w q \<noteq> None then None else node_at w x))"
proof -
  let ?l = "log_op (Op_rmfile p) True w"
  define w1 where "w1 = (if node_at w q = None then ?l else remove_tree q ?l)"
  have "fs_remove_file K p w = (if node_at w q = None then Inl (Fail (Os ENOENT)) else Inr (), w1)"
    using assms by (auto simp: w1_def fs_remove_file_def Let_def bindE_def comp_simps obliging_def split: option.split node.split)
  moreover have "node_at w1 x = (if prefix q x \<and> node_at w q \<noteq> None then None else node_at w x)" for x
    by (cases "node_at w q") (simp_all add: w1_def)
  ultimately show ?thesis by (cases "node_at w q") (simp_all add: attempt_def)
qed

text \<open>A socket that is bound afresh replaces what was there, unless that is a directory.\<close>

lemma get_listen_sk_run:
  assumes "obliging K" "norm_path (k_cwd K) p = q" "\<not> is_pseudo q" "q \<noteq> []"
    and "node_at w q \<noteq> Some Dir" "is_dir w (butlast q)"
  shows "\<exists>w'. get_listen_sk K p w = (Inr (), w') \<and>
    (\<forall>x. node_at w' x = (if x = q then Some Sock else if prefix q x \<and> node_at w q \<noteq> None then None else node_at w x))"
proof -
  obtain r w1 where rm: "(attempt (fs_remove_file K p) :: (world, main_error, io_error + unit) comp) w = (Inr r, w1)"
    and w1: "\<forall>x. node_at w1 x = (if prefix q x \<and> node_at w q \<noteq> None then None else node_at w x)"
    using attempt_remove_run [OF assms(1-3,5)] by blast
  have "\<not> prefix q (butlast q)" using assms(4) by (metis append_butlast_last_id prefix_order.antisym prefixI
      not_Cons_self2 same_prefix_nil)
  then have "is_dir w1 (butlast q)" using assms(6) w1 by (simp add: is_dir_def)
  moreover have "node_at w1 q = None" using w1 by simp
  ultimately obtain w' where bd: "nix_bind K p w1 = (Inr (), w')" and w': "\<And>x. node_at w' x = (if x = q then Some Sock else node_at w1 x)"
    using assms(1-4) by (auto simp: nix_bind_def bind_errno_def Let_def bindE_def comp_simps obliging_def)
  have "get_listen_sk K p w = (Inr (), w')"
    by (simp add: get_listen_sk_def bindE_def rm ret_def attempt_def [of "nix_bind K p"] bd)
  then show ?thesis by (simp add: w' w1)
qed

lemma on_new: "m w = (r, w') \<Longrightarrow> on_world m (Cloneboxd_new w) = (r, Cloneboxd_new w')"
  by (simp add: on_world_def Cloneboxd_new_def)

text \<open>\<open>/run/clonebox\<close> is made, or found, and restricted.\<close>

definition home_ready :: "world \<Rightarrow> bool" where
  "home_ready w \<longleftrightarrow> node_at w [''run''] \<in> {None, Some Dir} \<and> node_at w [''run'', ''clonebox''] \<in> {None, Some Dir} \<and>
     node_at w client_comps \<noteq> Some Dir \<and> node_at w event_comps \<noteq> Some Dir"

lemma make_home_run:
  assumes "obliging K" "home_ready w"
  shows "\<exists>w1 w2. fs_create_dir_all K app_data_path w = (Inr (), w1) \<and>
    fs_set_permissions K app_data_path 0x1C0 w1 = (Inr (), w2) \<and>
    (\<forall>x. node_at w2 x = (if x \<in> {[''run''], [''run'', ''clonebox'']} then Some Dir else node_at w x))"
proof -
  have io: "k_io K op v = None" for op v using assms(1) by (simp add: obliging_def)
  have np: "\<not> is_pseudo [''run'', ''clonebox'']" by (simp add: is_pseudo_def)
  obtain w1 where w1: "fs_create_dir_all K app_data_path w = (Inr (), w1)"
    "\<And>x. node_at w1 x = (if x \<in> {[''run''], [''run'', ''clonebox'']} then Some Dir else node_at w x)"
    using assms(2) np
    by (auto simp: fs_create_dir_all_def Let_def boot_paths bindE_def comp_simps io node_at_fold_put home_ready_def)
  have "fs_set_permissions K app_data_path 0x1C0 w1 = (Inr (), log_op (Op_chmod app_data_path 0x1C0) True w1)"
    using w1(2) np by (simp add: fs_set_permissions_def Let_def boot_paths bindE_def comp_simps io)
  with w1 show ?thesis by simp
qed

text \<open>Recovery makes no channel.\<close>

lemma recover_entry_channels:
  "recover_entry K app name d = (r, d') \<Longrightarrow> created_ch d' = created_ch d \<and> exit_ch d' = exit_ch d"
  by (auto simp: recover_entry_def or_insert_def drop_entry_def ContainerEntry_new_def Let_def
      split: if_splits prod.splits sum.splits option.splits)

lemma recover_channels:
  assumes "recover K app d = (Inr u, d')"
  shows "created_ch d' = created_ch d \<and> exit_ch d' = exit_ch d"
proof -
  have loop: "for_each names (recover_entry K app) d1 = (Inr v, d2) \<Longrightarrow> created_ch d2 = created_ch d1 \<and> exit_ch d2 = exit_ch d1"
    for names v d1 d2
  proof (induction names arbitrary: d1)
    case (Cons m ms)
    then show ?case using recover_entry_channels [of K app m d1] by (fastforce simp: comp_ok)
  qed (simp add: comp_simps)
  from assms obtain names d1 where "on_world (fs_read_dir K app) d = (Inr names, d1)"
    and "for_each names (recover_entry K app) d1 = (Inr u, d')"
    by (auto simp: recover_def comp_ok)
  with loop [OF this(2)] show ?thesis by (auto simp: on_world_def Let_def split: prod.splits)
qed

section \<open>Properties\<close>

text \<open>
  C15. The daemon starts. On a kernel that fails no call, where \<open>/run\<close> and \<open>/run/clonebox\<close> are
  directories or missing and neither socket path is a directory, \<open>main\<close> reaches its server: both
  sockets are bound, old ones replaced; everything outside the two directories and the socket
  paths is as it was, the state files included; and the table has an entry exactly for the
  containers whose state file parses, with the status of \<open>status_found\<close>.
\<close>

theorem daemon_starts:
  assumes "obliging K" "orders K" "processes K alive" "\<And>n w. \<not> k_dir_error K n w" "home_ready w"
  shows "\<exists>d. daemon_up K (Cloneboxd_new w) = (Inr (), d) \<and> created_ch d = [] \<and> exit_ch d = [] \<and>
    node_at (d_world d) client_comps = Some Sock \<and> node_at (d_world d) event_comps = Some Sock \<and>
    (\<forall>x. \<not> prefix client_comps x \<and> \<not> prefix event_comps x \<and> x \<notin> {[''run''], [''run'', ''clonebox'']} \<longrightarrow>
       node_at (d_world d) x = node_at w x) \<and>
    (\<forall>n. plain_id n \<and> n \<noteq> ''clonebox.sk'' \<and> n \<noteq> ''event.sk'' \<longrightarrow> entry_of d n = found K alive w n)"
proof -
  obtain w1 w2 where w1: "fs_create_dir_all K app_data_path w = (Inr (), w1)"
    and w2: "fs_set_permissions K app_data_path 0x1C0 w1 = (Inr (), w2)"
      "\<And>x. node_at w2 x = (if x \<in> {[''run''], [''run'', ''clonebox'']} then Some Dir else node_at w x)"
    using make_home_run [OF assms(1,5)] by blast
  have home: "node_at w client_comps \<noteq> Some Dir" "node_at w event_comps \<noteq> Some Dir"
    using assms(5) by (simp_all add: home_ready_def)
  have apart: "client_comps \<notin> {[''run''], [''run'', ''clonebox'']}" "event_comps \<notin> {[''run''], [''run'', ''clonebox'']}"
    "\<not> prefix client_comps [''run'']" "\<not> prefix event_comps [''run'']"
    by (simp_all add: client_comps_def event_comps_def bundle_comps_def)
  obtain w3 where w3: "get_listen_sk K client_socket w2 = (Inr (), w3)"
    "\<And>x. node_at w3 x = (if x = client_comps then Some Sock
       else if prefix client_comps x \<and> node_at w2 client_comps \<noteq> None then None else node_at w2 x)"
    using get_listen_sk_run [OF assms(1) boot_paths(2) boot_comps(1,3), of w2] home apart
    by (simp add: w2(2) is_dir_def) blast
  have clone3: "node_at w3 [''run'', ''clonebox''] = Some Dir"
    using w2(2) w3(2) apart(1) by (auto simp: client_comps_def bundle_comps_def)
  have ev3: "node_at w3 event_comps \<noteq> Some Dir" using home(2) apart(2) by (auto simp: w3(2) w2(2))
  obtain r d where rec: "recover K app_data_path (Cloneboxd_new w3) = (r, d)" by fastforce
  have found3: "r = Inr () \<and> node_at (d_world d) = node_at w3 \<and> entry_of d n = found K alive w3 n" if "plain_id n" for n
    using recover_table [OF assms(1,3,4,2) clone3 that] rec by (simp add: found_def)
  then have d: "r = Inr ()" "node_at (d_world d) = node_at w3"
    by (metis plain_show_int)+
  obtain w4 where w4: "get_listen_sk K get_event_socket_path (d_world d) = (Inr (), w4)"
    "\<And>x. node_at w4 x = (if x = event_comps then Some Sock
       else if prefix event_comps x \<and> node_at (d_world d) event_comps \<noteq> None then None else node_at (d_world d) x)"
    using get_listen_sk_run [OF assms(1) boot_paths(3) boot_comps(2,4), of "d_world d"] ev3 clone3
    by (simp add: d(2) is_dir_def) blast
  have run: "daemon_up K (Cloneboxd_new w) = (Inr (), d\<lparr>d_world := w4\<rparr>)"
    using w1 w2(1) w3(1) rec d(1) w4(1)
    by (simp add: daemon_up_def thenE_def bindE_def map_err_def on_new) (simp add: on_world_def)
  have "found K alive w3 n = found K alive w n" if "n \<noteq> ''clonebox.sk''" for n
  proof -
    have "node_at w3 (bundle_comps n) = node_at w (bundle_comps n)" "node_at w3 (state_comps n) = node_at w (state_comps n)"
      using that by (auto simp: w3(2) w2(2) under_sockets) (auto simp: client_comps_def bundle_comps_def state_comps_def)
    then show ?thesis using stored_cong [of w3 n w K] by (simp add: found_def)
  qed
  with found3 have "plain_id n \<and> n \<noteq> ''clonebox.sk'' \<longrightarrow> entry_of d n = found K alive w n" for n by simp
  moreover have "created_ch d = []" "exit_ch d = []"
    using recover_channels rec d(1) by (fastforce simp: Cloneboxd_new_def)+
  ultimately show ?thesis
    using run by (intro exI [of _ "d\<lparr>d_world := w4\<rparr>"]) (auto simp: w4(2) d(2) w3(2) w2(2))
qed

text \<open>
  After ctrl-c the sockets are gone. Whatever the server did, when it ends without an error
  and the sockets are still files, \<open>main\<close> succeeds and leaves neither of them, and nothing else
  of the file system changes; when the server ends with an error, \<open>main\<close> ends with it and the
  sockets stay, for the next start to replace.
\<close>

theorem daemon_ends:
  assumes "obliging K" "daemon_up K d = (Inr (), d1)" "server d1 = (r, d2)"
    and "node_at (d_world d2) client_comps \<noteq> Some Dir" "node_at (d_world d2) event_comps \<noteq> Some Dir"
  shows "case r of
      Inr _ \<Rightarrow> \<exists>d'. daemon_main K server d = (Inr (), d') \<and> d' = d2\<lparr>d_world := d_world d'\<rparr> \<and>
        node_at (d_world d') client_comps = None \<and> node_at (d_world d') event_comps = None \<and>
        (\<forall>x. \<not> prefix client_comps x \<and> \<not> prefix event_comps x \<longrightarrow> node_at (d_world d') x = node_at (d_world d2) x)
    | Inl e \<Rightarrow> daemon_main K server d = (Inl (map_stop Main_transport e), d2)"
proof (cases r)
  case (Inl e)
  with assms(2,3) show ?thesis by (simp add: daemon_main_def thenE_def bindE_def map_err_def)
next
  case (Inr u)
  obtain r1 w1 where w1: "(attempt (fs_remove_file K client_socket) :: (world, main_error, io_error + unit) comp) (d_world d2) = (Inr r1, w1)"
    "\<forall>x. node_at w1 x = (if prefix client_comps x \<and> node_at (d_world d2) client_comps \<noteq> None then None else node_at (d_world d2) x)"
    using attempt_remove_run [OF assms(1) boot_paths(2) boot_comps(1) assms(4)] by blast
  have "node_at w1 event_comps \<noteq> Some Dir" using w1(2) assms(5) by simp
  then obtain r2 w2 where w2: "(attempt (fs_remove_file K get_event_socket_path) :: (world, main_error, io_error + unit) comp) w1 = (Inr r2, w2)"
    "\<forall>x. node_at w2 x = (if prefix event_comps x \<and> node_at w1 event_comps \<noteq> None then None else node_at w1 x)"
    using attempt_remove_run [OF assms(1) boot_paths(3) boot_comps(2)] by blast
  have "graceful_shutdown K client_socket get_event_socket_path (d_world d2) = (Inr (), w2)"
    using w1(1) w2(1) by (simp add: graceful_shutdown_def bindE_def ret_def)
  then have "(attempt (on_world (graceful_shutdown K client_socket get_event_socket_path)) ::
      (Cloneboxd, main_error, main_error + unit) comp) d2 = (Inr (Inr ()), d2\<lparr>d_world := w2\<rparr>)"
    by (simp add: attempt_def on_world_def)
  then have "daemon_main K server d = (Inr (), d2\<lparr>d_world := w2\<rparr>)"
    using assms(2,3) Inr by (simp add: daemon_main_def thenE_def bindE_def map_err_def ret_def)
  with Inr w1(2) w2(2) show ?thesis by (auto intro!: exI [of _ "d2\<lparr>d_world := w2\<rparr>"])
qed

end
