(* ===== verification/Wire.thy ===== *)
theory Wire
  imports Create
begin

text \<open>
  The size of what the network set-up puts on the netlink socket. The writer is reused from
  request to request and the lengths are patched in as 16 and 32 bit values, so the bound rests
  on the writer being flushed after every request and on the slice of the id.
\<close>

section \<open>Well-sized datagrams\<close>

definition well_sized :: "byte list \<Rightarrow> bool" where
  "well_sized b \<longleftrightarrow> length b \<le> 104 \<and> length b mod 4 = 0 \<and> unat (nlmsg_len (nlmsghdr_parse (take 16 b))) = length b"

definition sized_op :: "sysop \<Rightarrow> bool" where
  "sized_op op = (case op of Op_nl_send b \<Rightarrow> well_sized b | _ \<Rightarrow> True)"

lemma sized_op_simps [simp]:
  "sized_op (Op_nl_send b) = well_sized b" "sized_op Op_nl_recv" "sized_op Op_socket_netlink" "sized_op Op_bind_netlink"
  "sized_op (Op_open p)" "sized_op (Op_setns p t)" "sized_op (Op_create p)" "sized_op (Op_write p s)"
  "sized_op (Op_command p l)"
  by (simp_all add: sized_op_def)

lemma nl_message_sized:
  assumes "16 + length body + length (enc_attrs attrs) \<le> 104" "length body mod 4 = 0"
  shows "well_sized (nl_message ty fl body attrs)"
proof -
  let ?m = "nl_message ty fl body attrs"
  have "length ?m = 16 + length body + length (enc_attrs attrs)"
    by (simp add: nl_message_def nlhdr.enc_length)
  with assms(1) have "length ?m \<le> 104" by simp
  moreover have "length ?m mod 4 = 0" by (rule length_nl_message_mod [OF assms(2)])
  moreover have "unat (nlmsg_len (nlmsghdr_parse (take 16 ?m))) = length ?m"
    using assms(1) by (intro nl_message_header(1)) simp
  ultimately show ?thesis by (simp add: well_sized_def)
qed

lemmas enc_lengths = nlhdr.enc_length ifinfo.enc_length rtmsg.enc_length ifaddr.enc_length rta.enc_length

lemma align4_mono: "m \<le> n \<Longrightarrow> align4 m \<le> align4 n"
  by (simp add: align4_def div_le_mono)

lemma named_attr_le: "length s \<le> n \<Longrightarrow> length (enc_attr (ty, c_str s)) \<le> align4 (5 + n)"
  by (simp add: length_enc_attr align4_mono)

lemma requests_sized:
  assumes "length host \<le> 9" "length name \<le> 14"
  shows "well_sized (veth_request host (host @ ''_peer''))" "well_sized (up_request i)"
    "well_sized (addr_request i ip n)" "well_sized (netns_request i fd)" "well_sized (getlink_request name)"
    "well_sized (route_request ip)"
proof -
  have h: "length (enc_attr (IFLA_IFNAME, c_str host)) \<le> 16"
    using named_attr_le [OF assms(1), of IFLA_IFNAME] by (simp add: align4_def)
  have p: "length (enc_attr (IFLA_IFNAME, c_str (host @ ''_peer''))) \<le> 20"
    using named_attr_le [of "host @ ''_peer''" 14 IFLA_IFNAME] assms(1) by (simp add: align4_def)
  have nested: "length x \<le> n \<Longrightarrow> length (enc_attr (ty, x)) \<le> align4 (4 + n)" for x n ty
    by (simp add: length_enc_attr align4_mono)
  let ?x4 = "ifinfomsg_layout (ifinfomsg_builder 0 0 0 0 0) @ enc_attr (IFLA_IFNAME, c_str (host @ ''_peer''))"
  let ?x3 = "enc_attr (VETH_INFO_PEER, ?x4)"
  let ?x2 = "enc_attr (IFLA_INFO_KIND, as_bytes ''veth'') @ enc_attr (IFLA_INFO_DATA, ?x3)"
  have x4: "length ?x4 \<le> 36" using p by (simp add: enc_lengths)
  have x3: "length ?x3 \<le> 40" using nested [OF x4, of VETH_INFO_PEER] by (simp add: align4_def)
  have "length ?x2 \<le> 52"
    using nested [OF x3, of IFLA_INFO_DATA] by (simp add: length_enc_attr align4_def)
  from nested [OF this, of IFLA_LINKINFO] h show "well_sized (veth_request host (host @ ''_peer''))"
    unfolding veth_request_def veth_attrs_def by (intro nl_message_sized) (simp_all add: enc_lengths align4_def)
  show "well_sized (getlink_request name)"
    unfolding getlink_request_def using named_attr_le [OF assms(2), of IFLA_IFNAME]
    by (intro nl_message_sized) (simp_all add: enc_lengths length_enc_attr align4_def)
  show "well_sized (up_request i)" "well_sized (addr_request i ip n)" "well_sized (netns_request i fd)"
    "well_sized (route_request ip)"
    unfolding up_request_def addr_request_def netns_request_def route_request_def
    by (intro nl_message_sized; simp add: enc_lengths length_enc_attr align4_def)+
qed

section \<open>The requests\<close>

text \<open>What follows a request may rest on the writer the request returns, which is empty again.\<close>

lemma emits_bind_post:
  assumes "emits A m" "\<And>x w w'. m w = (Inr x, w') \<Longrightarrow> emits A (f x)"
  shows "emits A (bindE m f)"
  unfolding emits_def
proof
  fix w
  obtain r w1 where m: "m w = (r, w1)" by fastforce
  obtain h where h: "hist w1 = hist w @ h" "\<forall>e \<in> set h. A (fst e)" using emitsD [OF assms(1) m] by blast
  show "\<exists>h. hist (snd (bindE m f w)) = hist w @ h \<and> (\<forall>e \<in> set h. A (fst e))"
  proof (cases r)
    case (Inr x)
    obtain h' where "hist (snd (f x w1)) = hist w1 @ h'" "\<forall>e \<in> set h'. A (fst e)"
      using assms(2) [OF m [unfolded Inr]] unfolding emits_def by blast
    with h m Inr show ?thesis by (intro exI [of _ "h @ h'"]) (auto simp: bindE_def)
  qed (use h m in \<open>simp add: bindE_def\<close>)
qed

lemma emits_answer: "emits A (nl_answer K b)"
  unfolding nl_answer_def Let_def by (intro frames)

lemma emits_send: "A (Op_nl_send b) \<Longrightarrow> emits A (nl_send K (Some \<lparr>w_buf = b\<rparr>))"
  unfolding nl_send_def by (auto intro!: frames)

lemma emits_recv_ack: "A Op_nl_recv \<Longrightarrow> emits A (recv_ack K)"
  unfolding recv_ack_def by (intro frames emits_answer)

lemma emits_exchange:
  assumes "sized_op (Op_nl_send b)"
  shows "emits sized_op (bindE (nl_send K (Some \<lparr>w_buf = b\<rparr>)) (\<lambda>w. thenE (recv_ack K) (ret w)))"
  using assms by (intro frames emits_send emits_recv_ack) simp_all

named_theorems sized_steps \<open>a request on an empty writer and what follows it\<close>

lemma sized_request [sized_steps]:
  assumes "length host \<le> 9" "emits sized_op (f empty_writer)"
  shows "emits sized_op (bindE (create_veth_pair K empty_writer host (host @ ''_peer'')) f)"
    "emits sized_op (bindE (set_interface_up K empty_writer i) f)"
    "emits sized_op (bindE (set_ip_addr K empty_writer i ip n) f)"
    "emits sized_op (bindE (move_to_netns K empty_writer i fd) f)"
    "emits sized_op (bindE (add_default_route K empty_writer ip) f)"
proof -
  note sized = requests_sized [OF assms(1), of "[]", simplified]
  show "emits sized_op (bindE (create_veth_pair K empty_writer host (host @ ''_peer'')) f)"
    "emits sized_op (bindE (set_interface_up K empty_writer i) f)"
    "emits sized_op (bindE (set_ip_addr K empty_writer i ip n) f)"
    "emits sized_op (bindE (move_to_netns K empty_writer i fd) f)"
    "emits sized_op (bindE (add_default_route K empty_writer ip) f)"
    by (intro emits_bind_post;
        (simp only: create_veth_pair_def set_interface_up_def set_ip_addr_def move_to_netns_def add_default_route_def
           message_eqs, rule emits_exchange, simp add: sized)?;
        use assms(2) in \<open>auto dest: requests_ok\<close>)+
qed

lemma sized_getlink [sized_steps]:
  assumes "length name \<le> 14" "\<And>i. emits sized_op (f i empty_writer)"
  shows "emits sized_op (bindE (get_interface_index K empty_writer name) (\<lambda>(i, w). f i w))"
proof (rule emits_bind_post)
  show "emits sized_op (get_interface_index K empty_writer name)"
    unfolding get_interface_index_def message_eqs
    using requests_sized(5) [of "[]" name] assms(1) by (intro frames emits_send emits_answer) simp_all
  show "emits sized_op (case x of (i, w) \<Rightarrow> f i w)"
    if "get_interface_index K empty_writer name w = (Inr x, w')" for x w w'
    using that assms(2) by (cases x) (auto dest: get_interface_index_ok)
qed

lemma sized_other [frames]: "emits sized_op (create_netlink_socket K)" "emits sized_op (setns_net K p what)"
  unfolding create_netlink_socket_def setns_net_def by (intro frames; simp)+

lemma sized_create_network: "emits sized_op (create_network K cid pid)"
proof -
  have host: "length host \<le> 9" if "slice_to cid (min (length cid) 9) = Some host" for host
    using that by (auto simp: slice_to_def split: if_splits)
  show ?thesis
    unfolding create_network_def Let_def
    by (intro emits_then emits_map_err emits_bind [OF emits_map_err] emits_case_option sized_steps frames;
        simp?; drule host; simp)
qed

section \<open>Properties\<close>

text \<open>
  C34. What \<open>create_network\<close> puts on the netlink socket is bounded and well formed, for every id and
  kernel and however the set-up ends: each datagram it sends, also one whose sending or answer
  fails, is at most 104 bytes long, a multiple of four, and the length in its header is its own,
  so no 16 or 32 bit length field wraps and nothing of an earlier request is sent again.
\<close>

theorem datagrams_bounded:
  assumes "create_network K cid pid w = (r, w')"
  shows "\<exists>h. hist w' = hist w @ h \<and>
    (\<forall>b ok. (Op_nl_send b, ok) \<in> set h \<longrightarrow>
       length b \<le> 104 \<and> length b mod 4 = 0 \<and> unat (nlmsg_len (nlmsghdr_parse (take 16 b))) = length b)"
proof -
  obtain h where "hist w' = hist w @ h" "\<forall>e \<in> set h. sized_op (fst e)"
    using emitsD [OF sized_create_network assms] by blast
  then show ?thesis by (intro exI [of _ h]) (fastforce simp: well_sized_def)
qed

end
