(* ===== verification/Removal.thy ===== *)
theory Removal
  imports Race
begin

text \<open>
  \<open>delete\<close> while the container's supervisor runs. \<open>remove_dir_all\<close> lists the bundle, removes the
  entries one by one and then the directory, so the supervisor's last update of the state file
  can come between these steps. Both programs are examined on the part of the world they share:
  the names in the bundle and the text of the state file.
\<close>

section \<open>The bundle\<close>

type_synonym bundle_part = "(string list \<times> string option) option"

definition state_text :: "string \<Rightarrow> world \<Rightarrow> string option" where
  "state_text c w = (case node_at w (state_comps c) of Some (File t) \<Rightarrow> Some t | _ \<Rightarrow> None)"

definition bundle_view :: "string \<Rightarrow> world \<Rightarrow> bundle_part" where
  "bundle_view c w =
     (if node_at w (bundle_comps c) = Some Dir then Some (children w (bundle_comps c), state_text c w) else None)"

definition gone :: "string \<Rightarrow> world \<Rightarrow> bool" where
  "gone c w \<longleftrightarrow> (\<forall>f \<in> fst ` set (files w). \<not> prefix (bundle_comps c) f)"

text \<open>The bundle is a directory in which \<open>state.json\<close> is a regular file, or nothing of it is there.\<close>

definition tidy :: "string \<Rightarrow> world \<Rightarrow> bool" where
  "tidy c w \<longleftrightarrow>
     gone c w \<or>
     node_at w (bundle_comps c) = Some Dir \<and> node_at w (state_comps c) \<noteq> Some Dir \<and> node_at w (state_comps c) \<noteq> Some Sock \<and>
     (\<forall>f \<in> fst ` set (files w). prefix (state_comps c) f \<longrightarrow> f = state_comps c)"

abbreviation state_name :: string where
  "state_name \<equiv> ''state.json''"

lemma node_at_key: "node_at w p \<noteq> None \<longleftrightarrow> p \<in> fst ` set (files w)"
  unfolding node_at_def by (metis map_of_eq_None_iff)

lemma gone_view: "tidy c w \<Longrightarrow> bundle_view c w = None \<longleftrightarrow> gone c w"
  using node_at_key [of w "bundle_comps c"] by (force simp: tidy_def bundle_view_def gone_def split: if_splits)

lemma gone_node: "gone c w \<Longrightarrow> prefix (bundle_comps c) p \<Longrightarrow> node_at w p = None"
  using node_at_key [of w p] by (auto simp: gone_def)

lemma gone_children: "gone c w \<Longrightarrow> children w (bundle_comps c) = []"
  unfolding children_none gone_def by (simp add: strict_prefix_def)

lemma text_view: "tidy c w \<Longrightarrow> state_text c w = (case bundle_view c w of None \<Rightarrow> None | Some (_, t) \<Rightarrow> t)"
  using gone_view [of c w] gone_node [of c w "state_comps c"] by (auto simp: bundle_view_def state_text_def split: if_splits)

lemma view_cong: "files v = files w \<Longrightarrow> bundle_view c v = bundle_view c w \<and> tidy c v = tidy c w \<and> gone c v = gone c w"
  by (simp add: bundle_view_def tidy_def gone_def state_text_def node_at_def children_def)

lemma distinct_children: "distinct (children w q)"
  by (simp add: children_def)

lemma state_listed:
  assumes "tidy c w" "node_at w (bundle_comps c) = Some Dir"
  shows "state_name \<in> set (children w (bundle_comps c)) \<longleftrightarrow> state_text c w \<noteq> None"
proof -
  have "\<not> gone c w" using assms(2) gone_node [of c w "bundle_comps c"] by auto
  then have t: "node_at w (state_comps c) \<noteq> Some Dir" "node_at w (state_comps c) \<noteq> Some Sock"
    "\<forall>f \<in> fst ` set (files w). prefix (state_comps c) f \<longrightarrow> f = state_comps c"
    using assms(1) by (auto simp: tidy_def)
  have "state_name \<in> set (children w (bundle_comps c)) \<longleftrightarrow> state_comps c \<in> fst ` set (files w)"
    unfolding children_iff state_comps_def [symmetric] using t(3) by force
  also have "\<dots> \<longleftrightarrow> state_text c w \<noteq> None"
    unfolding node_at_key [symmetric] state_text_def using t(1,2) by (auto split: option.splits node.splits)
  finally show ?thesis .
qed

section \<open>What the steps do to it\<close>

definition add_name :: "string list \<Rightarrow> string list" where
  "add_name xs = (if state_name \<in> set xs then xs else xs @ [state_name])"

lemma children_update:
  "p \<in> fst ` set (files w) \<Longrightarrow> children (put_node p n w) q = children w q"
  by (simp add: children_def put_node_def update_keys)

lemma keys_update: "fst ` set (files (put_node p n w)) = insert p (fst ` set (files w))"
  unfolding set_map [symmetric] put_node_def by (auto simp: update_keys)

lemma remdups_snoc: "x \<notin> set xs \<Longrightarrow> remdups (xs @ [x]) = remdups xs @ [x]"
  by (induction xs) auto

lemma put_state:
  assumes "tidy c w" "node_at w (bundle_comps c) = Some Dir"
  shows "bundle_view c (put_node (state_comps c) (File t) w) = Some (add_name (children w (bundle_comps c)), Some t)"
    and "tidy c (put_node (state_comps c) (File t) w)"
proof -
  let ?w = "put_node (state_comps c) (File t) w"
  have ng: "\<not> gone c w" using assms(2) gone_node [of c w "bundle_comps c"] by auto
  have b: "node_at ?w (bundle_comps c) = Some Dir" using assms(2) by (simp add: state_comps_simps(6) [symmetric] del: state_comps_simps(6))
  show "tidy c ?w"
    using assms(1) ng b unfolding tidy_def keys_update by (auto simp: node_at_put)
  have "children ?w (bundle_comps c) = add_name (children w (bundle_comps c))"
  proof (cases "state_comps c \<in> fst ` set (files w)")
    case True
    then have "state_name \<in> set (children w (bundle_comps c))"
      unfolding children_iff state_comps_def [symmetric] by force
    with True show ?thesis by (simp add: children_update add_name_def)
  next
    case False
    then have no: "state_name \<notin> set (children w (bundle_comps c))"
      unfolding state_listed [OF assms] node_at_key [symmetric] by (simp add: state_text_def)
    have "strict_prefix (bundle_comps c) (state_comps c)" "state_comps c ! length (bundle_comps c) = state_name"
      by (simp_all add: state_comps_def strict_prefix_def)
    with False no show ?thesis
      by (simp add: children_def put_node_def update_keys add_name_def remdups_snoc)
  qed
  then show "bundle_view c ?w = Some (add_name (children w (bundle_comps c)), Some t)"
    using b by (simp add: bundle_view_def state_text_def)
qed

definition drop_name :: "string \<Rightarrow> string list \<times> string option \<Rightarrow> string list \<times> string option" where
  "drop_name x p = (filter (\<lambda>y. y \<noteq> x) (fst p), if x = state_name then None else snd p)"

lemma children_remove: "children (remove_tree (q @ [x]) w) q = filter (\<lambda>y. y \<noteq> x) (children w q)"
proof -
  have "strict_prefix q f \<and> \<not> prefix (q @ [x]) f \<longleftrightarrow> strict_prefix q f \<and> f ! length q \<noteq> x" for f
    by (auto simp: strict_prefix_def prefix_def append_eq_Cons_conv nth_append) (metis list.exhaust nth_Cons_0)
  then show ?thesis
    by (simp add: children_def remove_tree_def filter_map comp_def case_prod_unfold remdups_filter [symmetric] conj_commute)
qed

lemma remove_entry:
  assumes "tidy c w"
  shows "bundle_view c (remove_tree (bundle_comps c @ [x]) w) = map_option (drop_name x) (bundle_view c w)"
    and "tidy c (remove_tree (bundle_comps c @ [x]) w)"
proof -
  let ?w = "remove_tree (bundle_comps c @ [x]) w"
  have sub: "fst ` set (files ?w) \<subseteq> fst ` set (files w)" by (auto simp: remove_tree_def)
  have b: "node_at ?w (bundle_comps c) = node_at w (bundle_comps c)" by simp
  have st: "node_at ?w (state_comps c) = (if x = state_name then None else node_at w (state_comps c))"
    by (simp add: state_comps_def)
  show "tidy c ?w"
  proof (cases "gone c w")
    case True
    with sub show ?thesis unfolding tidy_def gone_def by blast
  next
    case False
    with assms have w: "node_at w (bundle_comps c) = Some Dir" "node_at w (state_comps c) \<noteq> Some Dir" "node_at w (state_comps c) \<noteq> Some Sock"
      "\<forall>f \<in> fst ` set (files w). prefix (state_comps c) f \<longrightarrow> f = state_comps c"
      by (simp_all add: tidy_def)
    from w(4) sub have "\<forall>f \<in> fst ` set (files ?w). prefix (state_comps c) f \<longrightarrow> f = state_comps c" by blast
    with w(1-3) show ?thesis unfolding tidy_def b st by simp
  qed
  show "bundle_view c ?w = map_option (drop_name x) (bundle_view c w)"
    using st by (simp add: bundle_view_def children_remove drop_name_def state_text_def)
qed

lemma remove_bundle:
  assumes "tidy c w"
  shows "bundle_view c (remove_tree (bundle_comps c) w) = None" "tidy c (remove_tree (bundle_comps c) w)"
proof -
  show "bundle_view c (remove_tree (bundle_comps c) w) = None" by (simp add: bundle_view_def)
  have "gone c (remove_tree (bundle_comps c) w)" by (auto simp: gone_def remove_tree_def)
  then show "tidy c (remove_tree (bundle_comps c) w)" by (simp add: tidy_def)
qed

text \<open>Writing to a file of the bundle that is there changes no name.\<close>

lemma put_log:
  assumes "tidy c w" "node_at w (log_comps c) = Some (File t)"
  shows "bundle_view c (put_node (log_comps c) (File t') w) = bundle_view c w"
    and "tidy c (put_node (log_comps c) (File t') w)"
proof -
  have "log_comps c \<in> fst ` set (files w)" using assms(2) node_at_key [of w "log_comps c"] by simp
  then have k: "fst ` set (files (put_node (log_comps c) (File t') w)) = fst ` set (files w)"
    "children (put_node (log_comps c) (File t') w) (bundle_comps c) = children w (bundle_comps c)"
    by (simp_all add: keys_update insert_absorb children_update)
  have n: "node_at (put_node (log_comps c) (File t') w) (bundle_comps c) = node_at w (bundle_comps c)"
    "node_at (put_node (log_comps c) (File t') w) (state_comps c) = node_at w (state_comps c)"
    by (metis log_comps_simps(3) node_at_put) simp
  show "tidy c (put_node (log_comps c) (File t') w)"
    using assms(1) unfolding tidy_def gone_def k n .
  show "bundle_view c (put_node (log_comps c) (File t') w) = bundle_view c w"
    unfolding bundle_view_def state_text_def k n ..
qed

text \<open>Calls that touch no file.\<close>

definition still :: "(world, 'e, 'a) comp \<Rightarrow> bool" where
  "still m \<longleftrightarrow> (\<forall>w. files (snd (m w)) = files w)"

lemma still_rules:
  "still (ret x)" "still (throw e)"
  "still m \<Longrightarrow> (\<And>x. still (f x)) \<Longrightarrow> still (bindE m f)"
  "still m \<Longrightarrow> still m' \<Longrightarrow> still (thenE m m')"
  "still m \<Longrightarrow> still (map_err g m)"
  "still m \<Longrightarrow> still (attempt m)"
  "still (lift_result r)"
  "still (io_call K op)" "still (nix_call K op)"
  unfolding still_def
  by (auto simp: bindE_def thenE_def map_err_def attempt_def io_call_def nix_call_def lift_result_def comp_simps
      split: prod.splits sum.splits stop.splits option.splits)
     (metis snd_conv)+

lemma still_supervisor:
  assumes "\<forall>op w. k_others K op w = files w"
  shows "still (unfreeze_child K rt)" "still (map_err (\<lambda>e. SystemError (Wait e)) (nix_waitpid K pid))" "still (notify K sp ev)"
proof -
  show "still (unfreeze_child K rt)"
    unfolding unfreeze_child_def by (auto intro: still_rules split: option.split)
  have "still (nix_waitpid K pid)"
    using assms by (simp add: still_def nix_waitpid_def nix_blocking_def nix_call_def bindE_def comp_simps split: option.split)
  then show "still (map_err (\<lambda>e. SystemError (Wait e)) (nix_waitpid K pid))" by (rule still_rules)
  show "still (notify K sp ev)"
    unfolding notify_def send_event_def get_stream_sk_def by (auto intro!: still_rules split: option.split)
qed

section \<open>The small programs\<close>

type_synonym bundle_prog = "(bundle_part, core_error, unit) prog"

definition b_read :: "('k) state_kernel_scheme \<Rightarrow> string \<Rightarrow> (State \<Rightarrow> bundle_prog) \<Rightarrow> bundle_prog" where
  "b_read K c k = Step (\<lambda>b. (case b of
       Some (_, Some t) \<Rightarrow>
         (case j_state_from_str K t of Inl e \<Rightarrow> Halt (Inl (Fail (StateError (state_error.Json e)))) | Inr s \<Rightarrow> k s)
     | _ \<Rightarrow> Halt (Inl (Fail (ContainerNotFound c))), b))"

definition b_fill :: "string \<Rightarrow> bundle_prog" where
  "b_fill t = Step (\<lambda>b. (Halt (Inr ()), case b of Some (xs, Some u) \<Rightarrow> Some (xs, Some (overwrite t u)) | _ \<Rightarrow> b))"

definition b_write :: "string \<Rightarrow> bundle_prog" where
  "b_write t = Step (\<lambda>b. case b of
       None \<Rightarrow> (Halt (Inl (Fail (StateError (state_error.Io (Os ENOENT))))), None)
     | Some (xs, _) \<Rightarrow> (b_fill t, Some (add_name xs, Some [])))"

definition b_supervise :: "('k) state_kernel_scheme \<Rightarrow> string \<Rightarrow> bundle_prog" where
  "b_supervise K c = b_read K c (\<lambda>s. b_write (to_text K (set_stopped s)))"

definition stuck :: "bool \<Rightarrow> errno \<Rightarrow> core_error stop + unit" where
  "stuck force e = (if force then Inr () else Inl (Fail (CleanupFailure (Os e) ''bundle'')))"

definition b_last :: "bool \<Rightarrow> bundle_part \<Rightarrow> bundle_prog \<times> bundle_part" where
  "b_last force b = (case b of Some (x # xs, t) \<Rightarrow> (Halt (stuck force ENOTEMPTY), b) | _ \<Rightarrow> (Halt (Inr ()), None))"

primrec b_unlink :: "bool \<Rightarrow> string list \<Rightarrow> bundle_prog" where
  "b_unlink force [] = Step (b_last force)"
| "b_unlink force (x # xs) = Step (\<lambda>b. (b_unlink force xs, map_option (drop_name x) b))"

definition b_cleanup :: "bool \<Rightarrow> bundle_prog" where
  "b_cleanup force = Step (\<lambda>b. (case b of None \<Rightarrow> Halt (stuck force ENOENT) | Some (xs, _) \<Rightarrow> b_unlink force xs, b))"

definition b_delete :: "('k) state_kernel_scheme \<Rightarrow> string \<Rightarrow> bool \<Rightarrow> bundle_prog" where
  "b_delete K c force =
     (if force then b_cleanup force
      else b_read K c (\<lambda>s. if s_status s \<noteq> Stopped then Halt (Inl (Fail (ContainerNotStopped c))) else b_cleanup force))"

abbreviation follows :: "string \<Rightarrow> (world, core_error, unit) prog \<Rightarrow> bundle_prog \<Rightarrow> bool" where
  "follows c \<equiv> tracks (bundle_view c) (tidy c) (=)"

lemma follows_still:
  assumes "still m" "succeeds m" "\<And>x. follows c (k x) q"
  shows "follows c (bindP (atom m) k) q"
proof (rule tracks_skip)
  fix w
  assume w: "tidy c w"
  obtain x w' where m: "m w = (Inr x, w')" using succeedsD [OF assms(2)] by blast
  then have "files w' = files w" using assms(1) by (metis still_def snd_conv)
  from view_cong [OF this] m w assms(3) show "\<exists>x w'. m w = (Inr x, w') \<and> bundle_view c w' = bundle_view c w \<and> tidy c w' \<and> follows c (k x) q"
    by auto
qed

lemma tidy_log [simp]: "tidy c (log_op op ok w) = tidy c w" "bundle_view c (log_op op ok w) = bundle_view c w"
  "gone c (log_op op ok w) = gone c w"
  using view_cong [of "log_op op ok w" w c] by simp_all

lemma follows_read:
  assumes "plain_id c" "obliging K" "\<And>s. follows c (k s) (k' s)"
  shows "follows c (bindP (atom (read_state_file K c)) k) (b_read K c k')"
  unfolding b_read_def
proof (rule tracks_step)
  fix w
  assume w: "tidy c w"
  let ?w = "log_op (Op_read (get_state_path c)) True w"
  have rd: "read_state_file K c w = ((case state_text c w of
      Some t \<Rightarrow> (case j_state_from_str K t of Inl e \<Rightarrow> Inl (Fail (StateError (state_error.Json e))) | Inr s \<Rightarrow> Inr s)
    | None \<Rightarrow> Inl (Fail (ContainerNotFound c))), ?w)"
  proof (cases "node_at w (state_comps c)")
    case None
    then show ?thesis
      using read_state_file_not_found [OF assms(1), of w K] assms(2) by (simp add: obliging_def state_text_def)
  next
    case (Some n)
    then have "\<not> gone c w" using gone_node [of c w "state_comps c"] by auto
    with w Some obtain t where t: "node_at w (state_comps c) = Some (File t)"
      by (cases n) (auto simp: tidy_def)
    have "fs_read_to_string K (get_state_path c) w = (Inr t, ?w)"
      using assms(1,2) t by (intro fs_read_run) (simp_all add: obliging_def)
    with t show ?thesis
      by (simp add: read_state_file_def bindE_def attempt_def state_text_def lift_result_def comp_simps split: sum.split)
  qed
  then show "\<exists>r w' q. read_state_file K c w = (r, w') \<and> tidy c w' \<and>
      (case bundle_view c w of
         Some (_, Some t) \<Rightarrow>
           (case j_state_from_str K t of Inl e \<Rightarrow> Halt (Inl (Fail (StateError (state_error.Json e)))) | Inr s \<Rightarrow> k' s)
       | _ \<Rightarrow> Halt (Inl (Fail (ContainerNotFound c))), bundle_view c w) = (q, bundle_view c w') \<and>
      (case r of Inl e \<Rightarrow> follows c (Halt (Inl e)) q | Inr s \<Rightarrow> follows c (k s) q)"
    using w by (auto simp: assms(3) text_view intro: tracks.halt split: option.split sum.split)
qed

lemma dir_view: "bundle_view c w = Some (xs, t) \<Longrightarrow> node_at w (bundle_comps c) = Some Dir \<and> xs = children w (bundle_comps c)"
  by (auto simp: bundle_view_def split: if_splits)

lemma follows_fill:
  assumes "plain_id c" "obliging K" "\<And>x. follows c (k x) (Halt (Inr ()))"
  shows "follows c (bindP (atom (map_err g (fs_write_all K (get_state_path c) t))) k) (b_fill t)"
  unfolding b_fill_def
proof (rule tracks_step)
  fix w
  assume w: "tidy c w"
  let ?w = "log_op (Op_write (get_state_path c) t) True w"
  have run: "map_err g (fs_write_all K (get_state_path c) t) w = (Inr (), put_text (state_comps c) t ?w)"
    using assms(1,2) by (simp add: map_err_def fs_write_all_run obliging_def)
  have "tidy c (put_text (state_comps c) t ?w) \<and>
      bundle_view c (put_text (state_comps c) t ?w) =
      (case bundle_view c w of Some (xs, Some u) \<Rightarrow> Some (xs, Some (overwrite t u)) | _ \<Rightarrow> bundle_view c w)"
  proof (cases "state_text c w")
    case None
    then have "put_text (state_comps c) t ?w = ?w" by (auto simp: put_text_def state_text_def split: option.splits node.splits)
    with None w show ?thesis by (auto simp: text_view split: option.splits)
  next
    case (Some u)
    then have u: "node_at ?w (state_comps c) = Some (File u)" by (auto simp: state_text_def split: option.splits node.splits)
    then have dir: "node_at ?w (bundle_comps c) = Some Dir"
      using w gone_node [of c w "state_comps c"] by (auto simp: tidy_def)
    from Some dir have "state_name \<in> set (children ?w (bundle_comps c))"
      using state_listed [of c ?w] w by (simp add: state_text_def)
    with put_state [of c ?w "overwrite t u"] dir u w Some show ?thesis
      using put_text_file [OF _ u, of t] by (simp add: bundle_view_def add_name_def children_def)
  qed
  with run show "\<exists>r w' q. map_err g (fs_write_all K (get_state_path c) t) w = (r, w') \<and> tidy c w' \<and>
      (Halt (Inr ()), case bundle_view c w of Some (xs, Some u) \<Rightarrow> Some (xs, Some (overwrite t u)) | _ \<Rightarrow> bundle_view c w) =
        (q, bundle_view c w') \<and>
      (case r of Inl e \<Rightarrow> follows c (Halt (Inl e)) q | Inr x \<Rightarrow> follows c (k x) q)"
    using assms(3) by auto
qed

lemma follows_write:
  assumes "plain_id c" "obliging K" "state_codec K" "\<And>x. follows c (k x) (Halt (Inr ()))"
  shows "follows c (bindP (write_state_prog K c s) k) (b_write (to_text K s))"
proof -
  obtain t where t: "j_state_to_string K s = Inr t" using assms(3) by (auto simp: state_codec_def)
  let ?E = "\<lambda>e. StateError (state_error.Io e)"
  show ?thesis
    unfolding write_state_prog_def b_write_def to_text_def t sum.case bindP_assoc
  proof (rule tracks_step)
    fix w
    assume w: "tidy c w"
    let ?w = "log_op (Op_create (get_state_path c)) True w"
    let ?q = "case bundle_view c w of
       None \<Rightarrow> (Halt (Inl (Fail (?E (Os ENOENT)))), None)
     | Some (xs, _) \<Rightarrow> (b_fill t, Some (add_name xs, Some []))"
    have fill: "follows c (bindP (atom (map_err ?E (fs_write_all K (get_state_path c) t))) k) (b_fill t)"
      by (rule follows_fill [OF assms(1,2,4)])
    show "\<exists>r w' q. map_err ?E (fs_create K (get_state_path c)) w = (r, w') \<and> tidy c w' \<and> ?q = (q, bundle_view c w') \<and>
        (case r of Inl e \<Rightarrow> follows c (Halt (Inl e)) q
         | Inr x \<Rightarrow> follows c (bindP (atom (map_err ?E (fs_write_all K (get_state_path c) t))) k) q)"
    proof (cases "bundle_view c w")
      case None
      then have "\<not> is_dir w (bundle_comps c)"
        using gone_view [OF w] gone_node [of c w "bundle_comps c"] by (simp add: is_dir_def)
      then have "map_err ?E (fs_create K (get_state_path c)) w = (Inl (Fail (?E (Os ENOENT))), ?w)"
        using assms(1,2) by (simp add: map_err_def fs_create_def Let_def bindE_def obliging_def comp_simps)
      with None w show ?thesis by (auto intro: tracks.halt)
    next
      case (Some p)
      then obtain xs u where p: "bundle_view c w = Some (xs, u)" by (cases p) auto
      from dir_view [OF p] have dir: "node_at ?w (bundle_comps c) = Some Dir" "xs = children w (bundle_comps c)" by simp_all
      then have ng: "\<not> gone c w" using gone_node [of c w "bundle_comps c"] by auto
      have "fs_create K (get_state_path c) w = (Inr (), put_node (state_comps c) (File []) ?w)"
        using assms(1,2) dir w ng by (intro fs_create_run) (auto simp: obliging_def is_dir_def tidy_def)
      with p dir w fill put_state [of c ?w "[]"] show ?thesis
        by (simp add: map_err_def children_def)
    qed
  qed
qed

lemma follows_log:
  assumes "plain_id c" "obliging K"
  shows "follows c (atom (write_log_file K (log_path c) t)) (Halt (Inr ()))"
proof (rule tracks_last)
  fix w
  assume w: "tidy c w"
  let ?w = "log_op (Op_append (log_path c) t) True w"
  have "write_log_file K (log_path c) t w =
      (Inr (), case node_at w (log_comps c) of Some (File u) \<Rightarrow> put_node (log_comps c) (File (u @ t)) ?w | _ \<Rightarrow> ?w)"
    using assms by (simp add: write_log_file_def fs_append_def Let_def bindE_def map_err_def obliging_def comp_simps)
  with w put_log [of c ?w] show "bundle_view c (snd (write_log_file K (log_path c) t w)) = bundle_view c w \<and>
      tidy c (snd (write_log_file K (log_path c) t w)) \<and> fst (write_log_file K (log_path c) t w) = Inr ()"
    by (auto split: option.split node.split)
qed

lemma follows_supervise:
  assumes "plain_id c" "cooperative K" "state_codec K" "event_codec K"
  shows "follows c (supervise_prog K c sp ev pid (log_path c) rt) (b_supervise K c)"
proof -
  have K: "obliging K" "\<forall>op w. k_others K op w = files w" using assms(2) by (simp_all add: cooperative_def)
  have "follows c (bindP (update_state_prog K c set_stopped) (\<lambda>_. atom (write_log_file K (log_path c) t))) (b_supervise K c)" for t
    unfolding update_state_prog_def b_supervise_def bindP_assoc
    by (intro follows_read follows_write assms K) (simp add: follows_log assms K)
  then show ?thesis
    unfolding supervise_prog_def by (intro follows_still still_supervisor progress assms K)
qed

text \<open>The end of \<open>delete\<close>: with \<open>force\<close> the result of the removal is dropped.\<close>

definition tail :: "bool \<Rightarrow> io_error stop + unit \<Rightarrow> core_error stop + unit" where
  "tail force r =
     (if force then (case caught r of Inl e \<Rightarrow> Inl e | Inr _ \<Rightarrow> Inr ())
      else map_sum (map_stop (\<lambda>e. CleanupFailure e ''bundle'')) id r)"

lemma handleP_bind_end: "bindP (handleP h p) (\<lambda>_. Halt (Inr ())) = handleP (\<lambda>r. case h r of Inl e \<Rightarrow> Inl e | Inr _ \<Rightarrow> Inr ()) p"
proof (induction p)
  case (Halt r)
  then show ?case by (simp split: sum.split)
next
  case (Step f)
  have "bindP (handleP h (fst (f w))) (\<lambda>_. Halt (Inr ())) = handleP (\<lambda>r. case h r of Inl e \<Rightarrow> Inl e | Inr _ \<Rightarrow> Inr ()) (fst (f w))" for w
    using Step [of "f w" "fst (f w)"] by (simp add: fsts.simps prod_eq_iff)
  then show ?case by (simp add: fun_eq_iff prod_eq_iff)
qed simp

lemma handleP_step:
  "handleP h (bindP (atom m) k) =
     Step (\<lambda>w. case m w of (Inl e, w') \<Rightarrow> (Halt (h (Inl e)), w') | (Inr x, w') \<Rightarrow> (handleP h (k x), w'))"
  by (auto simp: bind_atom fun_eq_iff split: prod.split sum.split)

lemma tail_simps:
  "tail force (Inr ()) = Inr ()" "tail force (Inl (Fail (Os e))) = stuck force e"
  by (simp_all add: tail_def stuck_def)

lemma follows_unlink:
  "follows c (handleP (tail force) (unlink_prog (bundle_comps c) xs (atom (rmtree_last (bundle_comps c))))) (b_unlink force xs)"
proof (induction xs)
  case Nil
  show ?case
    unfolding unlink_prog.simps b_unlink.simps b_last_def [abs_def] handleP_atom
  proof (rule tracks.step, goal_cases)
    case (1 w)
    note no = remove_bundle [OF 1]
    have empty: "bundle_view c w = None \<Longrightarrow> children w (bundle_comps c) = []" using gone_view [OF 1] gone_children by simp
    show ?case
    proof (cases "bundle_view c w")
      case None
      with no empty show ?thesis by (simp add: rmtree_last_def comp_simps tail_simps tracks.halt)
    next
      case (Some p)
      then obtain t where "bundle_view c w = Some (children w (bundle_comps c), t)" by (cases p) (auto dest: dir_view)
      with no 1 show ?thesis
        by (cases "children w (bundle_comps c)") (simp_all add: rmtree_last_def comp_simps tail_simps tracks.halt)
    qed
  qed
next
  case (Cons x xs)
  show ?case
    unfolding unlink_prog.simps b_unlink.simps handleP_step
    by (rule tracks.step) (simp add: ret_def remove_entry Cons)
qed

lemma follows_cleanup:
  assumes "plain_id c" "obliging K"
  shows "follows c (cleanup_prog K c force) (b_cleanup force)"
proof -
  have ps: "is_pseudo (norm_path (k_cwd K) (cgroup_dir c))"
    using assms(1) unfolding cgroup_dir_child by simp
  then have rm: "still (fs_remove_dir K (cgroup_dir c))" "succeeds (fs_remove_dir K (cgroup_dir c))"
    using assms(2) by (simp_all add: still_def succeeds_def fs_remove_dir_def Let_def bindE_def obliging_def comp_simps)
  have at: "still (attempt (fs_remove_dir K (cgroup_dir c)))" "succeeds (attempt (fs_remove_dir K (cgroup_dir c)))"
    "still (map_err (\<lambda>e. CleanupFailure e ''cgroup'') (fs_remove_dir K (cgroup_dir c)))"
    "succeeds (map_err (\<lambda>e. CleanupFailure e ''cgroup'') (fs_remove_dir K (cgroup_dir c)))"
    using rm by (auto intro: still_rules progress) (auto simp: succeeds_def attempt_ok, metis)
  have tree: "follows c (handleP (tail force) (rmtree_prog K (get_bundle_path c))) (b_cleanup force)"
    unfolding rmtree_prog_def norm_bundle_path [OF assms(1)] Let_def handleP_step b_cleanup_def
  proof (rule tracks.step, goal_cases)
    case (1 w)
    let ?w = "log_op (Op_rmtree (get_bundle_path c)) True w"
    have "rmtree_list K (get_bundle_path c) w = (if node_at w (bundle_comps c) = Some Dir then Inr (children w (bundle_comps c)) else Inl (Fail (Os ENOENT)), ?w)"
      using assms 1 gone_node [of c w "bundle_comps c"]
      by (auto simp: rmtree_list_def Let_def bindE_def obliging_def tidy_def comp_simps split: option.split)
    with 1 follows_unlink [of c force] show ?case
      by (cases "bundle_view c w") (auto simp: bundle_view_def [of c w] tail_simps intro: tracks.halt split: if_splits)
  qed
  show ?thesis
  proof (cases force)
    case True
    have "bindP (attemptP (rmtree_prog K (get_bundle_path c))) (\<lambda>_. Halt (Inr ())) = handleP (tail force) (rmtree_prog K (get_bundle_path c))"
      by (simp add: handleP_bind_end tail_def [abs_def] True)
    with tree True show ?thesis unfolding cleanup_prog_def Let_def by (auto intro: follows_still at)
  next
    case False
    have "map_errP (\<lambda>e. CleanupFailure e ''bundle'') (rmtree_prog K (get_bundle_path c)) = handleP (tail force) (rmtree_prog K (get_bundle_path c))"
      by (simp add: tail_def [abs_def] False)
    with tree False show ?thesis unfolding cleanup_prog_def Let_def by (auto intro: follows_still at)
  qed
qed

lemma follows_delete:
  assumes "plain_id c" "obliging K"
  shows "follows c (delete_prog K c force) (b_delete K c force)"
  unfolding delete_prog_def b_delete_def
  by (auto intro!: follows_read follows_cleanup assms tracks.halt)

section \<open>All orders of the small programs\<close>

definition text_of :: "bundle_part \<Rightarrow> string option" where
  "text_of b = (case b of None \<Rightarrow> None | Some (_, u) \<Rightarrow> u)"

text \<open>The entries still to be removed, and perhaps the state file, are all there is.\<close>

definition listed :: "string list \<Rightarrow> bundle_part \<Rightarrow> bool" where
  "listed xs b \<longleftrightarrow> (case b of None \<Rightarrow> True
     | Some (ys, u) \<Rightarrow> distinct ys \<and> set ys \<subseteq> insert state_name (set xs) \<and> (state_name \<in> set ys \<longleftrightarrow> u \<noteq> None))"

definition removed_or_left :: "string \<Rightarrow> core_error stop + unit \<Rightarrow> core_error stop + unit \<Rightarrow> bundle_part \<Rightarrow> bool" where
  "removed_or_left t r r' b \<longleftrightarrow> r = Inr () \<and> (b = None \<or> b = Some ([state_name], Some t) \<and> r' = Inr ())"

lemma listed_drop: "listed (x # xs) b \<Longrightarrow> listed xs (map_option (drop_name x) b)"
  by (auto simp: listed_def drop_name_def split: option.splits)

lemma listed_add: "listed xs (Some (ys, u)) \<Longrightarrow> listed xs (Some (add_name ys, Some w))"
  by (auto simp: listed_def add_name_def)

lemma listed_fill: "listed xs (Some (ys, Some u)) \<Longrightarrow> listed xs (Some (ys, Some w))"
  by (auto simp: listed_def)

lemma listed_nil: "listed [] b \<Longrightarrow> b = None \<or> b = Some ([], None) \<or> (\<exists>u. b = Some ([state_name], Some u))"
proof (cases b)
  case (Some p)
  obtain ys u where p: "p = (ys, u)" by (cases p)
  assume "listed [] b"
  then have "distinct ys" "set ys \<subseteq> {state_name}" "state_name \<in> set ys \<longleftrightarrow> u \<noteq> None" by (simp_all add: listed_def Some p)
  moreover from this(1,2) have "ys = [] \<or> ys = [state_name]"
    by (cases ys rule: remdups_adj.cases) auto
  ultimately show ?thesis by (auto simp: Some p)
qed simp

lemma text_of_drop: "text_of (map_option (drop_name x) b) = (if x = state_name then None else text_of b)"
  by (auto simp: text_of_def drop_name_def split: option.split)

lemma race_done:
  assumes "interleave (b_unlink True xs) (Halt x) b r r' v" "listed xs b"
    and "state_name \<in> set xs \<or> text_of b = None \<or> text_of b = Some t \<and> x = Inr ()"
  shows "removed_or_left t r r' v"
  using assms
proof (induction xs arbitrary: b)
  case Nil
  from Nil(3) listed_nil [OF Nil(2)] Nil(1) show ?case
    by (auto simp: interleave_simps b_last_def removed_or_left_def text_of_def stuck_def)
next
  case (Cons y xs)
  from Cons.prems(1) have "interleave (b_unlink True xs) (Halt x) (map_option (drop_name y) b) r r' v"
    by (simp add: interleave_simps)
  from Cons.IH [OF this listed_drop [OF Cons.prems(2)]] Cons.prems(3) show ?case
    by (auto simp: text_of_drop)
qed

text \<open>
  One more step \<open>g\<close> of the supervisor, somewhere during the removal. \<open>C\<close> holds of whether the
  state file is still to be removed and of its text.
\<close>

lemma race_step:
  assumes "interleave (b_unlink True xs) (Step g) b r r' v" "listed xs b" "C (state_name \<in> set xs) (text_of b)"
    and drop: "\<And>n m u. C n u \<Longrightarrow> n \<Longrightarrow> C m None"
    and move: "\<And>xs b. listed xs b \<Longrightarrow> C (state_name \<in> set xs) (text_of b) \<Longrightarrow>
      interleave (b_unlink True xs) (fst (g b)) (snd (g b)) r r' v \<Longrightarrow> P"
    and last: "\<And>b p b1. listed [] b \<Longrightarrow> C False (text_of b) \<Longrightarrow> b_last True b = (p, b1) \<Longrightarrow> interleave p (Step g) b1 r r' v \<Longrightarrow> P"
  shows P
  using assms(1-3)
proof (induction xs arbitrary: b)
  case Nil
  from Nil(1) consider p b1 where "b_last True b = (p, b1)" "interleave p (Step g) b1 r r' v"
    | "interleave (b_unlink True []) (fst (g b)) (snd (g b)) r r' v"
    by (auto simp: interleave_simps)
  then show ?case by cases (use Nil(2,3) last move in auto)
next
  case (Cons y xs)
  from Cons.prems(1) consider "interleave (b_unlink True xs) (Step g) (map_option (drop_name y) b) r r' v"
    | "interleave (b_unlink True (y # xs)) (fst (g b)) (snd (g b)) r r' v"
    by (auto simp: interleave_simps)
  then show ?case
  proof cases
    case 1
    have "C (state_name \<in> set xs) (text_of (map_option (drop_name y) b))"
      using Cons.prems(3) drop by (auto simp: text_of_drop)
    from Cons.IH [OF 1 listed_drop [OF Cons.prems(2)] this] show ?thesis .
  next
    case 2
    from move [OF Cons.prems(2,3) 2] show ?thesis .
  qed
qed

lemma race_fill:
  assumes "interleave (b_unlink True xs) (b_fill t) b r r' v" "listed xs b"
    and "state_name \<in> set xs \<or> text_of b = None \<or> text_of b = Some []"
  shows "removed_or_left t r r' v"
  using assms(1) [unfolded b_fill_def] assms(2,3)
proof (rule race_step [where C = "\<lambda>n u. n \<or> u = None \<or> u = Some []"], goal_cases)
  case (2 xs b)
  let ?f = "case b of Some (xs, Some u) \<Rightarrow> Some (xs, Some (overwrite t u)) | _ \<Rightarrow> b"
  have "listed xs ?f" "text_of ?f = map_option (overwrite t) (text_of b)"
    using 2(1) by (auto simp: text_of_def intro: listed_fill split: option.split)
  with 2(2,3) race_done [of xs "Inr ()" ?f r r' v t] show ?case by auto
next
  case (3 b p b1)
  with listed_nil [OF 3(1)] show ?case
    by (auto simp: b_last_def interleave_simps removed_or_left_def text_of_def stuck_def)
qed auto

lemma race_write:
  assumes "interleave (b_unlink True xs) (b_write t) b r r' v" "listed xs b" "state_name \<in> set xs \<or> text_of b = None"
  shows "removed_or_left t r r' v"
  using assms(1) [unfolded b_write_def] assms(2,3)
proof (rule race_step [where C = "\<lambda>n u. n \<or> u = None"], goal_cases)
  case (2 xs b)
  show ?case
  proof (cases b)
    case None
    with 2(3) race_done [of xs _ None r r' v t] show ?thesis by (auto simp: listed_def text_of_def)
  next
    case (Some p)
    then obtain ys u where b: "b = Some (ys, u)" by (cases p) auto
    have "listed xs (Some (add_name ys, Some []))" using 2(1) listed_add unfolding b by blast
    with 2(3) race_fill [of xs t "Some (add_name ys, Some [])" r r' v] show ?thesis by (simp add: b text_of_def)
  qed
next
  case (3 b p b1)
  with listed_nil [OF 3(1)] show ?case
    by (auto simp: b_last_def interleave_simps removed_or_left_def text_of_def)
qed auto

lemma race_supervise:
  assumes "interleave (b_unlink True xs) (b_supervise K c) b r r' v" "listed xs b" "j_state_from_str K t0 = Inr s"
    and "text_of b = None \<or> state_name \<in> set xs \<and> text_of b = Some t0"
  shows "removed_or_left (to_text K (set_stopped s)) r r' v"
  using assms(1) [unfolded b_supervise_def b_read_def] assms(2,4)
proof (rule race_step [where C = "\<lambda>n u. u = None \<or> n \<and> u = Some t0"], goal_cases)
  case (2 xs b)
  show ?case
  proof (cases "text_of b")
    case None
    with 2(1,3) race_done [of xs _ b r r' v "to_text K (set_stopped s)"] show ?thesis
      by (auto simp: text_of_def split: option.splits)
  next
    case (Some u)
    with 2(2) obtain ys where b: "b = Some (ys, Some t0)" and n: "state_name \<in> set xs" by (auto simp: text_of_def split: option.splits)
    with 2(1,3) race_write [of xs "to_text K (set_stopped s)" b r r' v] show ?thesis by (simp add: assms(3))
  qed
next
  case (3 b p b1)
  with listed_nil [OF 3(1)] show ?case
    by (auto simp: b_last_def interleave_simps removed_or_left_def text_of_def)
qed auto

text \<open>The removal with nothing in between.\<close>

lemma unlink_leads: "leads (b_unlink force xs) b (b_unlink force []) (fold (\<lambda>x. map_option (drop_name x)) xs b)"
  by (induction xs arbitrary: b) (auto intro: leads.intros)

lemma fold_drop:
  "fold (\<lambda>x. map_option (drop_name x)) xs (Some (ys, u)) =
     Some (filter (\<lambda>y. y \<notin> set xs) ys, if state_name \<in> set xs then None else u)"
  by (induction xs arbitrary: ys u) (auto simp: drop_name_def intro: filter_cong)

lemma unlink_alone:
  assumes "interleave (b_unlink force xs) (Halt x) (Some (ys, u)) r r' v" "set ys \<subseteq> set xs"
  shows "v = None \<and> r = Inr () \<and> r' = x"
  using assms
proof (induction xs arbitrary: ys u)
  case Nil
  then show ?case by (simp add: interleave_simps b_last_def)
next
  case (Cons y xs)
  have "map_option (drop_name y) (Some (ys, u)) = Some (filter (\<lambda>z. z \<noteq> y) ys, if y = state_name then None else u)"
    unfolding drop_name_def option.map fst_conv snd_conv ..
  moreover have "interleave (b_unlink force xs) (Halt x) (map_option (drop_name y) (Some (ys, u))) r r' v"
    using Cons.prems(1) by (simp only: b_unlink.simps interleave_simps prod.inject) blast
  ultimately have "interleave (b_unlink force xs) (Halt x) (Some (filter (\<lambda>z. z \<noteq> y) ys, if y = state_name then None else u)) r r' v"
    by (simp only:)
  from Cons.IH [OF this] Cons.prems(2) show ?case by auto
qed

lemma leftover_order:
  assumes "distinct ys" "state_name \<in> set ys" "j_state_from_str K t0 = Inr s"
  shows "interleave (b_delete K c True) (b_supervise K c) (Some (ys, Some t0)) (Inr ()) (Inr ())
    (Some ([state_name], Some (to_text K (set_stopped s))))"
proof -
  let ?t = "to_text K (set_stopped s)"
  have "interleave (b_unlink True []) (b_write ?t) (Some ([], None)) (Inr ()) (Inr ()) (Some ([state_name], Some ?t))"
    by (simp add: b_write_def b_fill_def interleave_simps b_last_def add_name_def stuck_def)
  moreover have "filter (\<lambda>y. y \<notin> set ys) ys = []" by simp
  ultimately have "interleave (b_unlink True ys) (b_write ?t) (Some (ys, Some t0)) (Inr ()) (Inr ()) (Some ([state_name], Some ?t))"
    using assms(2) by - (rule interleave_leads [OF unlink_leads], simp add: fold_drop)
  then have "interleave (b_unlink True ys) (b_supervise K c) (Some (ys, Some t0)) (Inr ()) (Inr ()) (Some ([state_name], Some ?t))"
    unfolding b_supervise_def b_read_def by - (rule interleave_step(2), simp add: assms(3))
  then show ?thesis
    unfolding b_delete_def b_cleanup_def by (simp only: if_True) (rule interleave_step(1), simp)
qed

lemma gone_order:
  assumes "state_name \<in> set ys"
  shows "interleave (b_delete K c True) (b_supervise K c) (Some (ys, Some t0)) (Inr ()) (Inl (Fail (ContainerNotFound c))) None"
proof -
  have "interleave (b_unlink True []) (b_supervise K c) (Some ([], None)) (Inr ()) (Inl (Fail (ContainerNotFound c))) None"
    by (simp add: b_supervise_def b_read_def interleave_simps b_last_def)
  moreover have "filter (\<lambda>y. y \<notin> set ys) ys = []" by simp
  ultimately have "interleave (b_unlink True ys) (b_supervise K c) (Some (ys, Some t0)) (Inr ()) (Inl (Fail (ContainerNotFound c))) None"
    using assms by - (rule interleave_leads [OF unlink_leads], simp add: fold_drop)
  then show ?thesis
    unfolding b_delete_def b_cleanup_def by (simp only: if_True) (rule interleave_step(1), simp)
qed

lemma force_delete_orders:
  assumes "interleave (b_delete K c True) (b_supervise K c) (Some (ys, Some t0)) r r' v"
    and "distinct ys" "state_name \<in> set ys" "j_state_from_str K t0 = Inr s"
  shows "removed_or_left (to_text K (set_stopped s)) r r' v"
proof -
  let ?t = "to_text K (set_stopped s)"
  have l: "listed ys (Some (ys, Some u))" for u using assms(2,3) by (auto simp: listed_def)
  have add: "add_name ys = ys" using assms(3) by (simp add: add_name_def)
  note races = race_supervise [OF _ l assms(4)] race_write [OF _ l] race_fill [OF _ l] race_done [OF _ l]
  from assms(1) consider "interleave (b_unlink True ys) (b_supervise K c) (Some (ys, Some t0)) r r' v"
    | "interleave (b_unlink True ys) (b_write ?t) (Some (ys, Some t0)) r r' v"
    | "interleave (b_unlink True ys) (b_fill ?t) (Some (ys, Some [])) r r' v"
    | "interleave (b_unlink True ys) (Halt (Inr ())) (Some (ys, Some ?t)) r r' v"
    unfolding b_delete_def b_cleanup_def b_supervise_def b_read_def b_write_def b_fill_def
    by (auto simp: interleave_simps assms(4) add)
  then show ?thesis by cases (use assms(3) races in \<open>auto simp: text_of_def\<close>)
qed

lemma plain_delete_orders:
  assumes "interleave (b_delete K c False) (b_supervise K c) (Some (ys, Some t0)) r r' v" "state_name \<in> set ys"
    and "state_codec K" "j_state_from_str K t0 = Inr s" "s_status s \<noteq> Stopped" "j_state_from_str K [] = Inl e"
  shows "r' = Inr () \<and> (r = Inr () \<and> v = None \<or>
    r \<in> {Inl (Fail (ContainerNotStopped c)), Inl (Fail (StateError (state_error.Json e)))} \<and> v = Some (ys, Some (to_text K (set_stopped s))))"
proof -
  have st: "s_status (set_stopped s) = Stopped" by (simp add: set_state_defs)
  have add: "add_name ys = ys" using assms(2) by (simp add: add_name_def)
  have alone: "interleave (b_cleanup False) (Halt (Inr ())) (Some (ys, Some t)) r r' v \<Longrightarrow> v = None \<and> r = Inr () \<and> r' = Inr ()" for t
    unfolding b_cleanup_def using unlink_alone [of False ys "Inr ()" ys "Some t" r r' v] by (simp add: interleave_simps)
  show ?thesis
    using assms(1) unfolding b_delete_def b_supervise_def b_read_def b_write_def b_fill_def
    by (auto simp: interleave_simps assms(4-6) from_to_text [OF assms(3)] st add dest!: alone)
qed

section \<open>Properties\<close>

text \<open>Of the bundle only the state file is there, with the state \<open>s\<close>.\<close>

definition left_over :: "('k) state_kernel_scheme \<Rightarrow> string \<Rightarrow> State \<Rightarrow> world \<Rightarrow> bool" where
  "left_over K c s w \<longleftrightarrow>
     node_at w (bundle_comps c) = Some Dir \<and> children w (bundle_comps c) = [state_name] \<and> stored K w c = Some s"

lemma stored_view:
  assumes "bundle_view c w = Some (xs, Some t)"
  shows "stored K w c = (case j_state_from_str K t of Inl _ \<Rightarrow> None | Inr s \<Rightarrow> Some s)"
  using assms by (auto simp: bundle_view_def state_text_def stored_def split: if_splits option.splits node.splits)

lemma left_over_view:
  assumes "state_codec K" "bundle_view c w = Some ([state_name], Some (to_text K s))"
  shows "left_over K c s w"
  using assms(2) dir_view [OF assms(2)] by (simp add: left_over_def stored_view [OF assms(2)] from_to_text [OF assms(1)])

lemma start_view:
  assumes "in_place c w" "tidy c w" "stored K w c = Some s"
  obtains ys t where "bundle_view c w = Some (ys, Some t)" "distinct ys" "state_name \<in> set ys" "j_state_from_str K t = Inr s"
proof -
  from assms(1) have dir: "node_at w (bundle_comps c) = Some Dir" and "\<exists>t. node_at w (state_comps c) = Some (File t)"
    by (simp_all add: in_place_def)
  then obtain t where t: "node_at w (state_comps c) = Some (File t)" by blast
  show ?thesis
  proof (rule that)
    show v: "bundle_view c w = Some (children w (bundle_comps c), Some t)" using dir t by (simp add: bundle_view_def state_text_def)
    show "state_name \<in> set (children w (bundle_comps c))" using state_listed [OF assms(2) dir] t by (simp add: state_text_def)
    show "j_state_from_str K t = Inr s" using assms(3) stored_view [OF v, of K] by (simp split: sum.splits)
  qed (rule distinct_children)
qed

lemma nowait_small: "nowait (b_unlink force xs)" "nowait (b_delete K c force)" "nowait (b_supervise K c)"
proof -
  have u: "nowait (b_unlink f ys)" for f ys
    by (induction ys) (simp_all add: b_last_def split: option.split list.split)
  then show "nowait (b_unlink force xs)" .
  from u show "nowait (b_delete K c force)"
    by (simp add: b_delete_def b_read_def b_cleanup_def split: option.split sum.split)
  show "nowait (b_supervise K c)"
    by (simp add: b_supervise_def b_read_def b_write_def b_fill_def split: option.split sum.split)
qed

lemma nowait_delete: "nowait (delete_prog K c force)"
  by (auto simp: delete_prog_def nowait_cleanup intro!: nowait_bindP)

text \<open>
  C20. A forced \<open>delete\<close> of a container that is running always reports success, but the supervisor
  can undo a part of it. In every order of their steps either nothing of the bundle is left, or the
  bundle directory is left with the state file alone, which says stopped: the supervisor has
  recorded the end between the removal of the old state file and that of the directory, and
  \<open>force\<close> hides the failure. Both do occur; when the removal is the first, the supervisor fails.
\<close>

theorem force_delete_race:
  assumes "plain_id c" "cooperative K" "state_codec K" "event_codec K"
    and "in_place c w" "tidy c w" "stored K w c = Some s"
  shows "(\<forall>r r' v. interleave (delete_prog K c True) (supervise_prog K c sp ev pid (log_path c) rt) w r r' v \<longrightarrow>
      r = Inr () \<and> (gone c v \<or> left_over K c (set_stopped s) v \<and> r' = Inr ())) \<and>
    (\<exists>v. interleave (delete_prog K c True) (supervise_prog K c sp ev pid (log_path c) rt) w (Inr ()) (Inr ()) v \<and>
      left_over K c (set_stopped s) v) \<and>
    (\<exists>v. interleave (delete_prog K c True) (supervise_prog K c sp ev pid (log_path c) rt) w (Inr ())
      (Inl (Fail (ContainerNotFound c))) v \<and> gone c v)"
proof -
  let ?D = "delete_prog K c True" and ?S = "supervise_prog K c sp ev pid (log_path c) rt"
  have K: "obliging K" using assms(2) by (simp add: cooperative_def)
  note D = follows_delete [OF assms(1) K, of True] and S = follows_supervise [OF assms(1-4), of sp ev pid rt]
  note nw = nowait_delete [of K c True] nowait_progs(2) [of K c sp ev pid "log_path c" rt] nowait_small(2,3)
  obtain ys t0 where b: "bundle_view c w = Some (ys, Some t0)" "distinct ys" "state_name \<in> set ys" "j_state_from_str K t0 = Inr s"
    by (rule start_view [OF assms(5-7)])
  have all: "r = Inr () \<and> (gone c v \<or> left_over K c (set_stopped s) v \<and> r' = Inr ())" if "interleave ?D ?S w r r' v" for r r' v
  proof -
    from interleave_tracks [OF that D S assms(6)]
    have v: "tidy c v" "interleave (b_delete K c True) (b_supervise K c) (Some (ys, Some t0)) r r' (bundle_view c v)"
      by (auto simp: b(1))
    from force_delete_orders [OF v(2) b(2-4)] gone_view [OF v(1)] left_over_view [OF assms(3), of c v "set_stopped s"] show ?thesis
      by (auto simp: removed_or_left_def)
  qed
  note run = interleave_complete [OF _ D S nw assms(6) b(1)]
  from run [OF leftover_order [OF b(2-4)]] left_over_view [OF assms(3)]
  have 1: "\<exists>v. interleave ?D ?S w (Inr ()) (Inr ()) v \<and> left_over K c (set_stopped s) v" by blast
  from run [OF gone_order [OF b(3)]] gone_view
  have 2: "\<exists>v. interleave ?D ?S w (Inr ()) (Inl (Fail (ContainerNotFound c))) v \<and> gone c v" by blast
  from all 1 2 show ?thesis by blast
qed

text \<open>
  C21. A \<open>delete\<close> without \<open>force\<close> and the end of the container do not race: in every order of their
  steps the supervisor succeeds, and either the delete succeeds and nothing of the bundle is left,
  or it is refused, because the container is not stopped yet or its state file is just being
  written, and the state file ends as the stopped state.
\<close>

theorem delete_exit_race:
  assumes "plain_id c" "cooperative K" "state_codec K" "event_codec K" "j_state_from_str K [] = Inl e"
    and "in_place c w" "tidy c w" "stored K w c = Some s" "s_status s \<noteq> Stopped"
    and "interleave (delete_prog K c False) (supervise_prog K c sp ev pid (log_path c) rt) w r r' v"
  shows "r' = Inr () \<and> (r = Inr () \<and> gone c v \<or>
    r \<in> {Inl (Fail (ContainerNotStopped c)), Inl (Fail (StateError (state_error.Json e)))} \<and> stored K v c = Some (set_stopped s))"
proof -
  have K: "obliging K" using assms(2) by (simp add: cooperative_def)
  obtain ys t0 where b: "bundle_view c w = Some (ys, Some t0)" "state_name \<in> set ys" "j_state_from_str K t0 = Inr s"
    by (rule start_view [OF assms(6-8)])
  from interleave_tracks [OF assms(10) follows_delete [OF assms(1) K] follows_supervise [OF assms(1-4)] assms(7)]
  have v: "tidy c v" "interleave (b_delete K c False) (b_supervise K c) (Some (ys, Some t0)) r r' (bundle_view c v)"
    by (auto simp: b(1))
  from plain_delete_orders [OF v(2) b(2) assms(3) b(3) assms(9,5)] gone_view [OF v(1)]
    stored_view [of c v ys "to_text K (set_stopped s)" K] from_to_text [OF assms(3)]
  show ?thesis by auto
qed

end
