(* ===== verification/Life.thy ===== *)
theory Life
  imports Removal
begin

text \<open>
  The whole life of a container as a run of three tasks on one world: the supervisor that creates
  it, \<open>start\<close>, and \<open>delete\<close>. Here \<open>accept\<close> really waits for \<open>start\<close>, which the theorems about
  \<open>create\<close> alone leave to the kernel.
\<close>

text \<open>A task that waits for another one, and a third one after them.\<close>

lemma pool_release:
  assumes "advance p w = (Await g q, w1)" "advance a w1 = (Halt x, w2)" "g w2"
    and "advance q w2 = (Halt y, w3)" "advance d w3 = (Halt z, w4)"
  shows "pool_run env new ([p, a, d], w) ([Await g q, a, d], w1)"
    "pool_run env new ([Await g q, a, d], w1) ([Await g q, Halt x, d], w2)"
    "pool_run env new ([Await g q, Halt x, d], w2) ([Halt y, Halt x, d], w3)"
    "pool_run env new ([Halt y, Halt x, d], w3) ([Halt y, Halt x, Halt z], w4)"
proof -
  show "pool_run env new ([p, a, d], w) ([Await g q, a, d], w1)"
    using pool_advance [OF assms(1), of env new "[]" "[a, d]"] by simp
  show "pool_run env new ([Await g q, a, d], w1) ([Await g q, Halt x, d], w2)"
    using pool_advance [OF assms(2), of env new "[Await g q]" "[d]"] by simp
  have "pool env new ([Await g q, Halt x, d], w2) ([q, Halt x, d], w2)"
    using pool.await [of g w2 env new "[]" q "[Halt x, d]", OF assms(3)] by simp
  moreover have "pool_run env new ([q, Halt x, d], w2) ([Halt y, Halt x, d], w3)"
    using pool_advance [OF assms(4), of env new "[]" "[Halt x, d]"] by simp
  ultimately show "pool_run env new ([Await g q, Halt x, d], w2) ([Halt y, Halt x, d], w3)"
    by (rule converse_rtranclp_into_rtranclp)
  show "pool_run env new ([Halt y, Halt x, d], w3) ([Halt y, Halt x, Halt z], w4)"
    using pool_advance [OF assms(5), of env new "[Halt y, Halt x]" "[]"] by simp
qed

text \<open>The supervisor from an unused id to where it waits.\<close>

lemma create_waits:
  assumes "friendly K" "plain_id c" "state_codec K" "event_codec K" "slice_to c (min (length c) 9) = Some host"
    and "fresh c w" "\<not> is_pseudo (norm_path (k_cwd K) (cfg @ ''/config.json''))"
    and "node_at w (norm_path (k_cwd K) (cfg @ ''/config.json'')) = Some (File raw)"
    and "j_config_from_str K raw = Inr config" "get_root_path config \<noteq> []" "get_process_args config = Some (a # as)"
  obtains rt pid fd w1 where "advance (create_prog K c cfg sp) w = (waiting_prog K c sp (Event_new c Created (Some 0)) pid rt fd, w1)"
    "in_place c w1" "usable c w1" "\<not> connected c w1"
    "intact K w1 c (set_created pid (State_new (c_oci_version config) c Creating None (get_bundle_path c) None))"
proof -
  note ob = cooperative_obliging [OF friendly_cooperative [OF assms(1)]]
  let ?w = "log_op (Op_exists (get_bundle_path c)) True w"
  have ex: "path_exists K (get_bundle_path c) w = (Inr False, ?w)"
    using assms(2,6) ob by (simp add: path_exists_def fs_exists_def Let_def obliging_def fresh_def)
  have u: "usable c ?w" using fresh_usable [OF assms(6)] by (simp add: usable_def)
  have cf: "node_at ?w (norm_path (k_cwd K) (cfg @ ''/config.json'')) = Some (File raw)" using assms(8) by simp
  obtain rt pid q w1 where found: "advance (create_found_prog K c cfg sp) ?w = (q, w1)"
    "if node_at ?w (socket_comps c) = None
     then (\<exists>fd. q = waiting_prog K c sp (Event_new c Created (Some 0)) pid rt fd) \<and>
       node_at w1 (socket_comps c) = Some Sock \<and> \<not> connected c w1
     else q = Halt (Inl (Fail (from_runtime (runtime_error.BindFailure EADDRINUSE))))"
    "intact K w1 c (set_created pid (State_new (c_oci_version config) c Creating None (get_bundle_path c) None))"
    "usable c w1"
    by (rule create_found_run [OF assms(1-5) u assms(7) cf assms(9-11) refl]) (rule that)
  have "node_at ?w (socket_comps c) = None" using fresh_below(4) [OF assms(6)] by simp
  with found(2) obtain fd where q: "q = waiting_prog K c sp (Event_new c Created (Some 0)) pid rt fd"
    "node_at w1 (socket_comps c) = Some Sock" "\<not> connected c w1" by auto
  have "advance (create_prog K c cfg sp) w = (q, w1)"
    using ex found(1) by (simp add: create_prog_def advance_bind)
  moreover have "in_place c w1"
    using found(3) q(2) stored_file [of K w1 c] by (auto simp: intact_def in_place_def)
  ultimately show ?thesis using that q found(3,4) by blast
qed

lemma nowait_start: "nowait (start_prog K c)"
  by (auto simp: start_prog_def intro!: nowait_bindP nowait_progs)

text \<open>\<open>start\<close> succeeds on the waiting container and opens its way.\<close>

lemma start_connects:
  assumes "plain_id c" "obliging K" "state_codec K" "in_place c w" "stored K w c = Some s" "s_status s = Created"
  obtains w' where "start K c w = (Inr (), w')" "intact K w' c (set_running s)" "connected c w'"
proof -
  have rd: "read_state_file K c w = (Inr s, log_op (Op_read (get_state_path c)) True w)"
    using assms(1,2,5) by (intro read_state_file_stored) (auto simp: obliging_def)
  obtain w2 where w2: "connect_create_process K c (log_op (Op_read (get_state_path c)) True w) = (Inr (), w2)"
    "in_place c w2" "stored K w2 c = Some s"
    by (rule acts_run [OF acts_connect [OF assms(1,2)] assms(4,5)])
  then have "intact K w2 c s" by (simp add: intact_def in_place_def)
  then obtain w3 where w3: "update_state K c set_running w2 = (Inr (set_running s), w3)" "intact K w3 c (set_running s)"
    using update_state_run [OF assms(1,3,2)] by metis
  have "emits (\<lambda>op. op \<noteq> Op_bind (get_socket_path c)) (update_state K c set_running)"
    by (intro emits_state_ops) simp_all
  from emitsD [OF this w3(1)] obtain h where h: "hist w3 = hist w2 @ h" "\<forall>e \<in> set h. fst e \<noteq> Op_bind (get_socket_path c)" by blast
  obtain h0 where h0: "hist w2 = h0 @ [(Op_connect (get_socket_path c), True)]"
    using connect_hist [OF assms(1) w2(1)] by auto
  have "takeWhile (\<lambda>e. e \<noteq> (Op_bind (get_socket_path c), True)) (rev h @ (Op_connect (get_socket_path c), True) # rev h0) =
      rev h @ (Op_connect (get_socket_path c), True) # takeWhile (\<lambda>e. e \<noteq> (Op_bind (get_socket_path c), True)) (rev h0)"
    using h(2) by (subst takeWhile_append2) auto
  then have "connected c w3" unfolding connected_def h(1) h0 by simp
  with rd w2(1) w3 assms(6) show ?thesis
    by (intro that [of w3]) (simp_all add: start_def thenE_def bindE_def ret_def)
qed

text \<open>The supervisor from \<open>accept\<close> to its end, and a \<open>delete\<close> after it.\<close>

lemma supervisor_done:
  assumes "cooperative K" "plain_id c" "state_codec K" "event_codec K" "intact K w c s"
  obtains q w' where "waiting_prog K c sp ev pid rt fd = Await (connected c) q" "advance q w = (Halt (Inr ()), w')"
    "intact K w' c (set_stopped s)" "\<And>p. p \<notin> {state_comps c, log_comps c} \<Longrightarrow> node_at w' p = node_at w p"
proof -
  have K: "obliging K" "\<forall>op w. k_others K op w = files w" using assms(1) by (simp_all add: cooperative_def)
  define q where "q = bindP (atom (map_err (\<lambda>e. from_runtime (Accept4Failure e)) (nix_blocking K Op_accept)))
    (\<lambda>_. supervise_prog K c sp ev pid (log_path c) (rt\<lparr>unix_sock := Some fd\<rparr>))"
  have q: "waiting_prog K c sp ev pid rt fd = Await (connected c) q"
    by (simp add: waiting_prog_def accept_prog_def q_def bindP_assoc)
  let ?w = "log_op Op_accept True w"
  have acc: "map_err (\<lambda>e. from_runtime (Accept4Failure e)) (nix_blocking K Op_accept) w = (Inr (), ?w)"
    using K by (simp add: map_err_def nix_blocking_def obliging_def comp_simps)
  have iw: "intact K ?w c s" using assms(5) by simp
  let ?S = "supervise_prog K c sp ev pid (log_path c) (rt\<lparr>unix_sock := Some fd\<rparr>)"
  obtain w' where w': "run_prog ?S ?w = (Inr (), w')" "stored K w' c = Some (set_stopped s)"
    by (rule supervise_run [OF assms(1-4) iw]) (auto simp: supervise_prog_def run_prog_eqs run_update_state thenE_def)
  have "keeps (- {state_comps c, log_comps c}) (run_prog ?S)"
    unfolding supervise_prog_def run_prog_eqs run_update_state run_atom
    by (intro frames keeps_runtime keeps_waitpid K assms keeps_notify) simp_all
  from keepsD [OF this w'(1)] have n: "node_at w' p = node_at w p" if "p \<notin> {state_comps c, log_comps c}" for p
    using that by simp
  have "intact K w' c (set_stopped s)"
    using w'(2) n [of "bundle_comps c"] assms(5) by (simp add: intact_def bundle_comps_def state_comps_def log_comps_def)
  moreover have "advance q w = (Halt (Inr ()), w')"
    using acc w'(1) by (simp add: q_def advance_bind advance_nowait [OF nowait_progs(2)])
  ultimately show ?thesis using that q n by blast
qed

lemma delete_stopped:
  assumes "obliging K" "plain_id c" "intact K w c s" "s_status s = Stopped"
  obtains w' where "delete K c False w = (Inr (), w')" "\<And>p. node_at w' p = (if prefix (bundle_comps c) p then None else node_at w p)"
proof -
  have rd: "read_state_file K c w = (Inr s, log_op (Op_read (get_state_path c)) True w)"
    using assms(1-3) by (intro read_state_file_stored) (auto simp: obliging_def intact_def)
  have ps: "is_pseudo (norm_path (k_cwd K) (cgroup_dir c))" using assms(2) unfolding cgroup_dir_child by simp
  let ?w = "log_op (Op_rmdir (cgroup_dir c)) True (log_op (Op_read (get_state_path c)) True w)"
  have "delete K c False w = (Inr (), remove_tree (bundle_comps c) (log_op (Op_rmtree (get_bundle_path c)) True ?w))"
    using rd ps assms
    by (simp add: delete_def cleanup_def fs_remove_dir_def fs_remove_dir_all_def intact_def obliging_def Let_def bindE_def thenE_def
        map_err_def comp_simps)
  then show ?thesis by (rule that) simp
qed

text \<open>
  A forced \<open>delete\<close> of a container that was never started strands its supervisor: nothing has
  connected to the socket, which is gone, and \<open>start\<close> now fails before it would connect. The
  supervisor and the child that waits for it stay, and no file names them.
\<close>

lemma connected_emits:
  assumes "emits (\<lambda>op. op \<noteq> Op_connect (get_socket_path c)) m" "m w = (r, w')" "\<not> connected c w"
  shows "\<not> connected c w'"
proof -
  obtain h where h: "hist w' = hist w @ h" "\<forall>e \<in> set h. fst e \<noteq> Op_connect (get_socket_path c)"
    using emitsD [OF assms(1,2)] by blast
  let ?P = "\<lambda>e. e \<noteq> (Op_bind (get_socket_path c), True)"
  have "set (takeWhile ?P (rev h @ rev (hist w))) \<subseteq> set h \<union> set (takeWhile ?P (rev (hist w)))"
    by (auto simp: takeWhile_append dest: set_takeWhileD)
  with h(2) assms(3) show ?thesis unfolding connected_def h(1) rev_append by fastforce
qed

lemma force_delete_strands:
  assumes "obliging K" "plain_id c" "in_place c w1" "\<not> connected c w1" "advance p w = (Await (connected c) q, w1)"
  shows "\<exists>w2 w3. pool_run env new ([p, delete_prog K c True, start_prog K c], w)
        ([Await (connected c) q, Halt (Inr ()), start_prog K c], w2) \<and> gone c w2 \<and>
      pool_run env new ([Await (connected c) q, Halt (Inr ()), start_prog K c], w2)
        ([Await (connected c) q, Halt (Inr ()), Halt (Inl (Fail (ContainerNotFound c)))], w3) \<and> gone c w3 \<and> \<not> connected c w3"
proof -
  have ps: "is_pseudo (norm_path (k_cwd K) (cgroup_dir c))" using assms(2) unfolding cgroup_dir_child by simp
  define w2 where "w2 = remove_tree (bundle_comps c) (log_op (Op_rmtree (get_bundle_path c)) True (log_op (Op_rmdir (cgroup_dir c)) True w1))"
  have del: "delete K c True w1 = (Inr (), w2)"
    using ps assms(1-3)
    by (simp add: w2_def delete_def cleanup_def fs_remove_dir_def fs_remove_dir_all_def in_place_def obliging_def Let_def bindE_def
        attempt_def comp_simps)
  have gone: "gone c w2" by (auto simp: gone_def w2_def remove_tree_def)
  let ?w3 = "log_op (Op_read (get_state_path c)) True w2"
  have st: "start K c w2 = (Inl (Fail (ContainerNotFound c)), ?w3)"
    using read_state_file_not_found [OF assms(2) gone_node [OF gone], of K] assms(1)
    by (simp add: start_def bindE_def obliging_def)
  have "emits (\<lambda>op. op \<noteq> Op_connect (get_socket_path c)) (delete K c True)"
    unfolding delete_def cleanup_def Let_def by (intro frames) simp_all
  from connected_emits [OF this del assms(4)] have n2: "\<not> connected c w2" .
  have n3: "gone c ?w3" "\<not> connected c ?w3" using gone n2 by (simp_all add: gone_def connected_def)
  have "advance (delete_prog K c True) w1 = (Halt (Inr ()), w2)"
    "advance (start_prog K c) w2 = (Halt (Inl (Fail (ContainerNotFound c))), ?w3)"
    using del st by (simp_all add: advance_nowait run_start run_delete nowait_start nowait_delete)
  note steps = pool_advance [OF assms(5), of env new "[]" "[delete_prog K c True, start_prog K c]"]
    pool_advance [OF this(1), of env new "[Await (connected c) q]" "[start_prog K c]"]
    pool_advance [OF this(2), of env new "[Await (connected c) q, Halt (Inr ())]" "[]"]
  have "pool_run env new ([p, delete_prog K c True, start_prog K c], w) ([Await (connected c) q, Halt (Inr ()), start_prog K c], w2)"
    using rtranclp_trans [OF steps(1)] steps(2) by simp
  moreover have "pool_run env new ([Await (connected c) q, Halt (Inr ()), start_prog K c], w2)
      ([Await (connected c) q, Halt (Inr ()), Halt (Inl (Fail (ContainerNotFound c)))], ?w3)" using steps(3) by simp
  ultimately show ?thesis using gone n3 by blast
qed

text \<open>From then on no command of the container reaches the supervisor.\<close>

lemma command_on_gone:
  assumes "obliging K" "plain_id c" "gone c w" "run_command K c cmd w = (r, w')"
  shows "files w' = files w" "\<not> connected c w \<Longrightarrow> \<not> connected c w'"
proof -
  have rd: "bindE (read_state_file K c) f w =
      (Inl (Fail (ContainerNotFound c)), log_op (Op_read (get_state_path c)) True w)" for f :: "State \<Rightarrow> unit core"
    using read_state_file_not_found [OF assms(2) gone_node [OF assms(3)], of K] assms(1) by (simp add: bindE_def obliging_def)
  have ps: "is_pseudo (norm_path (k_cwd K) (cgroup_dir c))" using assms(2) unfolding cgroup_dir_child by simp
  have "node_at w (bundle_comps c) = None" by (rule gone_node [OF assms(3)]) simp
  then have "delete K c True w = (Inr (), log_op (Op_rmtree (get_bundle_path c)) True (log_op (Op_rmdir (cgroup_dir c)) True w))"
    using ps assms(1,2)
    by (simp add: delete_def cleanup_def fs_remove_dir_def fs_remove_dir_all_def obliging_def Let_def bindE_def attempt_def comp_simps)
  with rd assms(4) have "w' = log_op (Op_read (get_state_path c)) True w \<or>
      w' = log_op (Op_rmtree (get_bundle_path c)) True (log_op (Op_rmdir (cgroup_dir c)) True w)"
    by (cases cmd) (auto simp: start_def kill_def pause_def resume_def delete_def split: if_splits)
  then show "files w' = files w" "\<not> connected c w \<Longrightarrow> \<not> connected c w'" by (auto simp: connected_def)
qed

lemma commands_on_gone:
  assumes "obliging K" "plain_id c" "gone c w" "\<not> connected c w"
  shows "\<not> connected c (fold (\<lambda>cmd v. snd (run_command K c cmd v)) cmds w)"
  using assms(3,4)
proof (induction cmds arbitrary: w)
  case (Cons cmd cmds)
  obtain r w' where run: "run_command K c cmd w = (r, w')" by fastforce
  note one = command_on_gone [OF assms(1,2) Cons.prems(1) run]
  have "gone c w'" using one(1) Cons.prems(1) by (simp add: gone_def)
  from Cons.IH [OF this one(2) [OF Cons.prems(2)]] run show ?case by simp
qed simp

section \<open>Properties\<close>

text \<open>
  C4. The life of a container, from an unused id back to an unused id, on a kernel that fails
  nothing. The supervisor comes to where it waits, with the container stored as created with a
  pid, and cannot go on: no one has connected to its socket. \<open>start\<close> succeeds and stores running,
  and now the supervisor can go on: it succeeds and stores stopped. Then \<open>delete\<close> succeeds, and
  the id is as unused as it was.
\<close>

theorem container_life:
  assumes "friendly K" "plain_id c" "state_codec K" "event_codec K"
    and "\<not> (9 < length c \<and> of_char (c ! 9) \<in> {128..<192 :: nat})"
    and "fresh c w" "\<not> is_pseudo (norm_path (k_cwd K) (cfg @ ''/config.json''))"
    and "node_at w (norm_path (k_cwd K) (cfg @ ''/config.json'')) = Some (File raw)"
    and "j_config_from_str K raw = Inr config" "get_root_path config \<noteq> []" "get_process_args config = Some (a # as)"
  shows "\<exists>q pid w1 w2 w3 w4. let S = create_prog K c cfg sp; A = start_prog K c; D = delete_prog K c False; ok = Halt (Inr ()) in
    pool_run env new ([S, A, D], w) ([Await (connected c) q, A, D], w1) \<and> \<not> connected c w1 \<and>
      map_option (\<lambda>s. (s_status s, s_pid s)) (stored K w1 c) = Some (Created, Some pid) \<and>
    pool_run env new ([Await (connected c) q, A, D], w1) ([Await (connected c) q, ok, D], w2) \<and>
      map_option (\<lambda>s. (s_status s, s_pid s)) (stored K w2 c) = Some (Running, Some pid) \<and>
    pool_run env new ([Await (connected c) q, ok, D], w2) ([ok, ok, D], w3) \<and>
      map_option (\<lambda>s. (s_status s, s_pid s)) (stored K w3 c) = Some (Stopped, None) \<and>
    pool_run env new ([ok, ok, D], w3) ([ok, ok, ok], w4) \<and> fresh c w4"
proof -
  have slice: "slice_to c (min (length c) 9) = Some (take 9 c)" using assms(5) slice_to_9 [of c] by presburger
  note co = friendly_cooperative [OF assms(1)]
  note ob = cooperative_obliging [OF co]
  let ?S = "create_prog K c cfg sp" and ?A = "start_prog K c" and ?D = "delete_prog K c False" and ?ok = "Halt (Inr ())"
  let ?st = "State_new (c_oci_version config) c Creating None (get_bundle_path c) None"
  obtain rt pid fd w1 where 1: "advance ?S w = (waiting_prog K c sp (Event_new c Created (Some 0)) pid rt fd, w1)"
    "in_place c w1" "usable c w1" "\<not> connected c w1" "intact K w1 c (set_created pid ?st)"
    by (rule create_waits [OF assms(1-4) slice assms(6-11)])
  have s1: "stored K w1 c = Some (set_created pid ?st)" "s_status (set_created pid ?st) = Created"
    using 1(5) by (simp_all add: intact_def set_state_defs)
  obtain w2 where 2: "start K c w1 = (Inr (), w2)" "intact K w2 c (set_running (set_created pid ?st))" "connected c w2"
    by (rule start_connects [OF assms(2) ob assms(3) 1(2) s1])
  obtain q w3 where q: "waiting_prog K c sp (Event_new c Created (Some 0)) pid rt fd = Await (connected c) q"
    and 3: "advance q w2 = (?ok, w3)" "intact K w3 c (set_stopped (set_running (set_created pid ?st)))"
      "\<And>p. p \<notin> {state_comps c, log_comps c} \<Longrightarrow> node_at w3 p = node_at w2 p"
    by (rule supervisor_done [where sp = sp and ev = "Event_new c Created (Some 0)" and pid = pid and rt = rt and fd = fd,
      OF co assms(2-4) 2(2)]) (rule that)
  have st: "s_status (set_stopped (set_running (set_created pid ?st))) = Stopped" by (simp add: set_state_defs)
  obtain w4 where 4: "delete K c False w3 = (Inr (), w4)" "\<And>p. node_at w4 p = (if prefix (bundle_comps c) p then None else node_at w3 p)"
    by (rule delete_stopped [OF ob assms(2) 3(2) st]) (rule that)
  have k2: "node_at w2 p = node_at w1 p" if "p \<noteq> state_comps c" for p
    using keepsD [OF keeps_lifecycle(1) [OF assms(2), of "{p}" K] 2(1)] that by simp
  have "node_at w4 p = node_at w1 p" if "p \<in> {[''run''], [''run'', ''clonebox'']}" for p
    using that k2 [of p] 3(3) [of p] 4(2) [of p] by (auto simp: bundle_comps_def state_comps_def log_comps_def)
  then have fr: "fresh c w4" using 1(3) 4(2) by (simp add: fresh_def usable_def)
  have "advance ?A w1 = (?ok, w2)" "advance ?D w3 = (?ok, w4)"
    using 2(1) 4(1) by (simp_all add: advance_nowait run_start run_delete nowait_start nowait_delete)
  note runs = pool_release [OF 1(1) [unfolded q] this(1) 2(3) 3(1) this(2), of env new]
  have "map_option (\<lambda>s. (s_status s, s_pid s)) (stored K w1 c) = Some (Created, Some pid)"
    "map_option (\<lambda>s. (s_status s, s_pid s)) (stored K w2 c) = Some (Running, Some pid)"
    "map_option (\<lambda>s. (s_status s, s_pid s)) (stored K w3 c) = Some (Stopped, None)"
    using 1(5) 2(2) 3(2) by (simp_all add: intact_def set_state_defs)
  with runs 1(4) fr show ?thesis unfolding Let_def by blast
qed

text \<open>
  C33. A forced delete strands a supervisor. A container is created and waits for \<open>start\<close>; a forced
  delete of it succeeds and removes everything of the bundle, the socket included. The supervisor
  still waits for somebody to connect, \<open>start\<close> now answers that the container is not found, and no
  sequence of lifecycle commands of that id connects again: the supervisor and its child stay.
\<close>

theorem stranded_supervisor:
  assumes "friendly K" "plain_id c" "state_codec K" "event_codec K"
    and "\<not> (9 < length c \<and> of_char (c ! 9) \<in> {128..<192 :: nat})"
    and "fresh c w" "\<not> is_pseudo (norm_path (k_cwd K) (cfg @ ''/config.json''))"
    and "node_at w (norm_path (k_cwd K) (cfg @ ''/config.json'')) = Some (File raw)"
    and "j_config_from_str K raw = Inr config" "get_root_path config \<noteq> []" "get_process_args config = Some (a # as)"
  shows "\<exists>q pid w1 w2 w3. let S = create_prog K c cfg sp; D = delete_prog K c True; A = start_prog K c; ok = Halt (Inr ()) in
    pool_run env new ([S, D, A], w) ([Await (connected c) q, D, A], w1) \<and>
      map_option (\<lambda>s. (s_status s, s_pid s)) (stored K w1 c) = Some (Created, Some pid) \<and>
    pool_run env new ([Await (connected c) q, D, A], w1) ([Await (connected c) q, ok, A], w2) \<and> gone c w2 \<and>
    pool_run env new ([Await (connected c) q, ok, A], w2)
      ([Await (connected c) q, ok, Halt (Inl (Fail (ContainerNotFound c)))], w3) \<and>
    (\<forall>cmds. \<not> connected c (fold (\<lambda>cmd v. snd (run_command K c cmd v)) cmds w3))"
proof -
  have slice: "slice_to c (min (length c) 9) = Some (take 9 c)" using assms(5) slice_to_9 [of c] by presburger
  note ob = cooperative_obliging [OF friendly_cooperative [OF assms(1)]]
  let ?st = "State_new (c_oci_version config) c Creating None (get_bundle_path c) None"
  let ?S = "create_prog K c cfg sp" and ?D = "delete_prog K c True" and ?A = "start_prog K c"
  obtain rt pid fd w1 where 1: "advance ?S w = (waiting_prog K c sp (Event_new c Created (Some 0)) pid rt fd, w1)"
    "in_place c w1" "\<not> connected c w1" "intact K w1 c (set_created pid ?st)"
    by (rule create_waits [OF assms(1-4) slice assms(6-11)])
  obtain q where q: "waiting_prog K c sp (Event_new c Created (Some 0)) pid rt fd = Await (connected c) q"
    by (simp add: waiting_prog_def accept_prog_def)
  let ?W = "Await (connected c) q"
  have created: "pool_run env new ([?S, ?D, ?A], w) ([?W, ?D, ?A], w1)"
    using pool_advance [OF 1(1) [unfolded q], of env new "[]" "[?D, ?A]"] by simp
  have "advance ?W w1 = (?W, w1)" by simp
  from force_delete_strands [OF ob assms(2) 1(2,3) this] obtain w2 w3 where
    2: "pool_run env new ([?W, ?D, ?A], w1) ([?W, Halt (Inr ()), ?A], w2)" "gone c w2"
      "pool_run env new ([?W, Halt (Inr ()), ?A], w2) ([?W, Halt (Inr ()), Halt (Inl (Fail (ContainerNotFound c)))], w3)"
      "gone c w3" "\<not> connected c w3" by blast
  have "map_option (\<lambda>s. (s_status s, s_pid s)) (stored K w1 c) = Some (Created, Some pid)"
    using 1(4) by (simp add: intact_def set_state_defs)
  with created 2 commands_on_gone [OF ob assms(2) 2(4,5)] show ?thesis unfolding Let_def by blast
qed

end
