(* ===== verification/Witnesses.thy ===== *)
theory Witnesses
  imports Demo Tasks Boot Wire Life
begin

text \<open>
  The properties with hypotheses, applied at concrete inputs where the hypotheses hold: each
  witness evaluates the model on the kernel and the worlds of \<open>Demo\<close>.
\<close>

section \<open>Files, events, configuration, clone\<close>

theorem write_read_state_witness:
  "\<exists>w'. write_state_file demo ''a'' (demo_state Running (Some 7)) (world_with (demo_state Created (Some 7))) = (Inr (), w') \<and>
        fst (read_state_file demo ''a'' w') = Inr (demo_state Running (Some 7))"
proof -
  let ?w = "world_with (demo_state Created (Some 7))"
  have dir: "is_dir ?w (bundle_comps ''a'')" by (simp add: is_dir_def)
  obtain w' where w': "write_state_file demo ''a'' (demo_state Running (Some 7)) ?w = (Inr (), w')"
    by (rule write_state_file_run [OF plain_a(1) demo_codecs(1) dir]) simp_all
  with write_read_state [OF plain_a(1) demo_codecs(1) w'] show ?thesis by simp
qed

theorem send_event_line_witness:
  "\<exists>t w'. send_event demo ''/sk'' (Event_new ''a'' Created (Some 0)) empty_world = (Inr (), w') \<and>
     hist w' = [(Op_stream_connect ''/sk'', True), (Op_stream_write ''/sk'' (t @ newline), True)] \<and>
     j_event_from_str demo t = Inr (Event_new ''a'' Created (Some 0))"
proof -
  have "succeeds (notify demo (Some ''/sk'') (Event_new ''a'' Created (Some 0)))"
    by (rule succeeds_notify [OF demo_obliging demo_codecs(2)])
  then obtain w' where w': "send_event demo ''/sk'' (Event_new ''a'' Created (Some 0)) empty_world = (Inr (), w')"
    by (auto simp: notify_def succeeds_def)
  have "hist empty_world = []" by (simp add: empty_world_def)
  with send_event_line [OF demo_codecs(2) w'] w' show ?thesis by auto
qed

theorem config_load_decides_witness:
  "fst (config_load demo ''/cfg'' empty_world) = Inr demo_config"
proof -
  have "fs_read_to_string demo (''/cfg'' @ ''/config.json'') empty_world =
      (Inr ''{}'', log_op (Op_read (''/cfg'' @ ''/config.json'')) True empty_world)"
    by (rule fs_read_run) (simp_all add: norm_path_def is_pseudo_def node_at_def empty_world_def)
  from config_load_decides [OF this, of demo_config] show ?thesis
    by (simp add: demo_config_def get_root_path_def get_process_args_def)
qed

theorem built_builds_witness:
  "clone3_check (clone3_cgroup 3 (clone3_flags 0x20000000 (Clone3_new (Some 17)))) = None"
proof -
  have "built (clone3_cgroup 3 (clone3_flags 0x20000000 (Clone3_new (Some 17))))"
    by (intro built.cgroup built.flags built.new) (simp add: checked_flags_def clone_flag_defs)
  from built_builds [OF this] show ?thesis by blast
qed

section \<open>Cgroups and namespaces\<close>

definition cpuset_kernel :: config_kernel where
  "cpuset_kernel = demo\<lparr>k_pseudo_read := \<lambda>_ _. ''cpuset memory''\<rparr>"

theorem enable_controller_writes_witness:
  "fst (enable_controller cpuset_kernel get_app_cgroup_path ''io'' empty_world) =
     Inl (Fail (from_cgroup (ResourceNotAvailable (get_app_cgroup_path @ ''/cgroup.controllers'') ''io'')))"
proof -
  have no: "\<not> sublist ''io'' ''cpuset memory''" by code_simp
  show ?thesis
    using enable_controller_writes [of cpuset_kernel get_app_cgroup_path "''cpuset memory''" "''cpuset memory''" "''io''" empty_world] no
    by (simp add: cpuset_kernel_def Let_def)
qed

theorem cpuset_taken_for_cpu_witness:
  "fst (enable_controller cpuset_kernel get_app_cgroup_path ''cpu'' empty_world) = Inr ()"
  using cpuset_taken_for_cpu [of cpuset_kernel empty_world] by (auto simp: cpuset_kernel_def)

definition bind_mount :: Mount where
  "bind_mount = \<lparr>m_destination = ''/data'', m_type = None, m_source = Some ''/srv'', m_options = Some [''bind'']\<rparr>"

theorem pre_pivot_mount_result_witness:
  "\<exists>w'. pre_pivot_mount demo ''/b'' ''/rootfs'' [bind_mount] empty_world = (Inr ''/rootfs'', w') \<and>
     hist w' = [(Op_mount (Some ''/rootfs'') ''/rootfs'' None MS_BIND None, True),
                (Op_mount (Some ''/srv'') ''/rootfs/data'' None MS_BIND (Some ''bind''), True)]"
proof -
  have "\<exists>r w'. pre_pivot_mount demo ''/b'' ''/rootfs'' [bind_mount] empty_world = (Inr r, w')"
    by (simp add: pre_pivot_mount_def bind_mount_def has_bind_def mount_child_def thenE_def bindE_def child_try_nix_run comp_simps)
  then obtain r w' where w': "pre_pivot_mount demo ''/b'' ''/rootfs'' [bind_mount] empty_world = (Inr r, w')" by blast
  from pre_pivot_mount_result [OF w'] w' show ?thesis
    by (simp add: bind_mount_def has_bind_def options_string_def empty_world_def)
qed

section \<open>Netlink\<close>

theorem pad_to_align_aligns_witness:
  "\<exists>z. w_buf (pad_to_align \<lparr>w_buf = [1, 2, 3, 4]\<rparr>) = [1, 2, 3, 4] @ z \<and> z = []"
  using pad_to_align_aligns [of "\<lparr>w_buf = [1, 2, 3, 4]\<rparr>"] by (auto simp: pos_def)

theorem read_bytes_ignores_cursor_witness:
  "read_bytes 1 \<lparr>r_buf = [1, 2, 3], r_cursor = 1\<rparr> = Inr ([1], \<lparr>r_buf = [1, 2, 3], r_cursor = 2\<rparr>)"
  using read_bytes_ignores_cursor [of 1 "\<lparr>r_buf = [1, 2, 3], r_cursor = 1\<rparr>"] by (simp add: check_bound_def)

theorem veth_msg_decodes_witness:
  "\<exists>m info. veth_msg ''a'' ''a_peer'' \<lparr>w_buf = []\<rparr> = Some \<lparr>w_buf = m\<rparr> \<and>
     parse_attrs (drop 32 m) = Some [(IFLA_IFNAME, c_str ''a''), (IFLA_LINKINFO, info)]"
  using veth_msg_decodes [of "''a''" "''a_peer''"] by auto

theorem create_network_script_witness:
  "\<exists>w' hi ci fd. create_network demo ''a'' 7 empty_world = (Inr (), w') \<and> hist w' = network_script ''a'' 7 hi ci fd"
proof -
  have "slice_to ''a'' (min (length ''a'') 9) = Some ''a''" by (simp add: slice_to_def is_char_boundary_def)
  from succeedsD [OF create_network_succeeds [OF demo_friendly this], of 7 empty_world]
  obtain w' where w': "create_network demo ''a'' 7 empty_world = (Inr (), w')" by auto
  from create_network_script [OF w'] w' show ?thesis by (auto simp: empty_world_def)
qed

definition split_id :: string where
  "split_id = ''aaaaaaaa'' @ [CHR 0xC3, CHR 0xA9]"

theorem create_network_panics_witness:
  "fst (create_network demo split_id 7 empty_world) = Inl Panicked"
proof -
  obtain f1 w1 where 1: "fs_open demo host_ns_path empty_world = (Inr f1, w1)"
    using succeedsD [OF obliging_pseudo(1) [OF demo_obliging, of host_ns_path], of empty_world] by auto
  obtain f2 w2 where 2: "fs_open demo (peer_ns_path 7) w1 = (Inr f2, w2)"
    using succeedsD [OF obliging_pseudo(1) [OF demo_obliging, of "peer_ns_path 7"], of w1] by auto
  have "9 < length split_id" "of_char (split_id ! 9) \<in> {128..<192 :: nat}" by (simp_all add: split_id_def)
  from create_network_panics [OF this 1 2] show ?thesis by simp
qed

definition nack_kernel :: config_kernel where
  "nack_kernel = demo\<lparr>k_recv := \<lambda>_. nlmsghdr_layout (nlmsghdr_builder 36 NLMSG_ERROR 0 0 0) @ ne32 (word_of_int (- 17)) @ []\<rparr>"

theorem recv_ack_decides_witness:
  "fst (recv_ack nack_kernel empty_world) = Inl (Fail (from_network (NetlinkFailure ''netlink error: io'')))"
proof -
  have "recv_ack nack_kernel empty_world =
    (if (17 :: int) = 0 then Inr ()
     else Inl (Fail (from_network (NetlinkFailure (''netlink error: '' @ k_io_text nack_kernel (Os 17))))),
     log_op Op_nl_recv True empty_world)"
    by (rule recv_ack_decides [where rest = "[]" and l = 36 and fl = 0 and sq = 0 and p = 0])
       (simp_all add: nack_kernel_def)
  then show ?thesis by (simp add: nack_kernel_def demo_def)
qed

section \<open>The lifecycle\<close>

abbreviation created_world :: world where "created_world \<equiv> world_with (demo_state Created (Some 7))"
abbreviation running_world :: world where "running_world \<equiv> world_with (demo_state Running (Some 7))"
abbreviation stopped_world :: world where "stopped_world \<equiv> world_with (demo_state Stopped None)"

theorem lifecycle_refines_witness:
  "\<exists>w'. for_each [Start] (run_command demo ''a'') created_world = (Inr (), w') \<and>
        spec_run [Start] (Some (demo_state Created (Some 7))) (stored demo w' ''a'')"
proof -
  obtain w' where "start demo ''a'' created_world = (Inr (), w')" using demo_start by blast
  then have run: "for_each [Start] (run_command demo ''a'') created_world = (Inr (), w')" by (simp add: thenE_ok comp_simps)
  from lifecycle_refines [OF plain_a(1) demo_codecs(1) run] run show ?thesis by auto
qed

theorem lifecycle_keeps_wf_witness:
  "\<exists>w' s. run_command demo ''a'' Start created_world = (Inr (), w') \<and> stored demo w' ''a'' = Some s \<and> wf_state s"
proof -
  obtain w' where run: "run_command demo ''a'' Start created_world = (Inr (), w')" using demo_start by auto
  obtain s where s: "stored demo w' ''a'' = Some s"
    using start_op.op_view [OF demo_store_ok, of created_world "()" w'] run by auto
  have "\<forall>s. stored demo created_world ''a'' = Some s \<longrightarrow> wf_state s"
    by (simp add: wf_state_def demo_state_def)
  from lifecycle_keeps_wf [OF plain_a(1) plain_a(1) demo_codecs(1) run this] run s show ?thesis by auto
qed

theorem lifecycle_isolation_witness:
  "stored demo (snd (kill demo ''a'' running_world)) ''b'' = None"
proof -
  have "run_command demo ''a'' Kill running_world = (fst (kill demo ''a'' running_world), snd (kill demo ''a'' running_world))"
    by simp
  from lifecycle_isolation [OF plain_a(1) this, of "[]" "''b''"] show ?thesis by simp
qed

theorem stopped_is_final_witness:
  "\<exists>w'. for_each [Delete False] (run_command demo ''a'') stopped_world = (Inr (), w') \<and>
        (stored demo w' ''a'' = Some (demo_state Stopped None) \<or> stored demo w' ''a'' = None)"
proof -
  obtain w' where "delete demo ''a'' False stopped_world = (Inr (), w')" using demo_delete by blast
  then have run: "for_each [Delete False] (run_command demo ''a'') stopped_world = (Inr (), w')" by (simp add: thenE_ok comp_simps)
  have "s_status (demo_state Stopped None) = Stopped" by (simp add: demo_state_def)
  from stopped_is_final [OF plain_a(1) demo_codecs(1) stored_world_with this run] run show ?thesis by auto
qed

theorem lifecycle_errors_witness:
  "fst (start demo ''a'' running_world) = Inl (Fail (ContainerNotCreated ''a'')) \<and>
   fst (kill demo ''a'' stopped_world) = Inl (Fail (ContainerAlreadyStopped ''a''))"
  using lifecycle_errors [OF plain_a(1) stored_world_with, of "demo_state Running (Some 7)" "[]"]
    lifecycle_errors [OF plain_a(1) stored_world_with, of "demo_state Stopped None" "[]"]
  by (simp add: demo_state_def)

theorem lifecycle_not_found_witness:
  "fst (pause demo ''a'' empty_world) = Inl (Fail (ContainerNotFound ''a''))"
proof -
  have "node_at empty_world (state_comps ''a'') = None"
    by (simp add: empty_world_def node_at_def state_comps_def bundle_comps_def)
  from lifecycle_not_found [OF plain_a(1) this, of demo Pause] show ?thesis by simp
qed

theorem kill_once_witness:
  "\<exists>w'. kill demo ''a'' running_world = (Inr (), w') \<and> fst (kill demo ''a'' w') = Inl (Fail (ContainerAlreadyStopped ''a''))"
proof -
  obtain w' where run: "kill demo ''a'' running_world = (Inr (), w')" using demo_kill by blast
  from kill_once [OF plain_a(1) demo_codecs(1) run] run show ?thesis by auto
qed

theorem delete_removes_witness:
  "\<exists>w'. delete demo ''a'' False stopped_world = (Inr (), w') \<and> node_at w' (state_comps ''a'') = None"
proof -
  obtain w' where run: "delete demo ''a'' False stopped_world = (Inr (), w')" using demo_delete by blast
  from delete_removes [OF plain_a(1) demo_codecs(1) run, of "state_comps ''a''"] run show ?thesis by simp
qed

theorem force_delete_total_witness:
  "fst (delete demo ''a'' True running_world) = Inr ()"
  using force_delete_total [OF plain_a(1), of demo running_world] by auto

definition two_containers :: world where
  "two_containers = \<lparr>files = ([''run'', ''clonebox''], Dir) # files running_world, hist = []\<rparr>"

theorem force_delete_empty_id_witness:
  "\<exists>w'. delete demo [] True two_containers = (Inr (), w') \<and> stored demo w' ''a'' = None"
proof -
  have "node_at two_containers [''run'', ''clonebox''] = Some Dir"
    by (simp add: two_containers_def node_at_def)
  from force_delete_empty_id [OF this, of demo] show ?thesis by auto
qed

theorem pause_resume_witness:
  "\<exists>w1 w2. pause demo ''a'' running_world = (Inr (), w1) \<and> resume demo ''a'' w1 = (Inr (), w2) \<and>
           stored demo w2 ''a'' = Some (demo_state Running (Some 7))"
proof -
  have "s_status (demo_state Running (Some 7)) = Running" by (simp add: demo_state_def)
  from pause_resume [OF plain_a(1) demo_codecs(1) demo_obliging stored_world_with this world_with_nodes(1)]
  show ?thesis by auto
qed

theorem start_succeeds_witness:
  "\<exists>w'. start demo ''a'' created_world = (Inr (), w') \<and> stored demo w' ''a'' = Some (demo_state Running (Some 7))"
proof -
  have "s_status (demo_state Created (Some 7)) = Created" by (simp add: demo_state_def)
  from start_succeeds [OF plain_a(1) demo_codecs(1) demo_obliging stored_world_with this world_with_nodes(1,2)]
  show ?thesis by (auto simp: demo_state_def)
qed

section \<open>create and exec\<close>

lemma sent_world_with: "sent (world_with s) = []"
  by (simp add: sent_def world_with_def)

theorem create_refuses_witness:
  "\<exists>w'. create demo ''a'' ''/cfg'' None running_world = (Inl (Fail (ContainerAlreadyExists ''a'')), w') \<and>
        sent w' = []"
proof -
  have "node_at running_world (bundle_comps ''a'') \<noteq> None" by simp
  then have *: "node_at running_world (bundle_comps ''a'') \<noteq> None \<or>
      config_load demo ''/cfg'' (log_op (Op_exists (get_bundle_path ''a'')) True running_world) =
        (Inl (Fail (ContainerNotFound ''a'')), running_world)" by simp
  have "k_io demo (Op_exists (get_bundle_path ''a'')) running_world = None" by simp
  from create_refuses [OF plain_a(1) this *, of None] show ?thesis
    using sent_world_with by auto
qed

theorem create_events_witness:
  "\<exists>w' t1 t2 t3. create demo ''a'' ''/cfg'' (Some ''/sk'') empty_world = (Inr (), w') \<and>
     sent w' = [Op_stream_write ''/sk'' (t1 @ newline), Op_stream_write ''/sk'' (t2 @ newline), Op_stream_write ''/sk'' (t3 @ newline)] \<and>
     j_event_from_str demo t3 = Inr \<lparr>e_id = ''a'', e_state = Stopped, e_exit_code = Some 3\<rparr>"
proof -
  obtain w' where run: "create demo ''a'' ''/cfg'' (Some ''/sk'') empty_world = (Inr (), w')" using demo_create by blast
  have "sent empty_world = []" by (simp add: sent_def empty_world_def)
  with create_events [OF demo_codecs(2) run] run show ?thesis by auto
qed

theorem create_ends_stopped_witness:
  "\<exists>w' s. create demo ''a'' ''/cfg'' (Some ''/sk'') empty_world = (Inr (), w') \<and> stored demo w' ''a'' = Some s \<and>
     s_status s = Stopped"
proof -
  obtain w' where run: "create demo ''a'' ''/cfg'' (Some ''/sk'') empty_world = (Inr (), w')" using demo_create by blast
  from create_ends_stopped [OF plain_a(1) demo_codecs(1) run] run show ?thesis by auto
qed

theorem create_succeeds_witness:
  "\<exists>w'. create demo ''a'' ''/cfg'' None empty_world = (Inr (), w') \<and>
     stored demo w' ''a'' = Some (demo_state Stopped None)"
proof -
  have p: "norm_path (k_cwd demo) (''/cfg'' @ ''/config.json'') = [''cfg'', ''config.json'']" by (simp add: norm_path_def)
  have "\<not> (9 < length ''a'' \<and> of_char (''a'' ! 9) \<in> {128..<192 :: nat})" by simp
  from create_succeeds [OF demo_friendly plain_a(1) demo_codecs this fresh_empty, of "''/cfg''" "''{}''" demo_config "''/bin/sh''" "[]" None] p
  show ?thesis
    by (auto simp: is_pseudo_def empty_world_def node_at_def demo_config_def get_root_path_def get_process_args_def demo_state_def)
qed

lemma succeeds_child_try: "succeeds m \<Longrightarrow> succeeds (child_try K txt m msg)"
  using child_try_pass by (fastforce simp: succeeds_def)

definition bind_config :: Config where
  "bind_config = demo_config\<lparr>c_mounts := Some [bind_mount]\<rparr>"

lemma demo_child_setup: "succeeds (child_setup demo b bind_config)"
proof -
  have mounts: "unwrap_or_default (c_mounts bind_config) = [bind_mount]"
    by (simp add: bind_config_def demo_config_def unwrap_or_default_def)
  have mc: "succeeds (mount_child demo src dest ty fl data msg)" for src dest ty fl data msg
    unfolding mount_child_def by (intro succeeds_child_try progress demo_obliging)
  have "has_bind bind_mount" "m_type bind_mount \<noteq> Some ''tmpfs''" by (simp_all add: bind_mount_def has_bind_def)
  then have "pre_pivot_mount demo b root [bind_mount] =
      thenE (mount_child demo (Some root) root None MS_BIND None ''bind mount'')
        (thenE (mount_child demo (m_source bind_mount) (root @ m_destination bind_mount) (m_type bind_mount) MS_BIND
           (options_string bind_mount) ''bind'') (ret root))" for root
    by (simp add: pre_pivot_mount_def thenE_def bindE_assoc)
  then have pp: "succeeds (pre_pivot_mount demo b root [bind_mount])" for root
    by (simp only:) (intro progress mc)
  have "post_pivot_mount demo [bind_mount] = ret ()"
    using \<open>m_type bind_mount \<noteq> _\<close> by (simp add: post_pivot_mount_def post_pivot_step_def)
  then have po: "succeeds (post_pivot_mount demo [bind_mount])" by (simp only: progress)
  show ?thesis
    unfolding child_setup_def mounts Let_def make_child_private_def set_child_hostname_def do_pivot_root_def
      do_default_mounts_def
    by (intro progress succeeds_child_try demo_obliging mc pp po)
qed

theorem child_runs_last_witness:
  "\<exists>w' ok. create_child demo ''/b'' bind_config (Runtime_new (Some 3) (Some 4) None) ''/log'' empty_world = (Inl Replaced, w') \<and>
     hist w' = map (\<lambda>op. (op, True)) (setup_ops ''/b'' bind_config) @
       [(Op_pipe_read, True), (Op_chdir ''/'', ok), (Op_execve ''/bin/sh'' [''/bin/sh''] [], True)]"
proof -
  let ?rt = "Runtime_new (Some 3) (Some 4) None"
  obtain w1 where w1: "child_setup demo ''/b'' bind_config empty_world = (Inr (), w1)"
    using succeedsD [OF demo_child_setup, of "''/b''" empty_world] by auto
  have args: "get_process_args bind_config = Some [''/bin/sh'']" "get_process_env bind_config = None"
    "get_process_cwd bind_config = ''/''"
    by (simp_all add: bind_config_def demo_config_def get_process_args_def get_process_env_def get_process_cwd_def)
  have "\<exists>w'. create_child demo ''/b'' bind_config ?rt ''/log'' empty_world = (Inl Replaced, w')"
    unfolding create_child_split args
    by (simp add: w1 thenE_def bindE_def freeze_child_def Runtime_new_def nix_blocking_def map_err_def container_exec_def
        unwrap_or_default_def to_cstring_vec_def has_nul_def attempt_def comp_simps)
  then obtain w' where run: "create_child demo ''/b'' bind_config ?rt ''/log'' empty_world = (Inl Replaced, w')" by blast
  have "child_end ?rt = Some 3" by (simp add: Runtime_new_def)
  from child_runs_last [OF run this] run show ?thesis
    by (auto simp: args empty_world_def unwrap_or_default_def)
qed

lemma nack_codecs: "state_codec nack_kernel" "event_codec nack_kernel"
  using demo_codecs by (simp_all add: state_codec_def event_codec_def nack_kernel_def)

lemma nack_cooperative: "cooperative nack_kernel"
  using friendly_cooperative [OF demo_friendly] by (simp add: cooperative_def obliging_def nack_kernel_def)

lemma nack_recv_ack: "\<exists>w'. recv_ack nack_kernel w = (Inl (Fail (from_network (NetlinkFailure ''netlink error: io''))), w')"
proof -
  have b: "recv_buf (k_recv nack_kernel w) =
      nlmsghdr_layout (nlmsghdr_builder 36 NLMSG_ERROR 0 0 0) @ ne32 (- 17) @ replicate 4076 0"
    by (simp add: nack_kernel_def recv_buf_def nlhdr.enc_length)
  have ty: "nlmsg_type (nlmsghdr_parse (take 16 (recv_buf (k_recv nack_kernel w)))) = NLMSG_ERROR"
    unfolding b by (simp only: nlhdr.dec_front) (simp add: nlmsghdr_builder_def)
  have err: "le_decode (take 4 (drop 16 (recv_buf (k_recv nack_kernel w)))) = (- 17 :: 32 word)"
    unfolding b by (simp add: nlhdr.enc_length codec32.dec_enc)
  have nums: "(- 17 :: 32 word) \<noteq> 0" "(- 17 :: 32 word) \<noteq> 0x80000000" "k_io_text nack_kernel x = ''io''" for x
    by (simp_all add: nack_kernel_def demo_def)
  have "nl_answer nack_kernel (recv_buf (k_recv nack_kernel w)) =
      throw (from_network (NetlinkFailure ''netlink error: io''))"
    unfolding nl_answer_def ty err Let_def by (simp only: nums if_True if_False refl not_False_eq_True) (simp add: nums)
  moreover have "\<exists>w'. nl_recv nack_kernel w = (Inr (recv_buf (k_recv nack_kernel w)), w')"
    using cooperative_obliging [OF nack_cooperative]
    by (simp add: nl_recv_def obliging_def bindE_def map_err_def comp_simps)
  ultimately show ?thesis
    unfolding recv_ack_def by (auto simp: bindE_def comp_simps)
qed

lemma nack_network: "\<exists>e w'. create_network nack_kernel ''a'' pid w = (Inl (Fail (from_network e)), w')"
proof -
  note ob = cooperative_obliging [OF nack_cooperative]
  obtain f1 w1 where 1: "fs_open nack_kernel host_ns_path w = (Inr f1, w1)"
    using succeedsD [OF obliging_pseudo(1) [OF ob ns_paths_pseudo(1)], of w] by blast
  obtain f2 w2 where 2: "fs_open nack_kernel (peer_ns_path pid) w1 = (Inr f2, w2)"
    using succeedsD [OF obliging_pseudo(1) [OF ob ns_paths_pseudo(2)], of pid w1] by blast
  obtain u w3 where 3: "create_netlink_socket nack_kernel w2 = (Inr u, w3)"
    using succeedsD [OF succeeds_netlink_socket(1) [OF ob], of w2] by blast
  let ?m = "\<lparr>w_buf = veth_request ''a'' (''a'' @ ''_peer'')\<rparr>"
  let ?w4 = "log_op (Op_nl_send (w_buf ?m)) True w3"
  have 4: "nl_send nack_kernel (Some ?m) w3 = (Inr empty_writer, ?w4)"
    using ob by (simp add: nl_send_def obliging_def thenE_def bindE_def map_err_def comp_simps flush_def)
  obtain w5 where 5: "recv_ack nack_kernel ?w4 = (Inl (Fail (from_network (NetlinkFailure ''netlink error: io''))), w5)"
    using nack_recv_ack by blast
  have "create_veth_pair nack_kernel empty_writer ''a'' (''a'' @ ''_peer'') w3 =
      (Inl (Fail (from_network (NetlinkFailure ''netlink error: io''))), w5)"
    unfolding create_veth_pair_def message_eqs using 4 5 by (simp add: comp_simps)
  moreover have "slice_to ''a'' (min (length ''a'') 9) = Some ''a''" by (simp add: slice_to_def is_char_boundary_def)
  ultimately show ?thesis
    unfolding create_network_def using 1 2 3 by (auto simp: comp_simps Let_def)
qed

lemma empty_cfg:
  "norm_path [] (''/cfg'' @ ''/config.json'') = [''cfg'', ''config.json'']" "\<not> is_pseudo [''cfg'', ''config.json'']"
  "node_at empty_world [''cfg'', ''config.json''] = Some (File ''{}'')" "get_root_path demo_config \<noteq> []"
  "get_process_args demo_config = Some (''/bin/sh'' # [])"
  by (simp_all add: norm_path_def is_pseudo_def empty_world_def node_at_def demo_config_def get_root_path_def get_process_args_def)

theorem network_failure_leaves_container_witness:
  "\<exists>w' e s. create nack_kernel ''a'' ''/cfg'' None empty_world = (Inl (Fail (from_network e)), w') \<and>
     stored nack_kernel w' ''a'' = Some s \<and> s_status s = Creating"
proof -
  have k: "k_cwd nack_kernel = []" "j_config_from_str nack_kernel t = Inr demo_config" for t
    by (simp_all add: nack_kernel_def)
  have p: "\<not> is_pseudo (norm_path (k_cwd nack_kernel) (''/cfg'' @ ''/config.json''))"
    "node_at empty_world (norm_path (k_cwd nack_kernel) (''/cfg'' @ ''/config.json'')) = Some (File ''{}'')"
    unfolding k(1) empty_cfg(1) by (rule empty_cfg)+
  obtain rt pid w1 where run: "create nack_kernel ''a'' ''/cfg'' None empty_world =
      create_parent nack_kernel ''a'' None (Event_new ''a'' Creating (Some 0)) rt pid (log_path ''a'') w1"
    by (rule create_front_run [OF nack_cooperative plain_a(1) nack_codecs fresh_empty p k(2) empty_cfg(4,5)])
  obtain e w' where "create_network nack_kernel ''a'' pid w1 = (Inl (Fail (from_network e)), w')"
    using nack_network by blast
  then have run': "create nack_kernel ''a'' ''/cfg'' None empty_world = (Inl (Fail (from_network e)), w')"
    unfolding run create_parent_def Let_def by (simp add: comp_simps)
  from network_failure_leaves_container [OF plain_a(1) nack_codecs(1) run'] run' show ?thesis by blast
qed

lemma ns_path_pseudo: "ns \<in> {''uts'', ''pid'', ''net'', ''mnt''} \<Longrightarrow> is_pseudo (norm_path cwd (ns_path p ns))"
  using slash_not_in_show_int [of "sint p"] dot_not_in_show_int [of "sint p"]
  by (auto simp: ns_path_def norm_path_def is_pseudo_def split_on_append)

lemma demo_enter: "ns \<in> {''uts'', ''pid'', ''net'', ''mnt''} \<Longrightarrow> succeeds (enter_namespace demo p ns)"
  unfolding enter_namespace_def Let_def by (intro progress demo_obliging ns_path_pseudo)

lemma demo_exec: "\<exists>w'. exec demo ''a'' [''ls''] running_world = (Inr (), w')"
proof -
  have none: "node_at running_world (log_comps ''a'') = None"
    by (simp add: world_with_def node_at_def log_comps_def bundle_comps_def state_comps_def socket_comps_def)
  let ?w1 = "log_op (Op_read (get_state_path ''a'')) True running_world"
  obtain w2 where 2: "open_log_file demo (get_bundle_path ''a'') ?w1 = (Inr (log_path ''a''), w2)"
    using open_log_run [OF demo_obliging plain_a(1), of ?w1] none by auto
  have fork: "succeeds (run_in_fork demo [''ls''] fd)" for fd
    unfolding succeeds_def run_in_fork_def
    by (simp add: thenE_def bindE_def map_err_def nix_int_def nix_waitpid_def nix_blocking_def comp_simps)
  have leave: "succeeds (leave_mnt demo p fd)" for p fd
    unfolding succeeds_def leave_mnt_def by (simp add: bindE_def attempt_nix_run comp_simps)
  have "succeeds (getpid demo)" by (simp add: succeeds_def getpid_def)
  then have rest: "succeeds (bindE (getpid demo) (\<lambda>parent_pid.
     thenE (map_err (\<lambda>e. SystemError (system_error.Io e (ns_path parent_pid ''mnt''))) (fs_open demo (ns_path parent_pid ''mnt'')))
    (thenE (enter_namespace demo 7 ''uts'') (thenE (enter_namespace demo 7 ''pid'')
    (thenE (enter_namespace demo 7 ''net'') (thenE (enter_namespace demo 7 ''mnt'')
    (thenE (run_in_fork demo [''ls''] (log_path ''a'')) (thenE (leave_mnt demo parent_pid (log_path ''a''))
    (thenE (enter_namespace demo parent_pid ''uts'') (thenE (enter_namespace demo parent_pid ''pid'')
           (enter_namespace demo parent_pid ''net'')))))))))))"
    by (intro progress demo_obliging demo_enter ns_path_pseudo fork leave) simp_all
  show ?thesis
    unfolding exec_def obliging_read [OF demo_obliging intact_world_with plain_a(1)]
    using 2 succeedsD [OF rest, of w2] by (simp add: demo_state_def comp_simps)
qed

theorem exec_enters_and_leaves_witness:
  "\<exists>w' me child rest. exec demo ''a'' [''ls''] running_world = (Inr (), w') \<and>
     hist w' = [(Op_read (get_state_path ''a''), True), (Op_open_append (log_path ''a''), True), (Op_getpid, True),
       (Op_open (ns_path me ''mnt''), True)] @ enter_calls 7 ''uts'' @ rest"
proof -
  obtain w' where run: "exec demo ''a'' [''ls''] running_world = (Inr (), w')" using demo_exec by blast
  have "hist running_world = []" by (simp add: world_with_def)
  with exec_enters_and_leaves [OF plain_a(1) demo_codecs(1) run] run show ?thesis
    by (auto simp: demo_state_def)
qed

section \<open>The daemon\<close>

definition demo_daemon :: daemon_kernel where
  "demo_daemon = config_kernel.extend demo
     \<lparr>k_env = \<lambda>v. if v = ''CLONEBOX_SHIM'' then Some ''/bin/shim'' else None, k_current_exe = Inr [''bin'', ''cloneboxd''],
      k_closed_text = ''channel closed'', k_dir_error = \<lambda>_ _. False\<rparr>"

lemma demo_daemon_fields [simp]:
  "k_io demo_daemon op w = None" "k_errno demo_daemon op w = None" "k_cwd demo_daemon = []"
  "k_env demo_daemon ''CLONEBOX_SHIM'' = Some ''/bin/shim''" "k_dir_error demo_daemon n w = False"
  "k_pseudo_exists demo_daemon q w = False" "k_order demo_daemon xs w = xs"
  "j_state_from_str demo_daemon = j_state_from_str demo" "j_event_from_str demo_daemon = j_event_from_str demo"
  "j_state_to_string demo_daemon = j_state_to_string demo" "j_event_to_string demo_daemon = j_event_to_string demo"
  by (simp_all add: demo_daemon_def config_kernel.extend_def demo_def)

lemma demo_daemon_ok: "state_codec demo_daemon" "event_codec demo_daemon" "obliging demo_daemon"
  "processes demo_daemon (\<lambda>_. False)" "orders demo_daemon"
  using demo_codecs by (simp_all add: state_codec_def event_codec_def obliging_def processes_def orders_def)

lemma stored_demo_daemon [simp]: "stored demo_daemon = stored demo"
  by (simp add: stored_def fun_eq_iff split: option.split node.split)

text \<open>A daemon that knows the running container \<open>a\<close>, for whose exit one request waits.\<close>

definition demo_table :: "State \<Rightarrow> Cloneboxd" where
  "demo_table s = \<lparr>containers = [(''a'', ContainerEntry_new (s_status s) None [0])], created_ch = [], exit_ch = [Pending],
     d_world = world_with s\<rparr>"

lemma demo_table_wf: "table_wf (demo_table s)"
  by (auto simp: table_wf_def fits_def created_of_def exit_of_def entry_of_def demo_table_def ContainerEntry_new_def)

lemma demo_table_entry: "entry_of (demo_table s) ''a'' = Some (ContainerEntry_new (s_status s) None [0])"
  "exit_of (demo_table s) ''a'' = [0]" "d_world (demo_table s) = world_with s" "exit_ch (demo_table s) = [Pending]"
  by (simp_all add: entry_of_def exit_of_def demo_table_def ContainerEntry_new_def)

theorem update_status_effect_witness:
  "wait_reply demo_daemon 0 (update_status (Event_new ''a'' Stopped (Some 3)) (demo_table (demo_state Running (Some 7)))) =
     Some (Inr 3)"
  using update_status_effect [OF demo_table_wf refl refl, of "demo_state Running (Some 7)" "Event_new ''a'' Stopped (Some 3)" demo_daemon]
  by (simp add: demo_table_entry Event_new_def exit_code_of_def)

definition demo_line :: "Event \<Rightarrow> string" where
  "demo_line ev = enc_fields (event_fields ev)"

lemma demo_line [simp]: "j_event_from_str demo (demo_line ev) = Inr ev"
  by (simp add: demo_def demo_line_def or_error_def read_enc_fields fields_event)

theorem wait_answer_witness:
  "\<exists>d' v. daemon_wait ''a'' (demo_table (demo_state Stopped None)) = (Inr 1, d') \<and> wait_reply demo_daemon 1 d' = None \<and>
     wait_reply demo_daemon 1 (event_line demo_daemon (demo_line (Event_new ''a'' Stopped (Some 3))) d') = Some (Inr 3) \<and>
     handle demo_daemon (DeleteRequest ''a'' True) d' = (Inr (Ready DeleteResponse), v) \<and>
     wait_reply demo_daemon 1 v = Some (Inl (Status Internal ''channel closed''))"
proof -
  let ?K = demo_daemon and ?line = "demo_line (Event_new ''a'' Stopped (Some 3))"
  obtain d' where d': "daemon_wait ''a'' (demo_table (demo_state Stopped None)) = (Inr 1, d')"
    "map_option ce_state (entry_of d' ''a'') = Some Stopped" "wait_reply ?K 1 d' = None"
    by (simp add: daemon_wait_def demo_table_entry wait_reply_def ContainerEntry_new_def demo_state_def)
  obtain w where "delete ?K ''a'' True (d_world d') = (Inr (), w)" using force_delete_total [OF plain_a(1)] by blast
  then have "\<exists>v. handle ?K (DeleteRequest ''a'' True) d' = (Inr (Ready DeleteResponse), v)"
    by (simp add: reply_def daemon_delete_def thenE_def bindE_def comp_simps remove_if_stopped_def)
  then obtain v where v: "handle ?K (DeleteRequest ''a'' True) d' = (Inr (Ready DeleteResponse), v)" by blast
  have "stopped_event ?K ''a'' ?line 3" by (simp add: stopped_event_def Event_new_def exit_code_of_def)
  moreover have "k_closed_text ?K = ''channel closed''" by (simp add: demo_daemon_def config_kernel.extend_def)
  ultimately show ?thesis
    using wait_answer [OF demo_table_wf d'(1) rtranclp.rtrancl_refl d'(3)] d' v by metis
qed

theorem rpc_agrees_witness:
  "\<exists>d'. rpc_command demo_daemon ''a'' Pause (demo_table (demo_state Running (Some 7))) = (Inr (), d') \<and>
     agrees demo_daemon d' ''a''"
proof -
  let ?s = "demo_state Running (Some 7)" and ?K = demo_daemon
  have i: "intact ?K (world_with ?s) ''a'' ?s" by (simp add: intact_def)
  obtain w1 where "thenE (set_cgroup ?K (cgroup_dir ''a'') ''cgroup'' ''freeze'' ''1'') (thenE (update_state ?K ''a'' set_paused) (ret ()))
      (log_op (Op_read (get_state_path ''a'')) True (world_with ?s)) = (Inr (), w1)"
    by (rule freeze_step [OF plain_a(1) demo_daemon_ok(1,3) i])
  then have "pause ?K ''a'' (world_with ?s) = (Inr (), w1)"
    unfolding pause_def obliging_read [OF demo_daemon_ok(3) i plain_a(1)] by (simp add: demo_state_def)
  then have "\<exists>d'. rpc_command ?K ''a'' Pause (demo_table ?s) = (Inr (), d')"
    by (simp add: daemon_pause_def thenE_def bindE_def comp_simps demo_table_entry set_entry_state_def)
  then obtain d' where d': "rpc_command ?K ''a'' Pause (demo_table ?s) = (Inr (), d')" by blast
  from rpc_agrees [OF plain_a(1) demo_daemon_ok(1) d'] d' show ?thesis by auto
qed

theorem failed_creation_reported_ok_witness:
  "\<exists>w1 t. create demo_daemon ''a'' ''/cfg'' (Some ''/sk'') (world_with (demo_state Stopped None)) =
       (Inl (Fail (ContainerAlreadyExists ''a'')), w1) \<and>
     create_reply 0 (event_line demo_daemon t \<lparr>containers = [(''a'', ContainerEntry_new Creating (Some 0) [])],
       created_ch = [Pending], exit_ch = [], d_world = w1\<rparr>) = Some (Inr ())"
proof -
  let ?w = "world_with (demo_state Stopped None)" and ?K = demo_daemon
  let ?w1 = "log_op (Op_exists (get_bundle_path ''a'')) True ?w"
  let ?d = "\<lparr>containers = [(''a'', ContainerEntry_new Creating (Some 0) [])], created_ch = [Pending], exit_ch = [], d_world = ?w1\<rparr>"
  have cr: "create ?K ''a'' ''/cfg'' (Some ''/sk'') ?w = (Inl (Fail (ContainerAlreadyExists ''a'')), ?w1)"
    by (rule create_exists_run) simp_all
  obtain w' where "send_event ?K ''/sk'' (Event_new ''a'' Stopped (Some (- 1))) ?w1 = (Inr (), w')"
    by (rule send_event_run [OF demo_daemon_ok(2,3)])
  with cr have "shim_main ?K [''shim'', ''a'', ''/cfg'', ''/sk''] ?w = (Inl (Fail (Main_core (ContainerAlreadyExists ''a''))), w')"
    by (auto simp: shim_main_eq bindE_stop attempt_ok shim_after_failed)
  from failed_creation_reported_ok [OF demo_daemon_ok(2) this] obtain t where
    "\<forall>d i. table_wf d \<and> i \<in> set (created_of d ''a'') \<longrightarrow> create_reply i (event_line ?K t d) = Some (Inr ())" by blast
  moreover have "table_wf ?d" "0 \<in> set (created_of ?d ''a'')"
    by (auto simp: table_wf_def fits_def created_of_def exit_of_def entry_of_def ContainerEntry_new_def)
  ultimately show ?thesis using cr by blast
qed

theorem duplicate_create_disturbs_witness:
  "\<exists>i d' t. daemon_create demo_daemon ''a'' ''/cfg'' (demo_table (demo_state Running (Some 7))) = (Inr i, d') \<and>
     create_reply i d' = Some (Inl (Status Internal ''container creation failed'')) \<and>
     wait_reply demo_daemon 0 (event_line demo_daemon t d') = Some (Inr (- 1))"
proof -
  let ?d = "demo_table (demo_state Running (Some 7))"
  have "\<exists>i d'. daemon_create demo_daemon ''a'' ''/cfg'' ?d = (Inr i, d')"
    by (simp add: daemon_create_def shim_path_def insert_new_def spawn_shim_def on_world_def Let_def bindE_def thenE_def
        map_err_def comp_simps)
  then obtain i d' where d': "daemon_create demo_daemon ''a'' ''/cfg'' ?d = (Inr i, d')" by blast
  have "node_at (d_world ?d) (bundle_comps ''a'') = Some Dir" by (simp add: demo_table_entry)
  from duplicate_create_disturbs [OF plain_a(1) demo_daemon_ok(2,3) demo_table_wf demo_table_entry(1) this d'] d'
  show ?thesis by (auto simp: demo_table_entry)
qed

theorem recover_table_witness:
  "\<exists>d. recover demo_daemon app_data_path (Cloneboxd_new \<lparr>files = ([''run'', ''clonebox''], Dir) # files (world_with (demo_state Running (Some 7))), hist = []\<rparr>) = (Inr (), d) \<and>
     entry_of d ''a'' = Some (ContainerEntry_new Stopped None [])"
proof -
  let ?w = "\<lparr>files = ([''run'', ''clonebox''], Dir) # files (world_with (demo_state Running (Some 7))), hist = []\<rparr>"
  have w: "node_at ?w [''run'', ''clonebox''] = Some Dir" "node_at ?w (bundle_comps ''a'') = Some Dir"
    "node_at ?w (state_comps ''a'') = node_at (world_with (demo_state Running (Some 7))) (state_comps ''a'')"
    by (simp_all add: node_at_def world_with_def bundle_comps_def state_comps_def socket_comps_def)
  have "\<not> k_dir_error demo_daemon n v" for n v by simp
  from recover_table [OF demo_daemon_ok(3,4) this demo_daemon_ok(5) w(1) plain_a(1)] w(2) stored_cong [OF w(3), of demo]
  show ?thesis by (auto simp: status_found_def demo_state_def)
qed

definition booted_world :: world where
  "booted_world = \<lparr>files = [([''run''], Dir), ([''run'', ''clonebox''], Dir)], hist = []\<rparr>"

lemma demo_boot: "\<exists>d. daemon_up demo_daemon (Cloneboxd_new booted_world) = (Inr (), d) \<and> containers d = [] \<and> created_ch d = []"
proof -
  have paths: "norm_path [] app_data_path = [''run'', ''clonebox'']" "norm_path [] client_socket = [''run'', ''clonebox'', ''clonebox.sk'']"
    "norm_path [] get_event_socket_path = [''run'', ''clonebox'', ''event.sk'']"
    "norm_path [] (app_data_path @ ''/clonebox.sk'') = [''run'', ''clonebox'', ''clonebox.sk'']"
    by (simp_all add: norm_path_def app_data_path_def client_socket_def get_event_socket_path_def)
  show ?thesis
    by (simp add: daemon_up_def paths booted_world_def Cloneboxd_new_def on_world_def fs_create_dir_all_def
        fs_set_permissions_def get_listen_sk_def fs_remove_file_def nix_bind_def bind_errno_def recover_def fs_read_dir_def
        recover_entry_def Let_def bindE_def thenE_def map_err_def attempt_def comp_simps is_pseudo_def is_dir_def
        node_at_def put_node_def log_op_def)
qed

theorem no_lost_waiter_witness:
  "\<exists>d0 r d. daemon_up demo_daemon (Cloneboxd_new booted_world) = (Inr (), d0) \<and>
     handle demo_daemon (CreateRequest ''a'' ''/cfg'') d0 = (Inr (Await_created 0), d) \<and>
     create_reply 0 d = None \<and> (\<exists>!c. 0 \<in> set (created_of d c))"
proof -
  obtain d0 where d0: "daemon_up demo_daemon (Cloneboxd_new booted_world) = (Inr (), d0)" "containers d0 = []" "created_ch d0 = []"
    using demo_boot by blast
  have "\<exists>d. handle demo_daemon (CreateRequest ''a'' ''/cfg'') d0 = (Inr (Await_created 0), d) \<and> created_ch d = [Pending]"
    using d0(2,3)
    by (simp add: daemon_create_def shim_path_def insert_new_def spawn_shim_def on_world_def Let_def bindE_def thenE_def
        map_err_def comp_simps entry_of_def)
  then obtain d where d: "handle demo_daemon (CreateRequest ''a'' ''/cfg'') d0 = (Inr (Await_created 0), d)" "created_ch d = [Pending]"
    by blast
  have run: "(serve demo_daemon)\<^sup>*\<^sup>* d0 d" using serve.request [OF d(1)] by blast
  have "create_reply 0 d = None" using d(2) by (simp add: create_reply_None)
  with no_lost_waiter [OF d0(1) run rtranclp.rtrancl_refl, of 0 0] d d0(1) show ?thesis by auto
qed

section \<open>Interleavings\<close>

text \<open>The container \<open>a\<close>, created, with its supervisor waiting for \<open>start\<close>; or running.\<close>

definition bound_world :: "State \<Rightarrow> world" where
  "bound_world s = (world_with s)\<lparr>hist := [(Op_bind (get_socket_path ''a''), True)]\<rparr>"

lemma bound_world:
  "in_place ''a'' (bound_world s)" "stored demo (bound_world s) ''a'' = Some s"
proof -
  have n: "node_at (bound_world s) = node_at (world_with s)" by (simp add: bound_world_def node_at_def fun_eq_iff)
  then show "in_place ''a'' (bound_world s)" by (simp add: in_place_def)
  show "stored demo (bound_world s) ''a'' = Some s" using stored_world_with [of s] by (simp add: stored_def n)
qed

lemma demo_empty_text: "j_state_from_str demo [] = Inl (Json_error ''bad input'')"
  by (simp add: demo_def or_error_def read_fields_def)

theorem start_exit_race_witness:
  "\<exists>r' v. interleave (start_prog demo ''a'')
       (waiting_prog demo ''a'' None (Event_new ''a'' Created (Some 0)) 7 (Runtime_new None None None) 5)
       (bound_world (demo_state Created (Some 7))) (Inr ()) r' v \<and>
     stored demo v ''a'' = Some (demo_state Running None)"
proof -
  have "s_status (demo_state Created (Some 7)) = Created" by (simp add: demo_state_def)
  from start_exit_race [OF plain_a(1) friendly_cooperative [OF demo_friendly] demo_codecs demo_empty_text bound_world(1,2) this]
  show ?thesis by (simp add: demo_state_def set_state_defs)
qed

theorem kill_exit_race_witness:
  "\<exists>r r' v. interleave (kill_prog demo ''a'')
       (supervise_prog demo ''a'' None (Event_new ''a'' Created (Some 0)) 7 (log_path ''a'') (Runtime_new None None None))
       (bound_world (demo_state Running (Some 7))) r r' v \<and>
     stored demo v ''a'' = Some (demo_state Stopped None)"
proof -
  let ?P = "kill_prog demo ''a''" and ?w = "bound_world (demo_state Running (Some 7))"
  let ?Q = "supervise_prog demo ''a'' None (Event_new ''a'' Created (Some 0)) 7 (log_path ''a'') (Runtime_new None None None)"
  obtain r w1 where p: "run_prog ?P ?w = (r, w1)" by fastforce
  obtain r' w2 where q: "run_prog ?Q w1 = (r', w2)" by fastforce
  have "interleave (Halt r) ?Q w1 r r' w2"
    by (rule run_right [OF nowait_progs(2) q]) (rule interleave.halt)
  from run_left [OF nowait_progs(3) p this] have run: "interleave ?P ?Q ?w r r' w2" .
  from kill_exit_race [OF plain_a(1) friendly_cooperative [OF demo_friendly] demo_codecs demo_empty_text bound_world(1,2) run] run
  show ?thesis by (auto simp: demo_state_def set_state_defs)
qed

lemma bound_world_tidy: "tidy ''a'' (bound_world s)"
  by (simp add: tidy_def bound_world_def world_with_def node_at_def bundle_comps_def state_comps_def socket_comps_def)

theorem force_delete_race_witness:
  "\<exists>v. interleave (delete_prog demo ''a'' True)
       (supervise_prog demo ''a'' None (Event_new ''a'' Created (Some 0)) 7 (log_path ''a'') (Runtime_new None None None))
       (bound_world (demo_state Running (Some 7))) (Inr ()) (Inr ()) v \<and>
     left_over demo ''a'' (demo_state Stopped None) v"
proof -
  let ?s = "demo_state Running (Some 7)"
  have "set_stopped ?s = demo_state Stopped None" by (simp add: demo_state_def set_state_defs)
  with force_delete_race [OF plain_a(1) friendly_cooperative [OF demo_friendly] demo_codecs
    bound_world(1) [of ?s] bound_world_tidy [of ?s] bound_world(2) [of ?s],
    of None "Event_new ''a'' Created (Some 0)" 7 "Runtime_new None None None"]
  show ?thesis by metis
qed

theorem delete_exit_race_witness:
  "\<exists>r v. interleave (delete_prog demo ''a'' False)
       (supervise_prog demo ''a'' None (Event_new ''a'' Created (Some 0)) 7 (log_path ''a'') (Runtime_new None None None))
       (bound_world (demo_state Running (Some 7))) r (Inr ()) v \<and>
     (r = Inr () \<and> gone ''a'' v \<or> stored demo v ''a'' = Some (demo_state Stopped None))"
proof -
  let ?P = "delete_prog demo ''a'' False" and ?w = "bound_world (demo_state Running (Some 7))"
  let ?Q = "supervise_prog demo ''a'' None (Event_new ''a'' Created (Some 0)) 7 (log_path ''a'') (Runtime_new None None None)"
  obtain r w1 where p: "run_prog ?P ?w = (r, w1)" by fastforce
  obtain r' w2 where q: "run_prog ?Q w1 = (r', w2)" by fastforce
  have "interleave (Halt r) ?Q w1 r r' w2"
    by (rule run_right [OF nowait_progs(2) q]) (rule interleave.halt)
  from run_left [OF nowait_delete p this] have run: "interleave ?P ?Q ?w r r' w2" .
  have s: "s_status (demo_state Running (Some 7)) \<noteq> Stopped" by (simp add: demo_state_def)
  from delete_exit_race [OF plain_a(1) friendly_cooperative [OF demo_friendly] demo_codecs demo_empty_text bound_world(1) bound_world_tidy
    bound_world(2) s run] run
  show ?thesis by (auto simp: demo_state_def set_state_defs)
qed

theorem datagrams_bounded_witness:
  "\<exists>r w' b. create_network nack_kernel ''a'' 7 empty_world = (r, w') \<and> r \<noteq> Inr () \<and>
     (\<forall>b ok. (Op_nl_send b, ok) \<in> set (hist w') \<longrightarrow> length b \<le> 104)"
proof -
  obtain e w' where run: "create_network nack_kernel ''a'' 7 empty_world = (Inl (Fail (from_network e)), w')"
    using nack_network by blast
  from datagrams_bounded [OF run] run show ?thesis by (auto simp: empty_world_def)
qed

section \<open>The daemon and its supervisor\<close>

lemma demo_daemon_friendly: "friendly demo_daemon"
  using demo_friendly
  by (simp add: friendly_def cooperative_def obliging_def demo_daemon_def config_kernel.extend_def demo_def)

theorem create_through_daemon_witness:
  "\<exists>i d1 w' t1 t2 t3.
     daemon_create demo_daemon ''a'' ''/cfg'' (Cloneboxd_new empty_world) = (Inr i, d1) \<and>
     shim_main demo_daemon [''shim'', ''a'', ''/cfg'', get_event_socket_path] empty_world = (Inr (), w') \<and>
     map_option ce_state (entry_of (event_conn demo_daemon [t1, t2, t3] d1) ''a'') = Some Stopped \<and>
     map_option ce_state (entry_of (event_conn demo_daemon [t1, t3, t2] d1) ''a'') = Some Created"
proof -
  let ?d = "Cloneboxd_new empty_world" and ?K = demo_daemon
  have "\<exists>i d'. daemon_create ?K ''a'' ''/cfg'' ?d = (Inr i, d')"
    by (simp add: daemon_create_def shim_path_def insert_new_def spawn_shim_def on_world_def Let_def bindE_def thenE_def
        map_err_def comp_simps)
  then obtain i d1 where d1: "daemon_create ?K ''a'' ''/cfg'' ?d = (Inr i, d1)" by blast
  have s: "slice_to ''a'' (min (length ''a'') 9) = Some ''a''" by (simp add: slice_to_def is_char_boundary_def)
  have cfg: "j_config_from_str ?K raw = Inr demo_config" for raw
    by (simp add: demo_daemon_def config_kernel.extend_def demo_def)
  have p: "\<not> is_pseudo (norm_path (k_cwd ?K) (''/cfg'' @ ''/config.json''))"
    "node_at empty_world (norm_path (k_cwd ?K) (''/cfg'' @ ''/config.json'')) = Some (File ''{}'')"
    unfolding demo_daemon_fields(3) empty_cfg(1) by (rule empty_cfg)+
  obtain w' where "create ?K ''a'' ''/cfg'' (Some get_event_socket_path) empty_world = (Inr (), w')"
    using create_run [OF demo_daemon_friendly plain_a(1) demo_daemon_ok(1,2) s fresh_empty p cfg empty_cfg(4,5)] by blast
  then have shim: "shim_main ?K [''shim'', ''a'', ''/cfg'', get_event_socket_path] empty_world = (Inr (), w')"
    by (simp add: shim_main_eq comp_simps shim_after_def)
  have "entry_of ?d ''a'' = None" by (simp add: entry_of_def Cloneboxd_new_def)
  from create_through_daemon [OF demo_daemon_ok(2) table_new this d1 shim]
  obtain t1 t2 t3 where t: "distinct [t1, t2, t3]" "\<forall>lines. set lines = {t1, t2, t3} \<longrightarrow>
       map_option ce_state (entry_of (event_conn ?K lines d1) ''a'') =
         Some (if last lines = t3 then Stopped else if last lines = t2 then Created else Creating)"
    by blast
  have "map_option ce_state (entry_of (event_conn ?K [t1, t2, t3] d1) ''a'') = Some Stopped"
    using t(2) [rule_format, of "[t1, t2, t3]"] by simp
  moreover have "set [t1, t3, t2] = {t1, t2, t3}" by auto
  with t(1) t(2) [rule_format, of "[t1, t3, t2]"]
  have "map_option ce_state (entry_of (event_conn ?K [t1, t3, t2] d1) ''a'') = Some Created" by simp
  ultimately show ?thesis using d1 shim by blast
qed

theorem list_reports_witness:
  "\<exists>d'. daemon_list demo_daemon (demo_table (demo_state Running (Some 7))) =
     (Inr [ProtoState_from (demo_state Running (Some 7))], d')"
proof -
  have "\<forall>c \<in> set (map fst (containers (demo_table (demo_state Running (Some 7))))). plain_id c"
    by (simp add: demo_table_def)
  from list_reports [OF demo_daemon_ok(3,5) this] show ?thesis by (auto simp: demo_table_def)
qed

theorem orphan_is_final_witness:
  "\<exists>w'. for_each [Pause, Resume] (run_command demo ''a'') (world_with (demo_state Running None)) = (Inr (), w') \<and>
     (\<exists>s. stored demo w' ''a'' = Some s \<and> orphaned s)"
proof -
  let ?w = "world_with (demo_state Running None)" and ?s = "set_paused (demo_state Running None)"
  have st: "s_status (demo_state Running None) = Running" "s_status ?s = Paused" by (simp_all add: demo_state_def set_paused_def)
  obtain w1 where 1: "thenE (set_cgroup demo (cgroup_dir ''a'') ''cgroup'' ''freeze'' ''1'') (thenE (update_state demo ''a'' set_paused) (ret ()))
      (log_op (Op_read (get_state_path ''a'')) True ?w) = (Inr (), w1)" "intact demo w1 ''a'' ?s"
    by (rule freeze_step [OF plain_a(1) demo_codecs(1) demo_obliging intact_world_with])
  obtain w2 where 2: "thenE (set_cgroup demo (cgroup_dir ''a'') ''cgroup'' ''freeze'' ''0'') (thenE (update_state demo ''a'' set_running) (ret ()))
      (log_op (Op_read (get_state_path ''a'')) True w1) = (Inr (), w2)"
    by (rule freeze_step [OF plain_a(1) demo_codecs(1) demo_obliging 1(2)])
  have "pause demo ''a'' ?w = (Inr (), w1)"
    unfolding pause_def obliging_read [OF demo_obliging intact_world_with plain_a(1)] using 1(1) st(1) by simp
  moreover have "resume demo ''a'' w1 = (Inr (), w2)"
    unfolding resume_def obliging_read [OF demo_obliging 1(2) plain_a(1)] using 2 st(2) by simp
  ultimately have run: "for_each [Pause, Resume] (run_command demo ''a'') ?w = (Inr (), w2)" by (simp add: comp_simps)
  have "orphaned (demo_state Running None)" by (simp add: orphaned_def demo_state_def)
  from orphan_is_final [OF plain_a(1) demo_codecs(1) stored_world_with this run] run show ?thesis by auto
qed

theorem freeze_exit_race_witness:
  "\<exists>r' v. interleave (pause_prog demo ''a'')
       (supervise_prog demo ''a'' None (Event_new ''a'' Created (Some 0)) 7 (log_path ''a'') (Runtime_new None None None))
       (bound_world (demo_state Running (Some 7))) (Inr ()) r' v \<and>
     stored demo v ''a'' = Some (demo_state Paused None)"
proof -
  have "s_status (demo_state Running (Some 7)) = Running" by (simp add: demo_state_def)
  from freeze_exit_race [OF plain_a(1) friendly_cooperative [OF demo_friendly] demo_codecs demo_empty_text bound_world(1,2)
    disjI1 [OF conjI [OF this conjI [OF refl refl]]]]
  show ?thesis by (simp add: demo_state_def set_state_defs)
qed

theorem kill_command_race_witness:
  "\<exists>v. interleave (start_prog demo ''a'') (kill_prog demo ''a'') (bound_world (demo_state Created (Some 7))) (Inr ()) (Inr ()) v \<and>
     stored demo v ''a'' = Some (demo_state Running None)"
proof -
  have "s_status (demo_state Created (Some 7)) = Created" "can_kill (demo_state Created (Some 7))"
    by (simp_all add: demo_state_def can_kill_def)
  from kill_command_race [OF plain_a(1) demo_obliging demo_codecs(1) demo_empty_text bound_world(1,2) this(2)
    disjI1 [OF conjI [OF this(1) conjI [OF refl refl]]]]
  show ?thesis by (simp add: demo_state_def set_state_defs)
qed

text \<open>The demonstration kernel with the pids 7 and 8 in turn.\<close>

definition is_clone :: "sysop \<Rightarrow> bool" where
  "is_clone op = (case op of Op_clone3 _ \<Rightarrow> True | _ \<Rightarrow> False)"

definition pid_kernel :: config_kernel where
  "pid_kernel = demo\<lparr>k_int := \<lambda>op w. if even (length (filter (is_clone \<circ> fst) (hist w))) then 7 else 8\<rparr>"

lemma pid_kernel_ok: "friendly pid_kernel" "state_codec pid_kernel" "event_codec pid_kernel"
  using demo_friendly demo_codecs
  by (auto simp: friendly_def cooperative_def obliging_def state_codec_def event_codec_def pid_kernel_def)

lemma pid_kernel_live: "live_pids pid_kernel"
proof -
  have clone: "\<not> is_process op \<Longrightarrow> \<not> is_clone op" for op by (auto simp: is_process_def is_clone_def split: sysop.splits)
  have "\<exists>e \<in> set h. is_process (fst e)" if "odd (length (filter (is_clone \<circ> fst) h))" for h :: "(sysop \<times> bool) list"
  proof -
    from that have "filter (is_clone \<circ> fst) h \<noteq> []" by auto
    then show ?thesis using clone by (auto simp: filter_empty_conv)
  qed
  then show ?thesis by (auto simp: live_pids_def calm_def pid_kernel_def is_clone_def)
qed

theorem create_create_race_witness:
  "\<exists>pid1 pid2 rt1 fd w'.
    pool_run (\<lambda>_ _. False) {} ([create_prog pid_kernel ''a'' ''/cfg'' None, create_prog pid_kernel ''a'' ''/cfg'' None], empty_world)
      ([waiting_prog pid_kernel ''a'' None (Event_new ''a'' Created (Some 0)) pid1 rt1 fd,
        Halt (Inl (Fail (from_runtime (runtime_error.BindFailure EADDRINUSE))))], w') \<and>
    map_option (\<lambda>s. (s_status s, s_pid s)) (stored pid_kernel w' ''a'') = Some (Created, Some pid2) \<and> pid1 \<noteq> pid2"
proof -
  have k: "k_cwd pid_kernel = []" "j_config_from_str pid_kernel t = Inr demo_config" for t by (simp_all add: pid_kernel_def)
  have p: "\<not> is_pseudo (norm_path (k_cwd pid_kernel) (''/cfg'' @ ''/config.json''))"
    "node_at empty_world (norm_path (k_cwd pid_kernel) (''/cfg'' @ ''/config.json'')) = Some (File ''{}'')"
    unfolding k(1) empty_cfg(1) by (rule empty_cfg)+
  have short: "\<not> (9 < length ''a'' \<and> of_char (''a'' ! 9) \<in> {128..<192 :: nat})" by simp
  let ?run = "pool_run (\<lambda>_ _. False) {}" and ?C = "create_prog pid_kernel ''a'' ''/cfg'' None"
    and ?F = "create_found_prog pid_kernel ''a'' ''/cfg'' None" and ?W = "\<lambda>pid rt fd. waiting_prog pid_kernel ''a'' None (Event_new ''a'' Created (Some 0)) pid rt fd"
    and ?G = "\<lambda>rt pid. create_parent_prog pid_kernel ''a'' None (Event_new ''a'' Creating (Some 0)) rt pid (log_path ''a'')"
  from create_create_race [OF pid_kernel_ok(1) plain_a(1) pid_kernel_ok(2,3) short fresh_empty p k(2) empty_cfg(4,5),
    where env = "\<lambda>_ _. False" and new = "{}" and ?sp1.0 = None and ?sp2.0 = None] pid_kernel_live
  obtain pid1 pid2 rt1 rt2 fd w1 u1 w2 u2 w3 where run: "?run ([?C, ?C], empty_world) ([?F, ?F], w1)"
      "?run ([?F, ?F], w1) ([?G rt1 pid1, ?F], u1)" "?run ([?G rt1 pid1, ?F], u1) ([?W pid1 rt1 fd, ?F], w2)"
      "?run ([?W pid1 rt1 fd, ?F], w2) ([?W pid1 rt1 fd, ?G rt2 pid2], u2)"
      "?run ([?W pid1 rt1 fd, ?G rt2 pid2], u2) ([?W pid1 rt1 fd, Halt (Inl (Fail (from_runtime (runtime_error.BindFailure EADDRINUSE))))], w3)"
    and st: "map_option (\<lambda>s. (s_status s, s_pid s)) (stored pid_kernel w3 ''a'') = Some (Created, Some pid2)" "pid1 \<noteq> pid2"
    by (elim exE conjE) blast
  from rtranclp_trans [OF run(1) rtranclp_trans [OF run(2) rtranclp_trans [OF run(3) rtranclp_trans [OF run(4,5)]]]] st show ?thesis by blast
qed

theorem container_life_witness:
  "\<exists>q w3 w4. pool_run (\<lambda>_ _. False) {}
      ([Await (connected ''a'') q, Halt (Inr ()), delete_prog demo ''a'' False], w3)
      ([Halt (Inr ()), Halt (Inr ()), delete_prog demo ''a'' False], w4) \<and>
    map_option s_status (stored demo w3 ''a'') = Some Running \<and> map_option s_status (stored demo w4 ''a'') = Some Stopped"
proof -
  have k: "k_cwd demo = []" "j_config_from_str demo t = Inr demo_config" for t by simp_all
  have p: "\<not> is_pseudo (norm_path (k_cwd demo) (''/cfg'' @ ''/config.json''))"
    "node_at empty_world (norm_path (k_cwd demo) (''/cfg'' @ ''/config.json'')) = Some (File ''{}'')"
    unfolding k(1) empty_cfg(1) by (rule empty_cfg)+
  have short: "\<not> (9 < length ''a'' \<and> of_char (''a'' ! 9) \<in> {128..<192 :: nat})" by simp
  have st: "map_option s_status x = Some u" if "map_option (\<lambda>s. (s_status s, s_pid s)) x = Some (u, v)" for x u v
    using that by auto
  from container_life [OF demo_friendly plain_a(1) demo_codecs short fresh_empty p k(2) empty_cfg(4,5),
    where env = "\<lambda>_ _. False" and new = "{}" and sp = None]
  show ?thesis unfolding Let_def by (blast dest: st)
qed

theorem stranded_supervisor_witness:
  "\<exists>q w2 w3. pool_run (\<lambda>_ _. False) {}
      ([Await (connected ''a'') q, Halt (Inr ()), start_prog demo ''a''], w2)
      ([Await (connected ''a'') q, Halt (Inr ()), Halt (Inl (Fail (ContainerNotFound ''a'')))], w3) \<and>
    gone ''a'' w2 \<and> \<not> connected ''a'' (snd (kill demo ''a'' (snd (start demo ''a'' w3))))"
proof -
  have k: "k_cwd demo = []" "j_config_from_str demo t = Inr demo_config" for t by simp_all
  have p: "\<not> is_pseudo (norm_path (k_cwd demo) (''/cfg'' @ ''/config.json''))"
    "node_at empty_world (norm_path (k_cwd demo) (''/cfg'' @ ''/config.json'')) = Some (File ''{}'')"
    unfolding k(1) empty_cfg(1) by (rule empty_cfg)+
  have short: "\<not> (9 < length ''a'' \<and> of_char (''a'' ! 9) \<in> {128..<192 :: nat})" by simp
  have two: "\<not> connected ''a'' (snd (kill demo ''a'' (snd (start demo ''a'' v))))"
    if "\<forall>cmds. \<not> connected ''a'' (fold (\<lambda>cmd v. snd (run_command demo ''a'' cmd v)) cmds v)" for v
    using that [rule_format, of "[Start, Kill]"] by simp
  from stranded_supervisor [OF demo_friendly plain_a(1) demo_codecs short fresh_empty p k(2) empty_cfg(4,5),
    where env = "\<lambda>_ _. False" and new = "{}" and sp = None]
  show ?thesis unfolding Let_def by (blast dest: two)
qed

section \<open>Start-up and tasks\<close>

theorem daemon_starts_witness:
  "\<exists>d. daemon_up demo_daemon (Cloneboxd_new (world_with (demo_state Running (Some 7)))) = (Inr (), d) \<and>
     entry_of d ''a'' = Some (ContainerEntry_new Stopped None []) \<and> node_at (d_world d) client_comps = Some Sock"
proof -
  let ?w = "world_with (demo_state Running (Some 7))"
  have home: "home_ready ?w"
    by (simp add: home_ready_def world_with_def node_at_def client_comps_def event_comps_def bundle_comps_def
        state_comps_def socket_comps_def)
  have err: "\<not> k_dir_error demo_daemon n v" for n v by simp
  from daemon_starts [OF demo_daemon_ok(3,5,4) err home] obtain d where d:
    "daemon_up demo_daemon (Cloneboxd_new ?w) = (Inr (), d)" "node_at (d_world d) client_comps = Some Sock"
    "\<forall>n. plain_id n \<and> n \<noteq> ''clonebox.sk'' \<and> n \<noteq> ''event.sk'' \<longrightarrow> entry_of d n = found demo_daemon (\<lambda>_. False) ?w n"
    by blast
  from d(3) have "entry_of d ''a'' = found demo_daemon (\<lambda>_. False) ?w ''a''" by simp
  then have "entry_of d ''a'' = Some (ContainerEntry_new Stopped None [])"
    by (simp add: found_def status_found_def demo_state_def)
  with d show ?thesis by blast
qed

text \<open>A \<open>create\<close> that waits; then the created event comes.\<close>

theorem no_request_lost_witness:
  "\<exists>d0 d. daemon_up demo_daemon (Cloneboxd_new booted_world) = (Inr (), d0) \<and>
     pool_run (environment demo_daemon) (range (task demo_daemon)) ([], d0) ([Await (created_ready 0) (created_answer 0)], d) \<and>
     \<not> created_ready 0 d \<and>
     fst (run_prog (created_answer 0) (event_line demo_daemon (demo_line (Event_new ''a'' Created None)) d)) = Inr CreateResponse"
proof -
  obtain d0 where d0: "daemon_up demo_daemon (Cloneboxd_new booted_world) = (Inr (), d0)" "containers d0 = []" "created_ch d0 = []"
    using demo_boot by blast
  have "\<exists>d. handle demo_daemon (CreateRequest ''a'' ''/cfg'') d0 = (Inr (Await_created 0), d) \<and> created_ch d = [Pending] \<and>
      created_of d ''a'' = [0]"
    using d0(2,3)
    by (simp add: daemon_create_def shim_path_def insert_new_def spawn_shim_def on_world_def Let_def bindE_def thenE_def
        map_err_def comp_simps entry_of_def created_of_def put_entry_def ContainerEntry_new_def)
  then obtain d where d: "handle demo_daemon (CreateRequest ''a'' ''/cfg'') d0 = (Inr (Await_created 0), d)"
    "created_ch d = [Pending]" "created_of d ''a'' = [0]" by blast
  let ?K = demo_daemon and ?p = "created_answer 0" and ?g = "created_ready 0"
  let ?line = "demo_line (Event_new ''a'' Created None)"
  have adv: "advance (task ?K (CreateRequest ''a'' ''/cfg'')) d0 = (Await ?g ?p, d)" using d(1) by (simp add: advance_task del: task.simps handle.simps)
  have "pool (environment ?K) (range (task ?K)) ([], d0) ([task ?K (CreateRequest ''a'' ''/cfg'')], d0)"
    by (rule pool.spawn, rule rangeI)
  with pool_advance [OF adv, of "environment ?K" "range (task ?K)" "[]" "[]"]
  have run: "pool_run (environment ?K) (range (task ?K)) ([], d0) ([Await ?g ?p], d)"
    by (simp add: converse_rtranclp_into_rtranclp)
  have ready: "\<not> ?g d" using d(2) by (simp add: created_ready_def)
  have ev: "about ?K ''a'' ?line = Some (Event_new ''a'' Created None)" "e_id (Event_new ''a'' Created None) = ''a''"
    "e_state (Event_new ''a'' Created None) \<noteq> Creating"
    by (simp_all add: about_def Event_new_def)
  from no_request_lost [OF d0(1) run, of ?g ?p] have
    "\<forall>line ev. about ?K (e_id ev) line = Some ev \<and> e_state ev \<noteq> Creating \<and> 0 \<in> set (created_of d (e_id ev)) \<longrightarrow>
       ?g (event_line ?K line d) \<and> fst (run_prog ?p (event_line ?K line d)) = Inr CreateResponse"
    by (auto simp: created_ready_inject created_ready_not_exit)
  then have "fst (run_prog ?p (event_line ?K ?line d)) = Inr CreateResponse"
    using ev d(3) by (metis list.set_intros(1))
  with d0(1) run ready show ?thesis by blast
qed

theorem overtaken_start_blocks_id_witness:
  "\<exists>d'. pool_run (environment demo_daemon) (range (task demo_daemon))
       ([task demo_daemon (StartRequest ''a'')], demo_table (demo_state Created (Some 7))) ([Halt (Inr StartResponse)], d') \<and>
     entry_of d' ''a'' = Some (ContainerEntry_new Running None [])"
proof -
  let ?d = "demo_table (demo_state Created (Some 7))" and ?ev = "Event_new ''a'' Stopped (Some 3)"
  have "in_place ''a'' (d_world ?d)" "stored demo_daemon (d_world ?d) ''a'' = Some (demo_state Created (Some 7))"
    "s_status (demo_state Created (Some 7)) = Created"
    by (simp_all add: in_place_def demo_table_entry demo_state_def)
  then obtain w where w: "start demo_daemon ''a'' (d_world ?d) = (Inr (), w)"
    using start_in_place [OF plain_a(1) demo_daemon_ok(3,1)] by blast
  have "entry_of ?d ''a'' \<noteq> None" "about demo_daemon ''a'' (demo_line ?ev) = Some ?ev" "e_state ?ev = Stopped"
    by (simp_all add: demo_table_entry about_def Event_new_def)
  from overtaken_start_blocks_id [OF w this] show ?thesis by blast
qed

end
