(* ===== verification/Spec2Isabelle.thy ===== *)
theory Spec2Isabelle
  imports Witnesses
begin

text \<open>
  A verification of clonebox, a small OCI-style container runtime for Linux.

  \<^bold>\<open>The program.\<close> A client (\<open>src/clonebox\<close>) sends requests over gRPC to a daemon
  (\<open>src/cloneboxd\<close>). The daemon keeps a table of containers and calls the runtime library
  (\<open>src/clonebox-core\<close>) for \<open>start\<close>, \<open>kill\<close>, \<open>pause\<close>, \<open>resume\<close>, \<open>delete\<close>, \<open>state\<close> and \<open>list\<close>. For
  \<open>create\<close> it spawns a supervisor (\<open>src/clonebox-shim\<close>) that runs the library's \<open>create\<close>: it makes the
  bundle under \<open>/run/clonebox\<close>, clones a child that mounts its root and waits on a pipe, sets up
  the network by netlink, waits on a Unix socket for \<open>start\<close>, releases the child and waits for its
  end. The supervisor tells the daemon of each state by a line of JSON on the event socket. The
  state of a container is in its \<open>state.json\<close>, which the daemon and the supervisor both write.
  \<open>exec\<close> is a program of its own (\<open>src/clonebox-exec\<close>) that the client runs.

  \<^bold>\<open>The operating system.\<close> \<open>Os\<close> is the boundary of the model. A \<open>world\<close> is the file tree and the
  history of the calls made, each with its outcome; a computation takes a world and returns a
  result and a world, where a result is a value, a failure, a panic, the end of the process or its
  replacement by \<open>execve\<close>. The kernel is a record of functions (\<open>kernel\<close> and its extensions
  \<open>state_kernel\<close>, \<open>event_kernel\<close>, \<open>config_kernel\<close>, \<open>daemon_kernel\<close>, \<open>client_kernel\<close>): which call fails
  with which error, what a system file reads as, which descriptor or pid is returned, what an
  answer on the netlink socket is, in which order a directory or a hash map is listed (\<open>k_order\<close>),
  and what other processes do to the files during a call that blocks (\<open>k_others\<close>). The records also carry the JSON functions of \<open>serde_json\<close> and the texts of
  errors. A theorem that does not restrict the kernel holds for every behaviour of it. The
  hypotheses on it are named: \<open>state_codec\<close> and \<open>event_codec\<close> (reading back what was written),
  \<open>obliging\<close> (no call fails), \<open>orders\<close> (a listing has each name once), \<open>cooperative\<close> and \<open>friendly\<close> (in addition no interference and no
  netlink error). \<open>Demo\<close> has a kernel that satisfies all of them. One theorem also speaks of a
  kernel that does not reuse the pid of a process nobody has waited for (\<open>live_pids\<close>); \<open>Witnesses\<close>
  has one.

  \<^bold>\<open>The theories.\<close> A definition has the name of the function or type it translates.
  \<^item> \<open>Prelude\<close>: the computations (\<open>bindE\<close>, \<open>attempt\<close>, \<open>map_err\<close>, \<open>for_each\<close>) with the rules that take
    a successful or failed run apart (\<open>comp_ok\<close>, \<open>comp_simps\<close>), splitting and showing of text.
  \<^item> \<open>Errors\<close> (\<open>error.rs\<close>): the error enums, the conversions of \<open>?\<close> and the \<open>Display\<close> texts.
  \<^item> \<open>Os\<close>: files, sockets, calls; the frame rules \<open>keeps\<close> (which files an operation leaves alone)
    and \<open>emits\<close> (which calls it makes).
  \<^item> \<open>StateFile\<close>, \<open>Events\<close>, \<open>Config\<close> (\<open>state.rs\<close>, \<open>event.rs\<close>, \<open>logger.rs\<close>, \<open>config.rs\<close>). The locale
    \<open>state_store\<close> is the contract of the state file.
  \<^item> \<open>Clone3\<close>, \<open>Cgroup\<close>, \<open>Runtime\<close>, \<open>Namespace\<close> (\<open>clone3.rs\<close>, \<open>cgroup.rs\<close>, \<open>runtime.rs\<close>,
    \<open>namespace.rs\<close>).
  \<^item> \<open>Codec\<close>, \<open>Netlink\<close>, \<open>Network\<close>, \<open>Wire\<close> (\<open>network.rs\<close>): little-endian words and the locale
    \<open>fixed_codec\<close> of fixed-width encodings, the byte writer and reader, the structures and nested
    attributes, the six requests and \<open>create_network\<close>, and the size of the datagrams.
  \<^item> \<open>Container\<close>, \<open>Create\<close>, \<open>Progress\<close> (\<open>container.rs\<close>): all operations; the locale \<open>lifecycle_op\<close> is
    what \<open>start\<close>, \<open>kill\<close>, \<open>pause\<close> and \<open>resume\<close> have in common; then \<open>create\<close> and \<open>exec\<close>, and that they
    come to their end on a kernel that fails nothing.
  \<^item> \<open>Schedule\<close>: programs of steps, their interleavings, simulations between them, and pools of
    tasks with the locale \<open>rely_guarantee\<close>. \<open>Programs\<close>: \<open>create\<close>, \<open>start\<close>, \<open>kill\<close>, \<open>pause\<close>,
    \<open>resume\<close> and \<open>delete\<close> as such programs. \<open>Race\<close>: their races; the locale \<open>racing_command\<close> is
    what \<open>start\<close>, \<open>pause\<close> and \<open>resume\<close> have in common there. \<open>Removal\<close>: \<open>delete\<close> against the
    supervisor, on the names in the bundle and the text of the state file. \<open>Life\<close>: \<open>create\<close>, \<open>start\<close>
    and \<open>delete\<close> as tasks of one run, in which \<open>accept\<close> really waits for \<open>start\<close>.
  \<^item> \<open>Daemon\<close>, \<open>Client\<close> (\<open>entry.rs\<close>, \<open>convert.rs\<close>, \<open>event.rs\<close>, \<open>daemon.rs\<close>, \<open>recovery.rs\<close> and \<open>main.rs\<close>
    of the daemon; the three other binaries). A oneshot channel is a cell beside the table:
    pending, sent or dropped; a handler runs to its \<open>await\<close>, and the reply is a function of the
    cell. \<open>serve\<close> is the step relation of the daemon.
  \<^item> \<open>Service\<close>, \<open>System\<close>: the table's invariant, the requests against the state files, recovery; the
    daemon and a supervisor together, listing. The locale \<open>table_relation\<close> carries a relation
    on the table through the handlers: that the table stays well formed, and that an entry stays
    in it. \<open>Boot\<close>: \<open>main\<close> of the daemon.
  \<^item> \<open>Tasks\<close> (\<open>daemon.rs\<close> again): the requests as tasks of steps in a pool, where any number of them
    interleave with each other, with events, with cancellations and with changes by others.
  \<^item> \<open>Demo\<close>, \<open>Witnesses\<close>: a concrete kernel with codecs, and every property with hypotheses applied
    to it.

  \<^bold>\<open>What the theorems show.\<close>
  \<^item> The lifecycle: sequences of commands refine an abstract state machine; a stored pid is there
    exactly while the container lives; a command touches no other container; the error of every
    refused command; a stopped container stays stopped, and one that is stored as running without
    a process stays so; \<open>pause\<close> and \<open>resume\<close>, \<open>kill\<close>, \<open>delete\<close>.
  \<^item> The life of a container from an unused id to an unused id, with the steps of the supervisor,
    \<open>start\<close> and \<open>delete\<close> in one run.
  \<^item> \<open>create\<close> and \<open>exec\<close>: \<open>create\<close> succeeds from a fresh id to the stored end of the container; the
    three events it sends, the last with the exit code of the process it cloned and waited for; its
    end state, whatever others did while it was blocked; the child executes the configured
    program only after the whole set-up and the release; what failures leave behind.
  \<^item> The parts: the exact netlink script and bytes of the network set-up, that the veth request
    decodes, bounds and lengths of all datagrams, acknowledgements, alignment, the clone builder,
    the controllers of cgroups, mounts, the configuration, the state file.
  \<^item> Interleavings: the programs are the operations; \<open>kill\<close> and the end of a container do not
    race; \<open>start\<close>, \<open>pause\<close> and \<open>resume\<close> and the end of a container do, and so do \<open>start\<close> or \<open>pause\<close>
    and \<open>kill\<close>: every outcome is one of five texts, one of them loses the container; two
    creations of one id can both pass the check for it, and which process is then named; a plain \<open>delete\<close> does not race with the end
    of the container, a forced one can leave a bundle behind, or a supervisor that nothing can
    reach.
  \<^item> The daemon: it starts, and what it then knows; no waiter is lost and no answer changes, in every state that any
    schedule of the tasks can reach; what each request leaves in the table, beside the state
    files; what an event does; what answers a \<open>wait\<close>, and what else does not; a creation through daemon and supervisor in every
    order of the event lines; failed and duplicate creations; a start that is overtaken by the
    stopped event; what \<open>list\<close> reports.

  \<^bold>\<open>Granularity and bounds.\<close> In \<open>Container\<close> an operation is atomic but for blocking calls, where
  \<open>k_others\<close> may replace the files. In \<open>Programs\<close> a step is one access to the shared files, and a
  write of a file is two, the truncation and the writing, which \<open>write_all\<close> does with one call for
  a text of this size; a call into the cgroup or netlink code, which shares no file, is one step.
  The removal of a bundle is the listing of its directory, one step for each entry, and the removal
  of the directory. In \<open>Tasks\<close> a block that holds the mutex of the table
  is one step. Pids, descriptors, exit codes and the statuses of the protocol are 32-bit words, and
  their texts those of the signed value; annotations are finite maps, listed in an order that is a
  parameter. All functions are total; the one fuel is in the reader of the text format
  of \<open>Demo\<close>, which gets the length of the text and is proved to be enough. Paths are
  normalised with the working directory; ids are arbitrary strings, and the theorems that need a
  directory name ask for \<open>plain_id\<close>: no slash, not empty, no dot entries.

  \<^bold>\<open>Not modelled.\<close> Third-party code is a parameter: \<open>serde_json\<close>, \<open>tonic\<close> and the generated gRPC code,
  \<open>tokio\<close>'s scheduler (its tasks are steps in any order), \<open>clap\<close>, the log subscriber, and the kernel
  itself, including what namespaces, cgroups and netlink do. The getters of \<open>state.rs\<close>, \<open>event.rs\<close>
  and \<open>config.rs\<close> are the record selectors. The build scripts generate code, the tests need root. The
  dangling pointer that \<open>set_tid\<close> of \<open>clone3.rs\<close> would pass is below the level of the model. In
  the event loop a failure of \<open>accept\<close>, which ends the loop's task, is not modelled: events then
  stop, and no theorem assumes that one comes. Not studied as an interleaving: the child against
  the supervisor, which share no file until the child is released; what the child does after that
  is the kernel's (\<open>k_wait\<close>, \<open>k_others\<close>).
\<close>

end
